(* ===== verification/Prelude.thy ===== *)
theory Prelude
  imports Main "HOL-Library.Word"
begin

text \<open>
  Shared vocabulary of the development: the machine integers of the kernel's C code, the faults a
  C expression can raise, and the generic facts on lists, searches and words that the component
  theories use.  The collections \<open>codec\<close> (byte layouts) and \<open>wordlow\<close> (masks and shifts) are
  filled by the theories that own the constants.
\<close>

unbundle bit_operations_syntax

type_synonym u8 = "8 word"
type_synonym u16 = "16 word"
type_synonym u32 = "32 word"

named_theorems codec
named_theorems wordlow

section \<open>Faults\<close>

text \<open>
  What C leaves undefined is a value of the model: an index past the end of an array, a read of an
  object that was never initialised, a pointer that refers to no object of its type; and so is an
  access the MMU refuses.  A function that may fault returns \<open>fault + 'a\<close>; one whose loop may not
  end returns an \<open>option\<close> of that, with \<open>None\<close> for not returning.
\<close>

datatype fault = OutOfBounds | Uninitialised | BadPointer | PageFault

fun and_then :: "fault + 'a \<Rightarrow> ('a \<Rightarrow> fault + 'b) \<Rightarrow> fault + 'b" where
  "and_then (Inl e) f = Inl e"
| "and_then (Inr x) f = f x"

lemma and_then_Inr [simp]: "and_then r f = Inr y \<longleftrightarrow> (\<exists>x. r = Inr x \<and> f x = Inr y)"
  by (cases r) auto

lemma and_then_return [simp]: "and_then r Inr = r"
  by (cases r) auto

section \<open>Searches\<close>

text \<open>
  \<open>find P [lo..<hi]\<close> is the loop \<open>for (i = lo; i < hi; i++) if (P(i)) return i;\<close> with \<open>None\<close>
  for falling off its end.
\<close>

lemma find_append:
  "find P (xs @ ys) = (case find P xs of None \<Rightarrow> find P ys | Some x \<Rightarrow> Some x)"
  by (induction xs) auto

lemma find_upt_Some:
  "find P [lo..<hi] = Some i \<longleftrightarrow> lo \<le> i \<and> i < hi \<and> P i \<and> (\<forall>j. lo \<le> j \<and> j < i \<longrightarrow> \<not> P j)"
proof (induction hi arbitrary: i)
  case 0
  then show ?case by simp
next
  case (Suc hi)
  show ?case
  proof (cases "lo \<le> hi")
    case False
    then show ?thesis by simp
  next
    case True
    then have split: "[lo..<Suc hi] = [lo..<hi] @ [hi]" by simp
    show ?thesis
    proof (cases "find P [lo..<hi]")
      case None
      then have no: "\<forall>j. lo \<le> j \<and> j < hi \<longrightarrow> \<not> P j"
        by (auto simp: find_None_iff)
      have "find P [lo..<Suc hi] = (if P hi then Some hi else None)"
        using None unfolding split by (simp add: find_append)
      with no True show ?thesis
        by (auto simp: less_Suc_eq)
    next
      case (Some k)
      with Suc.IH [of k] have k: "lo \<le> k" "k < hi" "P k" "\<forall>j. lo \<le> j \<and> j < k \<longrightarrow> \<not> P j"
        by auto
      have "find P [lo..<Suc hi] = Some k"
        using Some unfolding split by (simp add: find_append)
      with k show ?thesis
        by (auto simp: less_Suc_eq) (metis linorder_neqE_nat)+
    qed
  qed
qed

lemma find_upt_None:
  "find P [lo..<hi] = None \<longleftrightarrow> (\<forall>i. lo \<le> i \<and> i < hi \<longrightarrow> \<not> P i)"
  by (auto simp: find_None_iff)

section \<open>Bitmaps as boolean lists\<close>

definition count_free :: "bool list \<Rightarrow> nat" where
  "count_free bs = length (filter Not bs)"

definition count_used :: "bool list \<Rightarrow> nat" where
  "count_used bs = length (filter id bs)"

lemma count_split: "count_free bs + count_used bs = length bs"
  by (induction bs) (auto simp: count_free_def count_used_def)

lemma count_used_set [simp]:
  "i < length bs \<Longrightarrow> \<not> bs ! i \<Longrightarrow> count_used (bs[i := True]) = Suc (count_used bs)"
  by (induction bs arbitrary: i) (auto simp: count_used_def split: nat.splits)

lemma count_used_clear:
  "i < length bs \<Longrightarrow> bs ! i \<Longrightarrow> Suc (count_used (bs[i := False])) = count_used bs"
  by (induction bs arbitrary: i) (auto simp: count_used_def split: nat.splits)

lemma count_used_same [simp]: "bs ! i = b \<Longrightarrow> count_used (bs[i := b]) = count_used bs"
  using list_update_id [of bs i] by auto

lemma count_free_set:
  "i < length bs \<Longrightarrow> \<not> bs ! i \<Longrightarrow> Suc (count_free (bs[i := True])) = count_free bs"
  by (induction bs arbitrary: i) (auto simp: count_free_def split: nat.splits)

lemma count_free_clear [simp]:
  "i < length bs \<Longrightarrow> bs ! i \<Longrightarrow> count_free (bs[i := False]) = Suc (count_free bs)"
  by (induction bs arbitrary: i) (auto simp: count_free_def split: nat.splits)

lemma count_used_le: "count_used bs \<le> length bs"
  by (simp add: count_used_def)

lemma count_free_le: "count_free bs \<le> length bs"
  by (simp add: count_free_def)

lemma count_used_pos: "i < length bs \<Longrightarrow> bs ! i \<Longrightarrow> 0 < count_used bs"
  by (auto simp: count_used_def filter_empty_conv intro: nth_mem)

lemma count_used_full: "count_used bs = length bs \<longleftrightarrow> (\<forall>i < length bs. bs ! i)"
  unfolding count_used_def
  by (metis filter_id_conv id_apply in_set_conv_nth length_filter_less order_less_irrefl)

section \<open>Words\<close>

lemma unat_of_nat_less [simp]:
  "n < 2 ^ LENGTH('a::len) \<Longrightarrow> unat (of_nat n :: 'a word) = n"
  by (simp add: unat_of_nat take_bit_nat_eq_self)

lemma word_of_unat [simp]: "(of_nat (unat w) :: 'a::len word) = w"
  by (simp add: of_nat_unat)

lemma of_nat_word_eq_iff:
  assumes "m < 2 ^ LENGTH('a::len)" and "n < 2 ^ LENGTH('a)"
  shows "(of_nat m :: 'a word) = of_nat n \<longleftrightarrow> m = n"
  using assms by (metis unat_of_nat_less)

lemma unat_Suc_u32:
  assumes "unat (w :: u32) < 2 ^ 32 - 1"
  shows "unat (w + 1) = Suc (unat w)"
proof -
  have "unat (of_nat (Suc (unat w)) :: u32) = Suc (unat w)" using assms by (intro unat_of_nat_less) simp
  then show ?thesis by (simp add: add.commute)
qed

lemma unat_minus_one_u32: "w \<noteq> 0 \<Longrightarrow> unat (w - 1) = unat (w :: u32) - 1"
  by (simp add: unat_minus_one)

lemma unat_ucast_u8 [simp]: "unat (ucast (w :: u8) :: u32) = unat w"
proof -
  have "unat w < 2 ^ 8" using unsigned_less [of w, where ?'a = nat] by simp
  then have "unat (of_nat (unat w) :: u32) = unat w" by (intro unat_of_nat_less) simp
  then show ?thesis by (simp only: of_nat_unat)
qed

lemma nth_upd_word [simp]:
  "(c :: 'a::len word) \<noteq> c' \<Longrightarrow> xs[unat c := v] ! unat c' = xs ! unat c'"
  by (simp add: word_unat_eq_iff)

section \<open>Lists\<close>

lemma nth_upd_other [simp]: "i \<noteq> j \<Longrightarrow> xs[i := x] ! j = xs ! j"
  by simp

lemma take_drop_concat_chunk:
  assumes "\<forall>b \<in> set bs. length b = k" and "i < length bs"
  shows "take k (drop (k * i) (concat bs)) = bs ! i"
  using assms
proof (induction bs arbitrary: i)
  case Nil
  then show ?case by simp
next
  case (Cons b bs)
  show ?case
  proof (cases i)
    case 0
    with Cons.prems show ?thesis by simp
  next
    case (Suc j)
    with Cons.prems have "take k (drop (k * j) (concat bs)) = bs ! j"
      by (intro Cons.IH) auto
    with Suc Cons.prems show ?thesis by simp
  qed
qed

lemma length_concat_chunks:
  "\<forall>b \<in> set bs. length b = k \<Longrightarrow> length (concat bs) = k * length bs"
  by (induction bs) auto

lemma concat_take_drop_chunks:
  "length xs = k * n \<Longrightarrow> concat (map (\<lambda>i. take k (drop (k * i) xs)) [0..<n]) = xs"
proof (induction n arbitrary: xs)
  case 0
  then show ?case by simp
next
  case (Suc n)
  have len: "length (take (k * n) xs) = k * n"
    using Suc.prems by simp
  have "map (\<lambda>i. take k (drop (k * i) xs)) [0..<n] =
        map (\<lambda>i. take k (drop (k * i) (take (k * n) xs))) [0..<n]"
  proof (rule map_cong)
    fix i assume "i \<in> set [0..<n]"
    then have "Suc i \<le> n" by simp
    then have "k * Suc i \<le> k * n" by (rule mult_le_mono2)
    then have "k \<le> k * n - k * i" by simp
    then show "take k (drop (k * i) xs) = take k (drop (k * i) (take (k * n) xs))"
      by (simp add: drop_take min_absorb1)
  qed simp
  then have "concat (map (\<lambda>i. take k (drop (k * i) xs)) [0..<n]) = take (k * n) xs"
    using Suc.IH [OF len] by (simp only:)
  moreover have "take k (drop (k * n) xs) = drop (k * n) xs"
    using Suc.prems by simp
  ultimately show ?case by simp
qed

end
