(* ===== verification/Terminal.thy ===== *)
theory Terminal
  imports Prelude
begin

text \<open>
  The text screen (\<open>src/src/framebuffer.c\<close>) and the printing loops of the interrupt handler,
  \<open>puts\<close> and \<open>puts_at\<close> (\<open>src/src/interrupt.c\<close>).  The screen is the byte memory behind
  \<open>FRAMEBUFFER_MEMORY_OFFSET\<close>; what the code sends to I/O ports is recorded in the order it is
  sent.  The cursor and the window it moves in are part of the keyboard driver's state, as in the C
  code.
\<close>

section \<open>State\<close>

type_synonym screen = "nat \<Rightarrow> u8"

record KeyboardDriverState =
  read_extended_mode :: bool
  keyboard_input_on :: bool
  keyboard_buffer :: u8
  keyboard_buffer_ext :: u8
  press_shift :: bool
  press_ctrl :: bool
  row :: u8
  col :: u8
  last_non_space_col :: "u8 list"
  up_limit :: u8
  down_limit :: u8
  left_limit :: u8
  right_limit :: u8

abbreviation (input) FRAMEBUFFER_HEIGHT :: u8 where "FRAMEBUFFER_HEIGHT \<equiv> 25"
abbreviation (input) FRAMEBUFFER_WIDTH :: u8 where "FRAMEBUFFER_WIDTH \<equiv> 80"
abbreviation (input) CURSOR_PORT_CMD :: u16 where "CURSOR_PORT_CMD \<equiv> 0x03D4"
abbreviation (input) CURSOR_PORT_DATA :: u16 where "CURSOR_PORT_DATA \<equiv> 0x03D5"
abbreviation (input) MAX_ROWS :: nat where "MAX_ROWS \<equiv> 25"
abbreviation (input) EXT_BUFFER_NONE :: u8 where "EXT_BUFFER_NONE \<equiv> 0"

definition keyboard_state :: KeyboardDriverState where
  "keyboard_state = \<lparr> read_extended_mode = False, keyboard_input_on = False, keyboard_buffer = 0,
     keyboard_buffer_ext = EXT_BUFFER_NONE, press_shift = False, press_ctrl = False, row = 0, col = 0,
     last_non_space_col = replicate MAX_ROWS 0, up_limit = 0, down_limit = FRAMEBUFFER_HEIGHT - 1,
     left_limit = 0, right_limit = FRAMEBUFFER_WIDTH - 1 \<rparr>"

record tty =
  kbd :: KeyboardDriverState
  screen :: screen
  ports :: "(u16 \<times> u8) list"

definition upd_kbd :: "(KeyboardDriverState \<Rightarrow> KeyboardDriverState) \<Rightarrow> tty \<Rightarrow> tty" where
  "upd_kbd f t = t\<lparr> kbd := f (kbd t) \<rparr>"

section \<open>The framebuffer\<close>

definition cell :: "u8 \<Rightarrow> u8 \<Rightarrow> nat" where
  "cell r c = (unat r * 80 + unat c) * 2"

definition framebuffer_set_cursor :: "u8 \<Rightarrow> u8 \<Rightarrow> (u16 \<times> u8) list" where
  "framebuffer_set_cursor r c =
     (let cursor_location = ucast r * 80 + ucast c :: u16
      in [(CURSOR_PORT_CMD, 0x0F), (CURSOR_PORT_DATA, ucast (cursor_location AND 0xFF)),
          (CURSOR_PORT_CMD, 0x0E), (CURSOR_PORT_DATA, ucast (drop_bit 8 cursor_location AND 0xFF))])"

definition framebuffer_write :: "u8 \<Rightarrow> u8 \<Rightarrow> u8 \<Rightarrow> u8 \<Rightarrow> u8 \<Rightarrow> screen \<Rightarrow> screen" where
  "framebuffer_write r c ch fg bg s =
     (if FRAMEBUFFER_HEIGHT \<le> r \<or> FRAMEBUFFER_WIDTH \<le> c then s
      else s(cell r c := ch, cell r c + 1 := push_bit 4 bg OR (fg AND 0x0F)))"

text \<open>The two nested loops over a rectangle of cells, in the order of the C code.\<close>

definition for_cells :: "nat \<Rightarrow> nat \<Rightarrow> nat \<Rightarrow> nat \<Rightarrow> (nat \<Rightarrow> nat \<Rightarrow> screen \<Rightarrow> screen) \<Rightarrow> screen \<Rightarrow> screen" where
  "for_cells up down left right f =
     fold (\<lambda>i. fold (f i) [left..<Suc right]) [up..<down]"

definition framebuffer_clear :: "screen \<Rightarrow> screen" where
  "framebuffer_clear = for_cells 0 25 0 79 (\<lambda>i j. framebuffer_write (of_nat i) (of_nat j) 0 7 0)"

section \<open>Printing\<close>

record SyscallPutsArgs =
  buf :: "u8 list"
  count :: u32
  fg_color :: u32
  bg_color :: u32

record SyscallPutsAtArgs = SyscallPutsArgs +
  at_row :: u8
  at_col :: u8

text \<open>
  A \<open>buf\<close> pointer is modelled by the bytes from its position to the end of the object it points
  into: reading past them is out of bounds.
\<close>

definition scroll_cell :: "nat \<Rightarrow> nat \<Rightarrow> screen \<Rightarrow> screen" where
  "scroll_cell i j s =
     (let k = ((i + 1) * 80 + j) * 2
      in framebuffer_write (of_nat i) (of_nat j) (s k) (s (k + 1) AND 0x0F) (drop_bit 4 (s (k + 1))) s)"

definition scroll_up :: "KeyboardDriverState \<Rightarrow> screen \<Rightarrow> screen" where
  "scroll_up k s =
     (let s1 = for_cells (unat (up_limit k)) (unat (down_limit k)) (unat (left_limit k)) (unat (right_limit k)) scroll_cell s
      in fold (\<lambda>j. framebuffer_write (down_limit k) (of_nat j) 0x20 7 0) [unat (left_limit k)..<Suc (unat (right_limit k))] s1)"

definition puts_newline :: "tty \<Rightarrow> tty" where
  "puts_newline t =
     (let k = kbd t;
          t1 = (if row k = down_limit k then t\<lparr> screen := scroll_up k (screen t) \<rparr>
                else upd_kbd (row_update (\<lambda>r. r + 1)) t)
      in upd_kbd (\<lambda>k. k\<lparr> col := left_limit k \<rparr>) t1)"

definition puts_backspace :: "tty \<Rightarrow> fault + tty" where
  "puts_backspace t =
     (let k = kbd t
      in if left_limit k < col k
         then Inr (t\<lparr> kbd := k\<lparr> col := col k - 1 \<rparr>, screen := framebuffer_write (row k) (col k - 1) 0x20 7 0 (screen t) \<rparr>)
         else if up_limit k < row k
         then let r = row k - 1
              in if MAX_ROWS \<le> unat r then Inl OutOfBounds
                 else Inr (t\<lparr> kbd := k\<lparr> row := r, col := last_non_space_col k ! unat r + 1 \<rparr> \<rparr>)
         else Inr t)"

definition puts_tab :: "tty \<Rightarrow> tty" where
  "puts_tab = upd_kbd (col_update (\<lambda>c. (c + 4) AND NOT 3))"

definition puts_ascii :: "u8 \<Rightarrow> u8 \<Rightarrow> u8 \<Rightarrow> tty \<Rightarrow> fault + tty" where
  "puts_ascii fg bg ch t =
     (let k = kbd t
      in if MAX_ROWS \<le> unat (row k) then Inl OutOfBounds
         else Inr (t\<lparr> screen := framebuffer_write (row k) (col k) ch fg bg (screen t),
           kbd := (let k1 = k\<lparr> last_non_space_col := (last_non_space_col k)[unat (row k) := col k] \<rparr>
                   in if row k = down_limit k \<and> col k = right_limit k then k1
                      else if col k = right_limit k then k1\<lparr> row := row k + 1, col := left_limit k \<rparr>
                      else k1\<lparr> col := col k + 1 \<rparr>) \<rparr>))"

definition puts_char :: "u8 \<Rightarrow> u8 \<Rightarrow> u8 \<Rightarrow> tty \<Rightarrow> fault + tty" where
  "puts_char fg bg ch t =
     (if ch = 10 then Inr (puts_newline t)
      else if ch = 8 then puts_backspace t
      else if ch = 9 then Inr (puts_tab t)
      else puts_ascii fg bg ch t)"

fun puts_loop :: "u8 \<Rightarrow> u8 \<Rightarrow> nat \<Rightarrow> u8 list \<Rightarrow> tty \<Rightarrow> fault + tty" where
  "puts_loop fg bg 0 bs t = Inr t"
| "puts_loop fg bg (Suc n) [] t = Inl OutOfBounds"
| "puts_loop fg bg (Suc n) (b # bs) t =
     (if b = 0 then Inr t else and_then (puts_char fg bg b t) (puts_loop fg bg n bs))"

definition puts :: "SyscallPutsArgs \<Rightarrow> tty \<Rightarrow> fault + tty" where
  "puts args t =
     and_then (puts_loop (ucast (fg_color args)) (ucast (bg_color args)) (unat (count args)) (buf args) t)
       (\<lambda>t'. Inr (t'\<lparr> ports := ports t' @ framebuffer_set_cursor (row (kbd t')) (col (kbd t')) \<rparr>))"

fun puts_at_loop :: "u8 \<Rightarrow> u8 \<Rightarrow> u8 \<Rightarrow> u8 \<Rightarrow> nat \<Rightarrow> u8 list \<Rightarrow> screen \<Rightarrow> fault + screen" where
  "puts_at_loop fg bg r c 0 bs s = Inr s"
| "puts_at_loop fg bg r c (Suc n) [] s = Inl OutOfBounds"
| "puts_at_loop fg bg r c (Suc n) (b # bs) s =
     (if b = 0 then Inr s else puts_at_loop fg bg r (c + 1) n bs (framebuffer_write r c b fg bg s))"

definition puts_at :: "SyscallPutsAtArgs \<Rightarrow> tty \<Rightarrow> fault + tty" where
  "puts_at args t =
     and_then (puts_at_loop (ucast (fg_color args)) (ucast (bg_color args)) (at_row args) (at_col args)
         (unat (count args)) (buf args) (screen t))
       (\<lambda>s. Inr (t\<lparr> screen := s \<rparr>))"

definition clear_window :: "tty \<Rightarrow> tty" where
  "clear_window t =
     (let k = kbd t
      in t\<lparr> screen := for_cells (unat (up_limit k)) (Suc (unat (down_limit k))) (unat (left_limit k)) (unat (right_limit k))
           (\<lambda>i j. framebuffer_write (of_nat i) (of_nat j) 0 7 0) (screen t) \<rparr>)"

end
