(* ===== verification/Terminal_Props.thy ===== *)
theory Terminal_Props
  imports Terminal
begin

text \<open>
  What printing does to the screen: text stays inside the window, a newline on the last row scrolls
  the window by one row, a line of printable characters appears at the cursor; and the two ways in
  which the cursor leaves the window (tabs, and backspace at the left border).
\<close>

section \<open>Cells\<close>

definition glyph :: "screen \<Rightarrow> nat \<Rightarrow> nat \<Rightarrow> u8 \<times> u8" where
  "glyph s i j = (s ((i * 80 + j) * 2), s ((i * 80 + j) * 2 + 1))"

definition attr :: "u8 \<Rightarrow> u8 \<Rightarrow> u8" where
  "attr fg bg = push_bit 4 bg OR (fg AND 0x0F)"

lemma cell_eq: "j < 80 \<Longrightarrow> j' < 80 \<Longrightarrow> i * 80 + j = i' * 80 + j' \<longleftrightarrow> i = i' \<and> j = (j' :: nat)"
  by (metis add.commute div_mult_self3 div_less mult.commute add_0_right mod_less mod_mult_self2 zero_neq_numeral)

lemma pair_upd:
  "((s(b * 2 := x, b * 2 + 1 := y)) (a * 2), (s(b * 2 := x, b * 2 + 1 := y)) (a * 2 + 1)) =
     (if a = b then (x, y) else (s (a * 2), s (a * 2 + 1)))" for a b :: nat
proof -
  have "a * 2 \<noteq> b * 2 + 1" "a * 2 + 1 \<noteq> b * 2" by presburger+
  then show ?thesis by simp
qed

lemma glyph_write:
  assumes "j < 80"
  shows "glyph (framebuffer_write r c ch fg bg s) i j =
    (if unat r < 25 \<and> unat c < 80 \<and> i = unat r \<and> j = unat c then (ch, attr fg bg) else glyph s i j)"
proof (cases "unat r < 25 \<and> unat c < 80")
  case True
  then have w: "framebuffer_write r c ch fg bg s = s((unat r * 80 + unat c) * 2 := ch, (unat r * 80 + unat c) * 2 + 1 := attr fg bg)"
    by (simp add: framebuffer_write_def cell_def attr_def word_le_nat_alt)
  show ?thesis unfolding w glyph_def pair_upd using True cell_eq [of j "unat c" i "unat r"] assms by simp
next
  case False
  then show ?thesis by (auto simp: framebuffer_write_def word_le_nat_alt)
qed

lemma attr_split: "attr (x AND 0x0F) (drop_bit 4 x) = (x :: u8)"
proof -
  have m: "(0x0F :: u8) = mask 4" by (simp add: mask_eq_exp_minus_1)
  show ?thesis unfolding attr_def m by (rule bit_word_eqI) (auto simp: bit_simps)
qed

lemma unat_suc_less: "c < (r :: u8) \<Longrightarrow> unat (c + 1) = unat c + 1"
  by unat_arith

text \<open>A loop over the cells of one row and over a rectangle, when each turn writes one cell.\<close>

lemma fold_row:
  assumes w: "\<And>j s i' j'. l \<le> j \<Longrightarrow> j < r \<Longrightarrow> j' < 80 \<Longrightarrow>
      glyph (f j s) i' j' = (if i' = i \<and> j' = j then g s j else glyph s i' j')"
    and g: "\<And>j s s'. (\<And>i' j'. j' < 80 \<Longrightarrow> i' \<noteq> i \<Longrightarrow> glyph s i' j' = glyph s' i' j') \<Longrightarrow> l \<le> j \<Longrightarrow> j < r \<Longrightarrow> g s j = g s' j"
    and j: "j' < 80"
  shows "glyph (fold f [l..<r] s) i' j' = (if i' = i \<and> l \<le> j' \<and> j' < r then g s j' else glyph s i' j')"
  using w g j
proof (induction r arbitrary: i' j')
  case (Suc r)
  have IH: "j' < 80 \<Longrightarrow> glyph (fold f [l..<r] s) i' j' = (if i' = i \<and> l \<le> j' \<and> j' < r then g s j' else glyph s i' j')" for i' j'
    by (rule Suc.IH [OF Suc.prems(1) Suc.prems(2)]) simp_all
  show ?case
  proof (cases "l \<le> r")
    case True
    have "g (fold f [l..<r] s) r = g s r" by (rule Suc.prems(2)) (simp_all add: IH True)
    then show ?thesis
      using True Suc.prems(1) [of r j' "fold f [l..<r] s" i'] Suc.prems(3) by (auto simp: IH less_Suc_eq)
  next
    case False
    then show ?thesis by auto
  qed
qed simp

section \<open>Scrolling\<close>

lemma scroll_cell_glyph:
  assumes "i < 25" "j < 80" "j' < 80"
  shows "glyph (scroll_cell i j s) i' j' = (if i' = i \<and> j' = j then glyph s (Suc i) j else glyph s i' j')"
proof -
  have "unat (of_nat i :: u8) = i" "unat (of_nat j :: u8) = j" using assms by (simp_all add: unat_of_nat)
  then show ?thesis
    using assms unfolding scroll_cell_def Let_def glyph_write [OF assms(3)] by (auto simp: attr_split glyph_def)
qed

lemma scroll_row:
  assumes "i < 25" "r \<le> 80" "j' < 80"
  shows "glyph (fold (scroll_cell i) [l..<r] s) i' j' =
    (if i' = i \<and> l \<le> j' \<and> j' < r then glyph s (Suc i) j' else glyph s i' j')"
  by (rule fold_row [where g = "\<lambda>s. glyph s (Suc i)"]) (use assms in \<open>auto simp: scroll_cell_glyph\<close>)

lemma scroll_cells:
  assumes "d \<le> 25" "r < 80" "j < 80"
  shows "glyph (for_cells u d l r scroll_cell s) i j =
    (if u \<le> i \<and> i < d \<and> l \<le> j \<and> j \<le> r then glyph s (Suc i) j else glyph s i j)"
  using assms(1) unfolding for_cells_def
proof (induction d arbitrary: i)
  case (Suc d)
  have IH: "glyph (fold (\<lambda>i. fold (scroll_cell i) [l..<Suc r]) [u..<d] s) i j =
      (if u \<le> i \<and> i < d \<and> l \<le> j \<and> j \<le> r then glyph s (Suc i) j else glyph s i j)" for i
    using Suc by simp
  show ?case
  proof (cases "u \<le> d")
    case True
    then have "[u..<Suc d] = [u..<d] @ [d]" by simp
    then show ?thesis
      using Suc.prems assms(2,3) True
      by (auto simp: scroll_row IH less_Suc_eq simp del: upt.simps)
  qed auto
qed simp

lemma blank_row:
  assumes "d < 25" "r < 80" "j < 80"
  shows "glyph (fold (\<lambda>j. framebuffer_write d (of_nat j) ch fg bg) [l..<Suc r] s) i j =
    (if i = unat d \<and> l \<le> j \<and> j \<le> r then (ch, attr fg bg) else glyph s i j)"
proof -
  have d: "unat d < 25" using assms(1) by (simp add: word_less_nat_alt)
  have "unat (of_nat k :: u8) = k" if "k < 80" for k using that by (simp add: unat_of_nat)
  then show ?thesis
    using assms d by (subst fold_row [where g = "\<lambda>s j. (ch, attr fg bg)" and i = "unat d"]) (auto simp: glyph_write less_Suc_eq_le)
qed

section \<open>The window\<close>

definition window_ok :: "KeyboardDriverState \<Rightarrow> bool" where
  "window_ok k \<longleftrightarrow> up_limit k \<le> down_limit k \<and> down_limit k < FRAMEBUFFER_HEIGHT \<and>
     left_limit k \<le> right_limit k \<and> right_limit k < FRAMEBUFFER_WIDTH \<and> length (last_non_space_col k) = MAX_ROWS"

definition cursor_inside :: "KeyboardDriverState \<Rightarrow> bool" where
  "cursor_inside k \<longleftrightarrow> up_limit k \<le> row k \<and> row k \<le> down_limit k \<and> left_limit k \<le> col k \<and> col k \<le> right_limit k"

definition in_window :: "KeyboardDriverState \<Rightarrow> nat \<Rightarrow> nat \<Rightarrow> bool" where
  "in_window k i j \<longleftrightarrow> unat (up_limit k) \<le> i \<and> i \<le> unat (down_limit k) \<and> unat (left_limit k) \<le> j \<and> j \<le> unat (right_limit k)"

definition same_window :: "KeyboardDriverState \<Rightarrow> KeyboardDriverState \<Rightarrow> bool" where
  "same_window k k' \<longleftrightarrow> up_limit k' = up_limit k \<and> down_limit k' = down_limit k \<and>
     left_limit k' = left_limit k \<and> right_limit k' = right_limit k"

text \<open>One printing step or a sequence of them respects the window.\<close>

definition stays_in :: "tty \<Rightarrow> tty \<Rightarrow> bool" where
  "stays_in t t' \<longleftrightarrow> window_ok (kbd t') \<and> cursor_inside (kbd t') \<and> same_window (kbd t) (kbd t') \<and>
     (\<forall>i j. j < 80 \<and> \<not> in_window (kbd t) i j \<longrightarrow> glyph (screen t') i j = glyph (screen t) i j)"

lemma in_window_same: "same_window k k' \<Longrightarrow> in_window k' i j = in_window k i j"
  by (simp add: same_window_def in_window_def)

lemma stays_in_refl: "window_ok (kbd t) \<Longrightarrow> cursor_inside (kbd t) \<Longrightarrow> stays_in t t"
  by (simp add: stays_in_def same_window_def)

lemma stays_in_trans: "stays_in t t' \<Longrightarrow> stays_in t' t'' \<Longrightarrow> stays_in t t''"
  unfolding stays_in_def by (auto simp: in_window_same same_window_def in_window_def)

lemma scroll_up_glyph:
  assumes "window_ok k" "j < 80"
  shows "glyph (scroll_up k s) i j =
    (if \<not> in_window k i j then glyph s i j
     else if i = unat (down_limit k) then (0x20, attr 7 0) else glyph s (Suc i) j)"
proof -
  have "unat (down_limit k) \<le> 25" "unat (right_limit k) < 80" "unat (up_limit k) \<le> unat (down_limit k)"
    using assms(1) by (auto simp: window_ok_def word_less_nat_alt word_le_nat_alt)
  then show ?thesis
    using assms unfolding scroll_up_def Let_def
    by (subst blank_row) (auto simp: window_ok_def word_less_nat_alt scroll_cells in_window_def)
qed

lemma step_inside:
  assumes "c \<noteq> r" "c \<le> r" "l \<le> c"
  shows "l \<le> c + 1" "c + (1 :: 8 word) \<le> r"
proof -
  have "c < r" using assms by (simp add: order.strict_iff_order)
  then show "l \<le> c + 1" "c + 1 \<le> r"
    using assms unat_suc_less [of c r] by (auto simp: word_le_nat_alt word_less_nat_alt)
qed

lemma newline_stays_in:
  assumes "window_ok (kbd t)" "cursor_inside (kbd t)"
  shows "stays_in t (puts_newline t)"
proof -
  have "row (kbd t) + 1 \<le> down_limit (kbd t)" "up_limit (kbd t) \<le> row (kbd t) + 1" if "row (kbd t) \<noteq> down_limit (kbd t)"
    using step_inside [OF that, of "up_limit (kbd t)"] assms(2) by (auto simp: cursor_inside_def)
  then show ?thesis
    using assms
    by (auto simp: stays_in_def puts_newline_def upd_kbd_def Let_def cursor_inside_def window_ok_def same_window_def scroll_up_glyph)
qed

lemma ascii_stays_in:
  assumes "window_ok (kbd t)" "cursor_inside (kbd t)"
  obtains t' where "puts_ascii fg bg ch t = Inr t'" "stays_in t t'"
proof
  let ?k = "kbd t"
  let ?t = "t\<lparr> screen := framebuffer_write (row ?k) (col ?k) ch fg bg (screen t),
           kbd := (let k1 = ?k\<lparr> last_non_space_col := (last_non_space_col ?k)[unat (row ?k) := col ?k] \<rparr>
                   in if row ?k = down_limit ?k \<and> col ?k = right_limit ?k then k1
                      else if col ?k = right_limit ?k then k1\<lparr> row := row ?k + 1, col := left_limit ?k \<rparr>
                      else k1\<lparr> col := col ?k + 1 \<rparr>) \<rparr>"
  have "row ?k < 25" using assms by (auto simp: window_ok_def cursor_inside_def)
  then show "puts_ascii fg bg ch t = Inr ?t"
    by (simp add: puts_ascii_def Let_def word_less_nat_alt)
  show "stays_in t ?t"
    using assms step_inside [of "row ?k" "down_limit ?k" "up_limit ?k"] step_inside [of "col ?k" "right_limit ?k" "left_limit ?k"]
    by (auto simp: stays_in_def window_ok_def cursor_inside_def same_window_def in_window_def glyph_write Let_def word_le_nat_alt)
qed

section \<open>Printing text\<close>

lemma puts_loop_stays_in:
  assumes "window_ok (kbd t)" "cursor_inside (kbd t)"
    and "\<forall>b \<in> set bs. b \<noteq> 8 \<and> b \<noteq> 9" and "0 \<in> set bs \<or> n \<le> length bs"
  shows "\<exists>t'. puts_loop fg bg n bs t = Inr t' \<and> stays_in t t'"
  using assms
proof (induction fg bg n bs t rule: puts_loop.induct)
  case (3 fg bg n b bs t)
  show ?case
  proof (cases "b = 0")
    case False
    obtain t1 where t1: "puts_char fg bg b t = Inr t1" "stays_in t t1"
    proof (cases "b = 10")
      case True
      then show ?thesis using that newline_stays_in [OF 3(2,3)] by (simp add: puts_char_def)
    next
      case False
      obtain t1 where "puts_ascii fg bg b t = Inr t1" "stays_in t t1" by (rule ascii_stays_in [OF 3(2,3)])
      then show ?thesis using that False "3.prems"(3) by (auto simp: puts_char_def)
    qed
    have "window_ok (kbd t1)" "cursor_inside (kbd t1)" using t1(2) by (simp_all add: stays_in_def)
    moreover have "\<forall>b \<in> set bs. b \<noteq> 8 \<and> b \<noteq> 9" "0 \<in> set bs \<or> n \<le> length bs" using 3 False by auto
    ultimately obtain t2 where "puts_loop fg bg n bs t1 = Inr t2" "stays_in t1 t2" using "3.IH" [OF False] by blast
    then show ?thesis using t1 False stays_in_trans by auto
  qed (use 3 in \<open>simp add: stays_in_refl\<close>)
qed (simp_all add: stays_in_refl)

lemma stays_in_ports: "stays_in t (t'\<lparr> ports := p \<rparr>) = stays_in t t'"
  by (simp add: stays_in_def)

text \<open>
  C32: Printing text without tabs and backspaces never faults and keeps the cursor inside the window;
  no cell outside the window changes, and the window itself is kept.
\<close>

theorem puts_stays_in_window:
  assumes "window_ok (kbd t)" "cursor_inside (kbd t)"
    and "\<forall>b \<in> set (buf args). b \<noteq> 8 \<and> b \<noteq> 9" and "0 \<in> set (buf args) \<or> unat (count args) \<le> length (buf args)"
  shows "\<exists>t'. puts args t = Inr t' \<and> window_ok (kbd t') \<and> cursor_inside (kbd t') \<and> same_window (kbd t) (kbd t') \<and>
     (\<forall>i j. j < 80 \<and> \<not> in_window (kbd t) i j \<longrightarrow> glyph (screen t') i j = glyph (screen t) i j)"
proof -
  obtain t' where "puts_loop (ucast (fg_color args)) (ucast (bg_color args)) (unat (count args)) (buf args) t = Inr t'" "stays_in t t'"
    using puts_loop_stays_in [OF assms] by blast
  then show ?thesis
    unfolding puts_def stays_in_def [symmetric] by (simp add: stays_in_ports)
qed

text \<open>The part of a line that is printed by a loop over its characters.\<close>

definition line_printed :: "nat \<Rightarrow> nat \<Rightarrow> u8 list \<Rightarrow> u8 \<Rightarrow> screen \<Rightarrow> screen \<Rightarrow> bool" where
  "line_printed r c bs a s s' \<longleftrightarrow> (\<forall>i j. j < 80 \<longrightarrow>
     glyph s' i j = (if i = r \<and> c \<le> j \<and> j < c + length bs then (bs ! (j - c), a) else glyph s i j))"

lemma line_printed_Cons:
  assumes "\<And>i j. j < 80 \<Longrightarrow> glyph s1 i j = (if i = r \<and> j = c then (b, a) else glyph s i j)"
    and "line_printed r (Suc c) bs a s1 s'"
  shows "line_printed r c (b # bs) a s s'"
  using assms unfolding line_printed_def by (auto simp: nth_Cons')

lemma puts_loop_line:
  assumes "unat (row (kbd t)) < 25" "\<forall>b \<in> set bs. b \<noteq> 0 \<and> b \<noteq> 8 \<and> b \<noteq> 9 \<and> b \<noteq> 10"
    and "unat (col (kbd t)) + length bs \<le> unat (right_limit (kbd t))" "unat (right_limit (kbd t)) < 80"
  shows "\<exists>t'. puts_loop fg bg (length bs) bs t = Inr t' \<and> row (kbd t') = row (kbd t) \<and>
    unat (col (kbd t')) = unat (col (kbd t)) + length bs \<and>
    line_printed (unat (row (kbd t))) (unat (col (kbd t))) bs (attr fg bg) (screen t) (screen t')"
  using assms
proof (induction bs arbitrary: t)
  case Nil
  then show ?case by (auto simp: line_printed_def)
next
  case (Cons b bs)
  let ?k = "kbd t"
  let ?t = "t\<lparr> screen := framebuffer_write (row ?k) (col ?k) b fg bg (screen t),
     kbd := ?k\<lparr> last_non_space_col := (last_non_space_col ?k)[unat (row ?k) := col ?k], col := col ?k + 1 \<rparr> \<rparr>"
  have lt: "col ?k < right_limit ?k" using Cons.prems(3) by (simp add: word_less_nat_alt)
  then have c: "unat (col ?k + 1) = Suc (unat (col ?k))" using unat_suc_less by simp
  have "puts_char fg bg b t = Inr ?t"
    using Cons.prems lt by (auto simp: puts_char_def puts_ascii_def Let_def)
  moreover obtain t' where t': "puts_loop fg bg (length bs) bs ?t = Inr t'" "row (kbd t') = row ?k"
      "unat (col (kbd t')) = Suc (unat (col ?k)) + length bs"
      "line_printed (unat (row ?k)) (Suc (unat (col ?k))) bs (attr fg bg) (screen ?t) (screen t')"
    using Cons.IH [of ?t] Cons.prems by (auto simp: c)
  moreover have "line_printed (unat (row ?k)) (unat (col ?k)) (b # bs) (attr fg bg) (screen t) (screen t')"
    by (rule line_printed_Cons [OF _ t'(4)]) (use Cons.prems in \<open>auto simp: glyph_write\<close>)
  ultimately show ?case using Cons.prems by auto
qed

text \<open>
  A line of printable characters that fits into the rest of the row appears on the screen from
  the cursor on in the requested colours, the cursor moves right by the number of characters, and no
  other cell changes.
\<close>

theorem puts_prints_line:
  assumes "unat (row (kbd t)) < 25" "\<forall>b \<in> set (buf args). b \<noteq> 0 \<and> b \<noteq> 8 \<and> b \<noteq> 9 \<and> b \<noteq> 10"
    and "unat (count args) = length (buf args)"
    and "unat (col (kbd t)) + length (buf args) \<le> unat (right_limit (kbd t))" "unat (right_limit (kbd t)) < 80"
  shows "\<exists>t'. puts args t = Inr t' \<and> row (kbd t') = row (kbd t) \<and>
    unat (col (kbd t')) = unat (col (kbd t)) + length (buf args) \<and>
    (\<forall>i j. j < 80 \<longrightarrow> glyph (screen t') i j =
      (if i = unat (row (kbd t)) \<and> unat (col (kbd t)) \<le> j \<and> j < unat (col (kbd t)) + length (buf args)
       then (buf args ! (j - unat (col (kbd t))), attr (ucast (fg_color args)) (ucast (bg_color args)))
       else glyph (screen t) i j))"
  using puts_loop_line [OF assms(1,2,4,5), of "ucast (fg_color args)" "ucast (bg_color args)"] assms(3)
  unfolding puts_def line_printed_def by auto

section \<open>Newlines, tabs and backspaces\<close>

text \<open>
  A newline on the last row of the window moves every other row of the window up by one, leaves
  a blank last row, and changes nothing outside; the cursor goes to the left border of the same row.
\<close>

theorem newline_scrolls:
  assumes "window_ok (kbd t)" "row (kbd t) = down_limit (kbd t)"
  shows "\<exists>t'. puts_char fg bg 10 t = Inr t' \<and> row (kbd t') = row (kbd t) \<and> col (kbd t') = left_limit (kbd t) \<and>
    (\<forall>i j. j < 80 \<longrightarrow> glyph (screen t') i j =
      (if \<not> in_window (kbd t) i j then glyph (screen t) i j
       else if i = unat (down_limit (kbd t)) then (0x20, 0x07) else glyph (screen t) (Suc i) j))"
proof -
  have "attr 7 0 = 7" by (simp add: attr_def)
  then show ?thesis
    using assms by (simp add: puts_char_def puts_newline_def upd_kbd_def Let_def scroll_up_glyph)
qed

lemma two_steps: "puts_loop fg bg 2 [a, b] t =
    (if a = 0 then Inr t else and_then (puts_char fg bg a t) (\<lambda>t'. if b = 0 then Inr t' else puts_char fg bg b t'))"
  unfolding numeral_2_eq_2 puts_loop.simps by (cases "puts_char fg bg a t"; cases "b = 0") (auto split: sum.splits)

text \<open>
  A tab with the cursor in the last columns of the screen puts the cursor past the window's
  right border, so that a character printed next appears nowhere and the cursor moves on instead of
  wrapping to the next row.
\<close>

theorem tab_leaves_window:
  assumes "76 \<le> col (kbd t)" "col (kbd t) \<le> right_limit (kbd t)" "right_limit (kbd t) < 80" "row (kbd t) < 25"
    and "b \<notin> {0, 8, 9, 10}"
  shows "\<exists>t'. puts_loop fg bg 2 [9, b] t = Inr t' \<and> screen t' = screen t \<and>
    row (kbd t') = row (kbd t) \<and> right_limit (kbd t) < col (kbd t')"
proof -
  let ?c = "(col (kbd t) + 4) AND NOT 3"
  have "c = 76 \<or> c = 77 \<or> c = 78 \<or> c = 79" if "76 \<le> c" "c < 80" for c :: u8
    using that by unat_arith
  then have "col (kbd t) \<in> {76, 77, 78, 79}" using assms(1-3) by (auto dest: order.strict_trans1)
  then have c: "?c = 80" by auto
  let ?t1 = "t\<lparr> kbd := (kbd t)\<lparr> col := 80 \<rparr> \<rparr>"
  let ?t2 = "t\<lparr> kbd := (kbd t)\<lparr> col := 81, last_non_space_col := (last_non_space_col (kbd t))[unat (row (kbd t)) := 80] \<rparr> \<rparr>"
  have r: "unat (row (kbd t)) < 25" and n: "right_limit (kbd t) \<noteq> 80" and lt: "right_limit (kbd t) < 81"
    using assms(3,4) by (auto simp: word_less_nat_alt)
  have "puts_char fg bg 9 t = Inr ?t1" using c by (simp add: puts_char_def puts_tab_def upd_kbd_def)
  moreover have "puts_char fg bg b ?t1 = Inr ?t2"
    using assms(5) r n by (auto simp: puts_char_def puts_ascii_def Let_def framebuffer_write_def)
  ultimately show ?thesis using assms(5) lt by (simp add: two_steps)
qed

section \<open>Examples\<close>

definition shell_tty :: "u8 \<Rightarrow> u8 \<Rightarrow> tty" where
  "shell_tty r c = \<lparr> kbd = keyboard_state\<lparr> up_limit := 2, down_limit := 21, left_limit := 2, right_limit := 77, row := r, col := c \<rparr>,
     screen = (\<lambda>_. 0), ports = [] \<rparr>"

definition puts_args :: "string \<Rightarrow> SyscallPutsArgs" where
  "puts_args s = \<lparr> buf = map of_char s, count = of_nat (length s), fg_color = 7, bg_color = 0 \<rparr>"

lemma shell_tty_window: "window_ok (kbd (shell_tty r c))"
  by (simp add: window_ok_def shell_tty_def keyboard_state_def)

theorem puts_stays_in_window_witness:
  "\<exists>t'. puts (puts_args ''hello'') (shell_tty 21 75) = Inr t' \<and> cursor_inside (kbd t')"
  using puts_stays_in_window [of "shell_tty 21 75" "puts_args ''hello''"] shell_tty_window [of 21 75]
  by (auto simp: cursor_inside_def shell_tty_def keyboard_state_def puts_args_def)

theorem puts_prints_line_witness:
  "\<exists>t'. puts (puts_args ''hi'') (shell_tty 3 2) = Inr t' \<and> glyph (screen t') 3 3 = (of_char CHR ''i'', 7)"
proof -
  have "attr 7 0 = 7" by (simp add: attr_def)
  then show ?thesis
    using puts_prints_line [of "shell_tty 3 2" "puts_args ''hi''"]
    by (auto simp: shell_tty_def keyboard_state_def puts_args_def)
qed

theorem newline_scrolls_witness:
  "\<exists>t'. puts_char 7 0 10 (shell_tty 21 5) = Inr t' \<and> col (kbd t') = 2 \<and> glyph (screen t') 21 4 = (0x20, 0x07)"
  using newline_scrolls [of "shell_tty 21 5" 7 0] shell_tty_window [of 21 5]
  by (auto simp: shell_tty_def keyboard_state_def in_window_def)

theorem tab_leaves_window_witness:
  "\<exists>t'. puts_loop 7 0 2 [9, 65] (shell_tty 3 76) = Inr t' \<and> 77 < col (kbd t')"
  using tab_leaves_window [of "shell_tty 3 76" 65 7 0] by (auto simp: shell_tty_def keyboard_state_def)

end
