(* ===== verification/Keyboard.thy ===== *)
theory Keyboard
  imports Terminal_Props
begin

text \<open>
  The keyboard driver, \<open>src/src/keyboard.c\<close>: the scancode tables, the interrupt service routine and
  the reads of its one-character buffers.  The scancode that the routine reads from the data port is
  its argument; the acknowledgement it sends to the interrupt controller (\<open>pic_ack\<close> in
  \<open>src/src/interrupt.c\<close>) is recorded with the other port writes.
\<close>

section \<open>Tables\<close>

definition keyboard_scancode_1_to_ascii_map :: "u8 list" where
  "keyboard_scancode_1_to_ascii_map =
     [0, 0x1B] @ map of_char ''1234567890-='' @ [8, 9] @
     map of_char ''qwertyuiop[]'' @ [10, 0] @ map of_char ''as'' @
     map of_char ''dfghjkl;'' @ [39, 96, 0, 92] @ map of_char ''zxcv'' @
     map of_char ''bnm,./'' @ [0] @ map of_char ''*'' @ [0] @ map of_char '' '' @ replicate 6 0 @
     replicate 10 0 @ map of_char ''-'' @ replicate 3 0 @ map of_char ''+'' @ [0] @
     replicate 176 0"

definition keyboard_scancode_1_to_ascii_map_shift :: "u8 list" where
  "keyboard_scancode_1_to_ascii_map_shift =
     [0, 0x1B] @ map of_char ''!@#$%^&*()_+'' @ [8, 9] @
     map of_char ''QWERTYUIOP{}'' @ [10, 0] @ map of_char ''AS'' @
     map of_char ''DFGHJKL:'' @ [34, 126, 0, 124] @ map of_char ''ZXCV'' @
     map of_char ''BNM<>?'' @ [0] @ map of_char ''*'' @ [0] @ map of_char '' '' @ replicate 6 0 @
     replicate 192 0"

section \<open>Interrupts\<close>

abbreviation (input) PIC1_COMMAND :: u16 where "PIC1_COMMAND \<equiv> 0x20"
abbreviation (input) PIC2_COMMAND :: u16 where "PIC2_COMMAND \<equiv> 0xA0"
abbreviation (input) PIC_ACK :: u8 where "PIC_ACK \<equiv> 0x20"
abbreviation (input) EXTENDED_SCANCODE_BYTE :: u8 where "EXTENDED_SCANCODE_BYTE \<equiv> 0xE0"
abbreviation (input) EXT_SCANCODE_UP :: u8 where "EXT_SCANCODE_UP \<equiv> 0x48"
abbreviation (input) EXT_SCANCODE_DOWN :: u8 where "EXT_SCANCODE_DOWN \<equiv> 0x50"
abbreviation (input) EXT_SCANCODE_LEFT :: u8 where "EXT_SCANCODE_LEFT \<equiv> 0x4B"
abbreviation (input) EXT_SCANCODE_RIGHT :: u8 where "EXT_SCANCODE_RIGHT \<equiv> 0x4D"
abbreviation (input) EXT_BUFFER_UP :: u8 where "EXT_BUFFER_UP \<equiv> 1"
abbreviation (input) EXT_BUFFER_DOWN :: u8 where "EXT_BUFFER_DOWN \<equiv> 2"
abbreviation (input) EXT_BUFFER_LEFT :: u8 where "EXT_BUFFER_LEFT \<equiv> 3"
abbreviation (input) EXT_BUFFER_RIGHT :: u8 where "EXT_BUFFER_RIGHT \<equiv> 4"

definition pic_ack :: "u8 \<Rightarrow> (u16 \<times> u8) list" where
  "pic_ack irq = (if 8 \<le> irq then [(PIC2_COMMAND, PIC_ACK)] else []) @ [(PIC1_COMMAND, PIC_ACK)]"

text \<open>The two halves of the routine: the arrow keys, then the character.\<close>

definition isr_extended :: "u8 \<Rightarrow> KeyboardDriverState \<Rightarrow> KeyboardDriverState" where
  "isr_extended scancode k =
     (if scancode = EXTENDED_SCANCODE_BYTE then k\<lparr> read_extended_mode := True \<rparr>
      else if read_extended_mode k
      then k\<lparr> keyboard_buffer_ext :=
             (if scancode = EXT_SCANCODE_UP then EXT_BUFFER_UP
              else if scancode = EXT_SCANCODE_DOWN then EXT_BUFFER_DOWN
              else if scancode = EXT_SCANCODE_LEFT then EXT_BUFFER_LEFT
              else if scancode = EXT_SCANCODE_RIGHT then EXT_BUFFER_RIGHT
              else EXT_BUFFER_NONE) \<rparr>
      else k)"

definition isr_character :: "u8 \<Rightarrow> KeyboardDriverState \<Rightarrow> KeyboardDriverState" where
  "isr_character scancode k =
     (if scancode = 0x2A \<or> scancode = 0x36 then k\<lparr> press_shift := True \<rparr>
      else if scancode = 0xAA \<or> scancode = 0xB6 then k\<lparr> press_shift := False \<rparr>
      else if scancode = 0x1D then k\<lparr> press_ctrl := True \<rparr>
      else if scancode = 0x9D then k\<lparr> press_ctrl := False \<rparr>
      else if scancode = 0x1C then k\<lparr> keyboard_buffer := 10 \<rparr>
      else if scancode = 0x0E then k\<lparr> keyboard_buffer := 8 \<rparr>
      else if scancode = 0x0F then k\<lparr> keyboard_buffer := 9 \<rparr>
      else k\<lparr> keyboard_buffer :=
             (if press_shift k then keyboard_scancode_1_to_ascii_map_shift ! unat scancode
              else keyboard_scancode_1_to_ascii_map ! unat scancode) \<rparr>)"

definition keyboard_isr :: "u8 \<Rightarrow> tty \<Rightarrow> tty" where
  "keyboard_isr scancode t =
     (let t1 = (if keyboard_input_on (kbd t) then upd_kbd (isr_character scancode \<circ> isr_extended scancode) t else t)
      in t1\<lparr> ports := ports t1 @ pic_ack 1 \<rparr>)"

definition keyboard_state_activate :: "tty \<Rightarrow> tty" where
  "keyboard_state_activate = upd_kbd (keyboard_input_on_update (\<lambda>_. True))"

definition keyboard_state_deactivate :: "tty \<Rightarrow> tty" where
  "keyboard_state_deactivate = upd_kbd (keyboard_input_on_update (\<lambda>_. False))"

definition get_keyboard_buffer :: "tty \<Rightarrow> u8 \<times> tty" where
  "get_keyboard_buffer t = (keyboard_buffer (kbd t), upd_kbd (keyboard_buffer_update (\<lambda>_. 0)) t)"

definition get_keyboard_buffer_ext :: "tty \<Rightarrow> u8 \<times> tty" where
  "get_keyboard_buffer_ext t = (keyboard_buffer_ext (kbd t), upd_kbd (keyboard_buffer_ext_update (\<lambda>_. EXT_BUFFER_NONE)) t)"

section \<open>Properties\<close>

lemma map_lengths [simp]:
  "length keyboard_scancode_1_to_ascii_map = 256" "length keyboard_scancode_1_to_ascii_map_shift = 256"
  by (simp_all add: keyboard_scancode_1_to_ascii_map_def keyboard_scancode_1_to_ascii_map_shift_def)

text \<open>Release codes and every other code from 0x80 on have no character.\<close>

lemma high_codes:
  assumes "80 \<le> i" "i < 256"
  shows "keyboard_scancode_1_to_ascii_map ! i = 0" "keyboard_scancode_1_to_ascii_map_shift ! i = 0"
proof -
  have "drop 80 keyboard_scancode_1_to_ascii_map = replicate 176 0"
    "drop 80 keyboard_scancode_1_to_ascii_map_shift = replicate 176 0"
    by (simp_all add: keyboard_scancode_1_to_ascii_map_def keyboard_scancode_1_to_ascii_map_shift_def)
  then have "drop 80 keyboard_scancode_1_to_ascii_map ! (i - 80) = 0" "drop 80 keyboard_scancode_1_to_ascii_map_shift ! (i - 80) = 0"
    using assms by simp_all
  then show "keyboard_scancode_1_to_ascii_map ! i = 0" "keyboard_scancode_1_to_ascii_map_shift ! i = 0"
    using assms by simp_all
qed

text \<open>What a sequence of interrupts leaves.\<close>

definition keyboard_run :: "u8 list \<Rightarrow> tty \<Rightarrow> tty" where
  "keyboard_run = fold keyboard_isr"

lemma isr_on:
  "keyboard_input_on (kbd t) \<Longrightarrow> kbd (keyboard_isr c t) = isr_character c (isr_extended c (kbd t))"
  by (simp add: keyboard_isr_def upd_kbd_def Let_def)

lemma isr_keeps_on [simp]: "keyboard_input_on (kbd (keyboard_isr c t)) = keyboard_input_on (kbd t)"
  by (simp add: keyboard_isr_def upd_kbd_def Let_def isr_character_def isr_extended_def)

lemma isr_keeps_extended: "read_extended_mode (kbd t) \<Longrightarrow> read_extended_mode (kbd (keyboard_isr c t))"
  by (simp add: keyboard_isr_def upd_kbd_def Let_def isr_character_def isr_extended_def)

lemma run_keeps: 
  "keyboard_input_on (kbd (keyboard_run cs t)) = keyboard_input_on (kbd t)"
  "read_extended_mode (kbd t) \<Longrightarrow> read_extended_mode (kbd (keyboard_run cs t))"
  unfolding keyboard_run_def by (induction cs arbitrary: t) (auto intro: isr_keeps_extended)

text \<open>
  The specification of the shift key: the last shift code of the sequence decides, and the state
  before the sequence when it has none.
\<close>

definition shift_code :: "u8 \<Rightarrow> bool" where
  "shift_code c \<longleftrightarrow> c \<in> {0x2A, 0x36, 0xAA, 0xB6}"

definition shift_after :: "u8 list \<Rightarrow> bool \<Rightarrow> bool" where
  "shift_after cs b = (if filter shift_code cs = [] then b else last (filter shift_code cs) \<in> {0x2A, 0x36})"

definition character_key :: "u8 \<Rightarrow> bool" where
  "character_key c \<longleftrightarrow> \<not> shift_code c \<and> c \<notin> {0x1D, 0x9D, 0x1C, 0x0E, 0x0F}"

lemma run_shift:
  "keyboard_input_on (kbd t) \<Longrightarrow> press_shift (kbd (keyboard_run cs t)) = shift_after cs (press_shift (kbd t))"
proof (induction cs arbitrary: t rule: rev_induct)
  case Nil
  then show ?case by (simp add: keyboard_run_def shift_after_def)
next
  case (snoc c cs)
  let ?t = "keyboard_run cs t"
  have on: "keyboard_input_on (kbd ?t)" using snoc.prems by (simp add: run_keeps)
  have "press_shift (kbd (keyboard_isr c ?t)) = (if shift_code c then c \<in> {0x2A, 0x36} else press_shift (kbd ?t))"
    unfolding isr_on [OF on] by (simp add: isr_character_def isr_extended_def shift_code_def)
  then show ?case using snoc by (simp add: keyboard_run_def shift_after_def)
qed

text \<open>
  C33: After any sequence of scancodes, the press of a character key puts that key's character into
  the buffer, from the shifted table exactly when the last shift code of the sequence was a press;
  reading the buffer returns the character once, and a second read returns 0.
\<close>

theorem typed_key_read:
  assumes "keyboard_input_on (kbd t)" and "character_key c"
  shows "\<exists>t'. get_keyboard_buffer (keyboard_isr c (keyboard_run cs t)) =
      ((if shift_after cs (press_shift (kbd t)) then keyboard_scancode_1_to_ascii_map_shift
        else keyboard_scancode_1_to_ascii_map) ! unat c, t') \<and> fst (get_keyboard_buffer t') = 0"
proof -
  let ?t = "keyboard_run cs t"
  have on: "keyboard_input_on (kbd ?t)" using assms by (simp add: run_keeps)
  have "press_shift (isr_extended c (kbd ?t)) = shift_after cs (press_shift (kbd t))"
    using run_shift [OF assms(1), of cs] by (simp add: isr_extended_def)
  then show ?thesis
    using assms(2) by (simp add: get_keyboard_buffer_def isr_on [OF on] isr_character_def character_key_def shift_code_def upd_kbd_def)
qed

text \<open>
  The release of any key except shift and control empties the buffer, so a character that was
  not read before its key is released is lost.
\<close>

theorem release_discards_key:
  assumes "keyboard_input_on (kbd t)" and "character_key c" and "0x80 \<le> c"
  shows "fst (get_keyboard_buffer (keyboard_isr c t)) = 0"
proof -
  have "80 \<le> unat c" using assms(3) by (simp add: word_le_nat_alt)
  moreover have "unat c < 256" using unsigned_less [of c] by simp
  ultimately show ?thesis
    using assms(2) high_codes
    by (simp add: get_keyboard_buffer_def isr_on [OF assms(1)] isr_character_def character_key_def shift_code_def isr_extended_def)
qed

text \<open>
  Nothing ends the extended mode: once the prefix byte was received, every later 0x48 counts as
  the up arrow, also the one of the plain keypad key, which has no prefix.
\<close>

theorem extended_mode_never_ends:
  assumes "keyboard_input_on (kbd t)"
  shows "fst (get_keyboard_buffer_ext (keyboard_isr 0x48 (keyboard_run cs (keyboard_isr 0xE0 t)))) = 1"
proof -
  let ?t = "keyboard_run cs (keyboard_isr 0xE0 t)"
  have "read_extended_mode (kbd (keyboard_isr 0xE0 t))"
    by (simp add: isr_on [OF assms] isr_character_def isr_extended_def)
  then have "read_extended_mode (kbd ?t)" "keyboard_input_on (kbd ?t)" using assms by (simp_all add: run_keeps)
  then show ?thesis
    by (simp add: get_keyboard_buffer_ext_def isr_on isr_character_def isr_extended_def)
qed

section \<open>Examples\<close>

definition listening :: tty where
  "listening = keyboard_state_activate (shell_tty 2 2)"

lemma listening_on: "keyboard_input_on (kbd listening)"
  by (simp add: listening_def keyboard_state_activate_def upd_kbd_def)

theorem typed_key_read_witness:
  "\<exists>t'. get_keyboard_buffer (keyboard_isr 0x1E (keyboard_run [0x2A, 0x1F, 0x9F] listening)) = (65, t')"
proof -
  have "keyboard_scancode_1_to_ascii_map_shift ! unat (0x1E :: u8) = 65"
    by (simp add: keyboard_scancode_1_to_ascii_map_shift_def)
  moreover have "shift_after [0x2A, 0x1F, 0x9F] b" "character_key 0x1E" for b
    by (simp_all add: shift_after_def shift_code_def character_key_def)
  ultimately show ?thesis using typed_key_read [OF listening_on, of "0x1E" "[0x2A, 0x1F, 0x9F]"] by auto
qed

theorem release_discards_key_witness:
  "fst (get_keyboard_buffer (keyboard_isr 0x9E (keyboard_isr 0x1E listening))) = 0"
  by (rule release_discards_key) (simp_all add: listening_on character_key_def shift_code_def)

theorem extended_mode_never_ends_witness:
  "fst (get_keyboard_buffer_ext (keyboard_isr 0x48 (keyboard_run [0x48, 0xC8, 0x1E] (keyboard_isr 0xE0 listening)))) = 1"
  by (rule extended_mode_never_ends [OF listening_on])

end
