(* ===== verification/Cmath.thy ===== *)
theory Cmath
  imports Complex_Main Prelude
begin

text \<open>
  Rounding helpers: \<open>ceil32\<close> and \<open>ceil_div\<close> of \<open>src/src/math.c\<close>, \<open>ceil\<close> and \<open>floor\<close> of
  \<open>src/src/fat32.c\<close>.  They compute in single-precision floats.  A non-negative float is its
  rational value; the conversion of a 32-bit integer and the division round to 24 significant bits,
  to nearest with ties to even.  The values that occur lie between \<open>2 ^ -32\<close> and \<open>2 ^ 32\<close>, so the
  exponent is found in a bounded search.
\<close>

section \<open>Single-precision values\<close>

text \<open>The largest \<open>k\<close> with \<open>2 ^ (k - 32) \<le> q\<close>: the exponent of \<open>q\<close>, biased by 32.\<close>

definition f32_exp :: "rat \<Rightarrow> nat" where
  "f32_exp q = (case find (\<lambda>k. 2 ^ k \<le> q * 2 ^ 32) (rev [0..<65]) of Some k \<Rightarrow> k | None \<Rightarrow> 0)"

definition round_even :: "rat \<Rightarrow> int" where
  "round_even x =
     (let f = \<lfloor>x\<rfloor>; r = x - of_int f
      in if r < 1/2 \<or> (r = 1/2 \<and> even f) then f else f + 1)"

definition f32_round :: "rat \<Rightarrow> rat" where
  "f32_round q =
     (if q = 0 then 0
      else (let ulp = 2 ^ f32_exp q / 2 ^ 55 in of_int (round_even (q / ulp)) * ulp))"

definition f32_of_u32 :: "u32 \<Rightarrow> rat" where
  "f32_of_u32 n = f32_round (of_nat (unat n))"

definition f32_div :: "rat \<Rightarrow> rat \<Rightarrow> rat" where
  "f32_div a b = f32_round (a / b)"

section \<open>The C functions\<close>

text \<open>\<open>(int) n\<close> truncates; \<open>(int) n == n\<close> holds exactly when the value is whole.\<close>

definition int_ceil :: "rat \<Rightarrow> int" where
  "int_ceil n = (if of_int \<lfloor>n\<rfloor> = n then \<lfloor>n\<rfloor> else \<lfloor>n\<rfloor> + 1)"

definition ceil32 :: "rat \<Rightarrow> u32" where
  "ceil32 n = word_of_int (int_ceil n)"

definition ceil_div :: "u32 \<Rightarrow> u32 \<Rightarrow> u32" where
  "ceil_div a b = ceil32 (f32_div (f32_of_u32 a) (f32_of_u32 b))"

definition ceil :: "rat \<Rightarrow> u8" where
  "ceil n = word_of_int (int_ceil n)"

definition floor8 :: "rat \<Rightarrow> u8" where
  "floor8 n = (if of_int \<lfloor>n\<rfloor> = n then word_of_int \<lfloor>n\<rfloor> else word_of_int (\<lfloor>n\<rfloor> - 1))"

section \<open>Exactness below 24 bits\<close>

lemma find_rev_upt_upper:
  assumes "find P (rev [0..<n]) = Some k" shows "P k" and "k < n"
  using assms by (auto simp: find_Some_iff rev_nth)

lemma f32_exp_le:
  assumes "1 \<le> q * 2 ^ 32"
  shows "2 ^ f32_exp q \<le> q * 2 ^ 32"
proof (cases "find (\<lambda>k. 2 ^ k \<le> q * 2 ^ 32) (rev [0..<65])")
  case None
  with assms show ?thesis by (simp add: f32_exp_def)
next
  case (Some k)
  from find_rev_upt_upper(1) [OF Some] Some show ?thesis by (simp add: f32_exp_def)
qed

lemma round_even_int [simp]: "round_even (of_int z) = z"
  by (simp add: round_even_def Let_def)

lemma f32_exact:
  assumes "n < 2 ^ 24" and "s \<le> 32"
  shows "f32_round (of_nat n / 2 ^ s) = of_nat n / 2 ^ s"
proof (cases "n = 0")
  case True
  then show ?thesis by (simp add: f32_round_def)
next
  case False
  define q :: rat where "q = of_nat n / 2 ^ s"
  have p32: "(2 :: rat) ^ (32 - s) * 2 ^ s = 2 ^ 32"
    using assms(2) by (metis le_add_diff_inverse2 power_add)
  have scaled: "q * 2 ^ 32 = of_nat (n * 2 ^ (32 - s))"
    unfolding q_def p32 [symmetric] by simp
  have "(1 :: nat) \<le> n * 2 ^ (32 - s)"
    using False by simp
  then have "1 \<le> q * 2 ^ 32"
    unfolding scaled by (metis of_nat_1 of_nat_le_iff)
  then have "2 ^ f32_exp q \<le> q * 2 ^ 32"
    by (rule f32_exp_le)
  then have "2 ^ f32_exp q \<le> n * 2 ^ (32 - s)"
    unfolding scaled by (metis of_nat_le_iff of_nat_numeral of_nat_power)
  also have "\<dots> < 2 ^ 24 * 2 ^ (32 - s)"
    using assms(1) by simp
  also have "\<dots> = 2 ^ (56 - s)"
    using assms(2) by (simp only: power_add [symmetric]) (rule arg_cong [where f = "power 2"], simp)
  finally have "f32_exp q < 56 - s"
    by (simp add: power_less_imp_less_exp)
  then have le: "f32_exp q \<le> 55 - s" by simp
  have p55: "(2 :: rat) ^ (55 - s - f32_exp q) * 2 ^ f32_exp q * 2 ^ s = 2 ^ 55"
    using assms(2) le by (simp only: power_add [symmetric]) (rule arg_cong [where f = "power 2"], simp)
  define u :: rat where "u = 2 ^ f32_exp q / 2 ^ 55"
  have whole: "q / u = of_int (int (n * 2 ^ (55 - s - f32_exp q)))"
    unfolding u_def p55 [symmetric] by (simp add: q_def)
  have "q \<noteq> 0" using False by (simp add: q_def)
  then have "f32_round q = of_int (round_even (q / u)) * u"
    by (simp add: f32_round_def Let_def u_def)
  also have "\<dots> = q / u * u"
    unfolding whole round_even_int ..
  also have "\<dots> = q"
    by (simp add: u_def)
  finally have "f32_round q = q" .
  then show ?thesis by (simp add: q_def)
qed

lemma f32_of_u32_exact: "unat n < 2 ^ 24 \<Longrightarrow> f32_of_u32 n = of_nat (unat n)"
  using f32_exact [of "unat n" 0] by (simp add: f32_of_u32_def)

lemma int_ceil_div:
  assumes "0 < d"
  shows "int_ceil (of_nat n / of_nat d) = int ((n + (d - 1)) div d)"
proof -
  have fl: "\<lfloor>of_nat n / of_nat d :: rat\<rfloor> = int (n div d)"
    by (simp add: floor_divide_of_nat_eq)
  show ?thesis
  proof (cases "n mod d = 0")
    case True
    then obtain k where k: "n = d * k" by blast
    have "(d * k + (d - 1)) div d = k"
      using assms by (intro div_nat_eqI) (auto simp: algebra_simps)
    with k assms show ?thesis
      by (simp add: int_ceil_def)
  next
    case False
    have ne: "of_int (int (n div d)) \<noteq> (of_nat n / of_nat d :: rat)"
    proof
      assume "of_int (int (n div d)) = (of_nat n / of_nat d :: rat)"
      then have "(of_nat (n div d * d) :: rat) = of_nat n"
        using assms by (simp add: field_simps)
      then have "n div d * d = n" by (metis of_nat_eq_iff)
      with False show False by (metis mod_mult_self2_is_0)
    qed
    have "(n + (d - 1)) div d = n div d + 1"
    proof (rule div_nat_eqI)
      show "d * (n div d + 1) \<le> n + (d - 1)"
        using False assms mult_div_mod_eq [of d n] unfolding distrib_left by linarith
      show "n + (d - 1) < d * Suc (n div d + 1)"
        using assms mult_div_mod_eq [of d n] mod_less_divisor [of d n]
        unfolding mult_Suc_right distrib_left by linarith
    qed
    then show ?thesis using ne fl by (simp add: int_ceil_def)
  qed
qed

text \<open>
  Below 16 MiB the float computations are exact: \<open>ceil_div\<close> by a power of two rounds up, and so
  does \<open>ceil\<close> of the quotient by the cluster size, up to the final narrowing to a byte.
\<close>

lemma quotient_exact:
  assumes "unat a < 2 ^ 24" and "s < 24" and "b = 2 ^ s"
  shows "f32_div (f32_of_u32 a) (f32_of_u32 b) = of_nat (unat a) / of_nat (2 ^ s)"
proof -
  have "(2 ^ s :: nat) < 2 ^ 24" using assms(2) by (rule power_strict_increasing) simp
  moreover have "unat b = 2 ^ s"
  proof -
    have "(2 ^ s :: nat) < 2 ^ LENGTH(32)" using assms(2) by (intro power_strict_increasing) simp_all
    then have "unat (of_nat (2 ^ s) :: u32) = 2 ^ s" by (rule unat_of_nat_less)
    then show ?thesis using assms(3) by simp
  qed
  ultimately show ?thesis
    using assms f32_exact [of "unat a" s] by (simp add: f32_div_def f32_of_u32_exact)
qed

lemma ceil_div_exact:
  assumes "unat a < 2 ^ 24" and "s < 24" and "b = 2 ^ s"
  shows "ceil_div a b = of_nat ((unat a + (2 ^ s - 1)) div 2 ^ s)"
  unfolding ceil_div_def ceil32_def quotient_exact [OF assms] by (subst int_ceil_div) simp_all

lemma ceil_exact:
  assumes "unat a < 2 ^ 24" and "s < 24" and "b = 2 ^ s"
  shows "ceil (f32_div (f32_of_u32 a) (f32_of_u32 b)) = of_nat ((unat a + (2 ^ s - 1)) div 2 ^ s)"
  unfolding ceil_def quotient_exact [OF assms] by (subst int_ceil_div) simp_all

end
