(* ===== verification/Cstring.thy ===== *)
theory Cstring
  imports Prelude
begin

text \<open>
  The byte memory and the routines of \<open>src/src/string.c\<close>.  A memory is a function from 32-bit
  addresses to bytes; addresses wrap, as the hardware's do.  \<open>load_bytes\<close> and \<open>store_bytes\<close>
  are the reference operations on a run of bytes, and the C loops are shown equal to them.
\<close>

type_synonym mem = "u32 \<Rightarrow> u8"

section \<open>Runs of bytes\<close>

definition load_bytes :: "u32 \<Rightarrow> nat \<Rightarrow> mem \<Rightarrow> u8 list" where
  "load_bytes p n m = map (\<lambda>i. m (p + of_nat i)) [0..<n]"

definition store_bytes :: "u32 \<Rightarrow> u8 list \<Rightarrow> mem \<Rightarrow> mem" where
  "store_bytes p bs m = (\<lambda>a. if unat (a - p) < length bs then bs ! unat (a - p) else m a)"

text \<open>Two runs do not meet: no address of one is an address of the other.\<close>

definition apart :: "u32 \<Rightarrow> nat \<Rightarrow> u32 \<Rightarrow> nat \<Rightarrow> bool" where
  "apart p n q k \<longleftrightarrow> (\<forall>i < n. \<forall>j < k. p + of_nat i \<noteq> q + of_nat j)"

lemma length_load_bytes [simp]: "length (load_bytes p n m) = n"
  by (simp add: load_bytes_def)

lemma nth_load_bytes [simp]: "i < n \<Longrightarrow> load_bytes p n m ! i = m (p + of_nat i)"
  by (simp add: load_bytes_def)

lemma load_store_same:
  "length bs \<le> 2 ^ 32 \<Longrightarrow> load_bytes p (length bs) (store_bytes p bs m) = bs"
  by (rule nth_equalityI) (auto simp: store_bytes_def)

lemma unat_diff_run:
  assumes "unat (a - p) < n"
  shows "\<exists>i < n. a = p + of_nat i"
proof -
  have "a = p + of_nat (unat (a - p))" by simp
  with assms show ?thesis by blast
qed

lemma store_outside: "\<forall>i < length bs. a \<noteq> p + of_nat i \<Longrightarrow> store_bytes p bs m a = m a"
  using unat_diff_run [of a p "length bs"] by (auto simp: store_bytes_def)

lemma load_store_apart:
  assumes "apart p n q (length bs)"
  shows "load_bytes p n (store_bytes q bs m) = load_bytes p n m"
  using assms by (intro nth_equalityI) (auto simp: apart_def intro!: store_outside)

lemma apart_sym: "apart p n q k \<Longrightarrow> apart q k p n"
  by (auto simp: apart_def) (metis)

lemma store_Nil [simp]: "store_bytes p [] m = m"
  by (simp add: store_bytes_def)

lemma store_snoc:
  assumes "length bs < 2 ^ 32"
  shows "store_bytes p (bs @ [b]) m = (store_bytes p bs m)(p + of_nat (length bs) := b)"
proof
  fix a
  have "unat (a - p) = length bs \<longleftrightarrow> a = p + of_nat (length bs)"
  proof
    assume "unat (a - p) = length bs"
    then have "a - p = of_nat (length bs)" by (metis word_of_unat)
    then show "a = p + of_nat (length bs)" by (simp add: diff_eq_eq add.commute)
  qed (use assms in simp)
  then show "store_bytes p (bs @ [b]) m a = ((store_bytes p bs m)(p + of_nat (length bs) := b)) a"
    by (auto simp: store_bytes_def nth_append less_Suc_eq)
qed

lemma load_Suc: "load_bytes p (Suc n) m = load_bytes p n m @ [m (p + of_nat n)]"
  by (simp add: load_bytes_def)

lemma load_append:
  "load_bytes p (j + k) m = load_bytes p j m @ load_bytes (p + of_nat j) k m"
  by (induction k) (simp_all add: load_Suc add.assoc, simp add: load_bytes_def)

section \<open>string.c\<close>

text \<open>Each counting loop without an early exit is a fold over its index range.\<close>

definition set_byte :: "u32 \<Rightarrow> u8 \<Rightarrow> nat \<Rightarrow> mem \<Rightarrow> mem" where
  "set_byte d c i m = m(d + of_nat i := c)"

definition copy_byte :: "u32 \<Rightarrow> u32 \<Rightarrow> nat \<Rightarrow> mem \<Rightarrow> mem" where
  "copy_byte d s i m = m(d + of_nat i := m (s + of_nat i))"

definition memset :: "u32 \<Rightarrow> u8 \<Rightarrow> u32 \<Rightarrow> mem \<Rightarrow> mem" where
  "memset s c n m = fold (set_byte s c) [0..<unat n] m"

definition memcpy :: "u32 \<Rightarrow> u32 \<Rightarrow> u32 \<Rightarrow> mem \<Rightarrow> mem" where
  "memcpy dest src n m =
     fold (copy_byte dest src) [0..<unat n] m"

definition memmove :: "u32 \<Rightarrow> u32 \<Rightarrow> u32 \<Rightarrow> mem \<Rightarrow> mem" where
  "memmove dest src n m =
     (if dest < src
      then fold (copy_byte dest src) [0..<unat n] m
      else fold (\<lambda>i. copy_byte dest src (i - 1)) (rev [1..<Suc (unat n)]) m)"

text \<open>
  The comparison loop leaves at the first difference.  It is stated on the bytes the two pointers
  refer to, because the filesystem compares fields of structures; \<open>memcmp\<close> is its use on memory.
\<close>

fun memcmp_bytes :: "u8 list \<Rightarrow> u8 list \<Rightarrow> int" where
  "memcmp_bytes (x # xs) (y # ys) =
     (if x < y then - 1 else if x > y then 1 else memcmp_bytes xs ys)"
| "memcmp_bytes _ _ = 0"

definition memcmp :: "u32 \<Rightarrow> u32 \<Rightarrow> u32 \<Rightarrow> mem \<Rightarrow> int" where
  "memcmp s1 s2 n m = memcmp_bytes (load_bytes s1 (unat n) m) (load_bytes s2 (unat n) m)"

section \<open>The loops meet their reference\<close>

lemma memset_loop:
  "k \<le> 2 ^ 32 \<Longrightarrow> fold (set_byte s c) [0..<k] m = store_bytes s (replicate k c) m"
proof (induction k)
  case (Suc k)
  have "fold (set_byte s c) [0..<Suc k] m = set_byte s c k (fold (set_byte s c) [0..<k] m)"
    by simp
  also have "fold (set_byte s c) [0..<k] m = store_bytes s (replicate k c) m"
    using Suc.prems by (intro Suc.IH) simp
  also have "set_byte s c k \<dots> = (store_bytes s (replicate k c) m)(s + of_nat k := c)"
    by (simp add: set_byte_def)
  also have "\<dots> = store_bytes s (replicate k c @ [c]) m"
    using Suc.prems by (subst store_snoc) auto
  finally show ?case by (simp add: replicate_append_same)
qed simp

text \<open>
  A forward copy is right when no byte is overwritten before it is read: the address written at
  step \<open>i\<close> is not read at a later step.
\<close>

lemma forward_copy:
  assumes "k \<le> 2 ^ 32"
    and "\<And>i j. i < j \<Longrightarrow> j < k \<Longrightarrow> d + of_nat i \<noteq> s + of_nat j"
  shows "fold (copy_byte d s) [0..<k] m =
         store_bytes d (load_bytes s k m) m"
  using assms
proof (induction k)
  case (Suc k)
  let ?m = "store_bytes d (load_bytes s k m) m"
  have "fold (copy_byte d s) [0..<Suc k] m = copy_byte d s k (fold (copy_byte d s) [0..<k] m)"
    by simp
  also have "fold (copy_byte d s) [0..<k] m = ?m"
    using Suc.prems by (intro Suc.IH) simp_all
  also have "copy_byte d s k ?m = ?m(d + of_nat k := ?m (s + of_nat k))"
    by (simp add: copy_byte_def)
  also have "?m (s + of_nat k) = m (s + of_nat k)"
    using Suc.prems(2) by (intro store_outside) (auto dest: not_sym)
  also have "?m(d + of_nat k := m (s + of_nat k)) =
             store_bytes d (load_bytes s k m @ [m (s + of_nat k)]) m"
    using Suc.prems(1) store_snoc [of "load_bytes s k m" d "m (s + of_nat k)" m] by simp
  finally show ?case by (simp add: load_Suc)
qed (simp add: load_bytes_def)

text \<open>A backward copy, by the mirrored argument on single bytes.\<close>

lemma backward_copy_point:
  assumes "k \<le> 2 ^ 32"
    and "\<And>i j. i < j \<Longrightarrow> j < k \<Longrightarrow> d + of_nat j \<noteq> s + of_nat i"
  shows "fold (copy_byte d s) (rev [0..<k]) m =
         store_bytes d (load_bytes s k m) m"
  using assms
proof (induction k arbitrary: m)
  case (Suc k)
  let ?m = "m(d + of_nat k := m (s + of_nat k))"
  have "fold (copy_byte d s) (rev [0..<Suc k]) m = fold (copy_byte d s) (rev [0..<k]) ?m"
    by (simp add: copy_byte_def)
  also have "\<dots> = store_bytes d (load_bytes s k ?m) ?m"
    using Suc.prems by (intro Suc.IH) simp_all
  also have "load_bytes s k ?m = load_bytes s k m"
    using Suc.prems(2) [of _ k] by (intro nth_equalityI) (auto dest: not_sym)
  also have "store_bytes d (load_bytes s k m) ?m =
             (store_bytes d (load_bytes s k m) m)(d + of_nat k := m (s + of_nat k))"
    using Suc.prems(1) by (auto simp: store_bytes_def fun_eq_iff)
  also have "\<dots> = store_bytes d (load_bytes s (Suc k) m) m"
    using Suc.prems(1) store_snoc [of "load_bytes s k m" d "m (s + of_nat k)" m]
    by (simp add: load_Suc)
  finally show ?case .
qed (simp add: load_bytes_def)

lemma rev_upt_shift:
  "fold (\<lambda>i. f (i - 1)) (rev [1..<Suc k]) m = fold f (rev [0..<k]) m"
  by (induction k arbitrary: m) auto

lemma unat_le_u32: "unat (n :: u32) \<le> 2 ^ 32"
  using unsigned_less [of n, where ?'a = nat] by simp

lemma memset_store: "memset s c n m = store_bytes s (replicate (unat n) c) m"
  unfolding memset_def by (rule memset_loop) (rule unat_le_u32)

lemma memcpy_store:
  assumes "apart dest (unat n) src (unat n)"
  shows "memcpy dest src n m = store_bytes dest (load_bytes src (unat n) m) m"
  unfolding memcpy_def
  by (rule forward_copy) (use assms unat_le_u32 in \<open>auto simp: apart_def\<close>)

lemma add_of_nat_unat:
  assumes "unat (p :: u32) + unat n \<le> 2 ^ 32" and "i < unat (n :: u32)"
  shows "unat (p + of_nat i) = unat p + i"
proof -
  have "i < 2 ^ 32" using assms unat_le_u32 [of n] by simp
  moreover have "unat p + i < 2 ^ 32" using assms by simp
  ultimately show ?thesis by (simp add: unat_word_ariths)
qed

text \<open>
  \<open>memmove\<close> is right for every overlap, as long as neither region runs past the top of the
  address space.
\<close>

lemma memmove_store:
  assumes "unat dest + unat n \<le> 2 ^ 32" and "unat src + unat n \<le> 2 ^ 32"
  shows "memmove dest src n m = store_bytes dest (load_bytes src (unat n) m) m"
proof (cases "dest < src")
  case True
  then have lt: "unat dest < unat src" by (simp add: word_less_nat_alt)
  have "dest + of_nat i \<noteq> src + of_nat j" if "i < j" "j < unat n" for i j
    using add_of_nat_unat [OF assms(1), of i] add_of_nat_unat [OF assms(2), of j] that lt
    by force
  then show ?thesis
    using True unfolding memmove_def by (simp add: forward_copy [OF unat_le_u32])
next
  case False
  then have ge: "unat src \<le> unat dest" by (simp add: word_less_nat_alt)
  have "dest + of_nat j \<noteq> src + of_nat i" if "i < j" "j < unat n" for i j
    using add_of_nat_unat [OF assms(1), of j] add_of_nat_unat [OF assms(2), of i] that ge
    by force
  then show ?thesis
    using False unfolding memmove_def rev_upt_shift
    by (simp add: backward_copy_point [OF unat_le_u32])
qed

lemma memcmp_bytes_range: "memcmp_bytes xs ys \<in> {-1, 0, 1}"
  by (induction xs ys rule: memcmp_bytes.induct) auto

lemma memcmp_bytes_eq [simp]:
  "length xs = length ys \<Longrightarrow> memcmp_bytes xs ys = 0 \<longleftrightarrow> xs = ys"
  by (induction xs ys rule: memcmp_bytes.induct) auto

lemma memcmp_bytes_lexord:
  "length xs = length ys \<Longrightarrow>
     memcmp_bytes xs ys = -1 \<longleftrightarrow> (xs, ys) \<in> lexord {(x, y). x < y}"
  by (induction xs ys rule: memcmp_bytes.induct) auto

lemma memcmp_bytes_swap: "memcmp_bytes ys xs = - memcmp_bytes xs ys"
  by (induction xs ys rule: memcmp_bytes.induct) auto

end
