(* ===== verification/Paging.thy ===== *)
theory Paging
  imports Cmath Cstring
begin

text \<open>
  The page manager \<open>src/src/paging.c\<close>: the bitmap of 4 MiB page frames, the page directories, and
  the register \<open>cr3\<close>.  A \<open>struct PageDirectory *\<close> is its address; it refers to the kernel's
  directory or to an element of \<open>page_directory_list\<close>, whose places in memory the linker chooses and
  which are therefore fields of the state that no operation writes.  Following any other pointer is
  the fault \<open>BadPointer\<close>.  The TLB is not modelled: a flush has no effect on the state.
\<close>

section \<open>Structures\<close>

record PageDirectoryEntryFlag =
  present_bit :: bool
  write_bit :: bool
  user_sv :: bool
  write_through :: bool
  disable_cache :: bool
  accessed :: bool
  dirty :: bool
  use_pagesize_4_mb :: bool

record PageDirectoryEntry =
  flag :: PageDirectoryEntryFlag
  global_page :: bool
  reserved_1 :: "3 word"
  pat_bit :: bool
  higher_address :: u8
  reserved_2 :: bool
  lower_address :: "10 word"

type_synonym page_directory = "PageDirectoryEntry list"

datatype pd_id = KernelPD | UserPD nat

record paging =
  page_frame_map :: "bool list"
  free_page_frame_count :: u32
  kernel_page_directory :: page_directory
  page_directory_list :: "page_directory list"
  page_directory_used :: "bool list"
  cr3 :: u32
  kernel_pd_addr :: u32
  pd_list_addr :: u32

abbreviation (input) PAGE_ENTRY_COUNT :: nat where "PAGE_ENTRY_COUNT \<equiv> 1024"
abbreviation (input) PAGE_FRAME_MAX_COUNT :: nat where "PAGE_FRAME_MAX_COUNT \<equiv> 32"
abbreviation (input) PAGE_FRAME_SIZE :: u32 where "PAGE_FRAME_SIZE \<equiv> 0x400000"
abbreviation (input) PAGING_DIRECTORY_TABLE_MAX_COUNT :: nat where "PAGING_DIRECTORY_TABLE_MAX_COUNT \<equiv> 32"
abbreviation (input) KERNEL_VIRTUAL_ADDRESS_BASE :: u32 where "KERNEL_VIRTUAL_ADDRESS_BASE \<equiv> 0xC0000000"

definition zero_flag :: PageDirectoryEntryFlag where
  "zero_flag = \<lparr> present_bit = False, write_bit = False, user_sv = False, write_through = False,
     disable_cache = False, accessed = False, dirty = False, use_pagesize_4_mb = False \<rparr>"

definition zero_pde :: PageDirectoryEntry where
  "zero_pde = \<lparr> flag = zero_flag, global_page = False, reserved_1 = 0, pat_bit = False,
     higher_address = 0, reserved_2 = False, lower_address = 0 \<rparr>"

definition kernel_pde :: PageDirectoryEntry where
  "kernel_pde = zero_pde\<lparr> flag := zero_flag\<lparr> present_bit := True, write_bit := True,
     use_pagesize_4_mb := True \<rparr>, lower_address := 0 \<rparr>"

definition zero_directory :: page_directory where
  "zero_directory = replicate PAGE_ENTRY_COUNT zero_pde"

text \<open>The state before the first call, for directories at the given addresses.\<close>

definition initial_paging :: "u32 \<Rightarrow> u32 \<Rightarrow> paging" where
  "initial_paging kaddr laddr =
     \<lparr> page_frame_map = replicate PAGE_FRAME_MAX_COUNT False, free_page_frame_count = 32,
       kernel_page_directory = zero_directory[0 := kernel_pde, 0x300 := kernel_pde],
       page_directory_list = replicate PAGING_DIRECTORY_TABLE_MAX_COUNT zero_directory,
       page_directory_used = replicate PAGING_DIRECTORY_TABLE_MAX_COUNT False,
       cr3 = kaddr - KERNEL_VIRTUAL_ADDRESS_BASE, kernel_pd_addr = kaddr, pd_list_addr = laddr \<rparr>"

section \<open>Pointers to page directories\<close>

definition user_pd_addr :: "paging \<Rightarrow> nat \<Rightarrow> u32" where
  "user_pd_addr s i = pd_list_addr s + 4096 * of_nat i"

definition pd_deref :: "paging \<Rightarrow> u32 \<Rightarrow> pd_id option" where
  "pd_deref s a =
     (if a = kernel_pd_addr s then Some KernelPD
      else map_option UserPD (find (\<lambda>i. user_pd_addr s i = a) [0..<PAGING_DIRECTORY_TABLE_MAX_COUNT]))"

fun get_pd :: "paging \<Rightarrow> pd_id \<Rightarrow> page_directory" where
  "get_pd s KernelPD = kernel_page_directory s"
| "get_pd s (UserPD i) = page_directory_list s ! i"

fun set_pd :: "pd_id \<Rightarrow> page_directory \<Rightarrow> paging \<Rightarrow> paging" where
  "set_pd KernelPD t s = s\<lparr> kernel_page_directory := t \<rparr>"
| "set_pd (UserPD i) t s = s\<lparr> page_directory_list := (page_directory_list s)[i := t] \<rparr>"

section \<open>Operations\<close>

definition page_index :: "u32 \<Rightarrow> nat" where
  "page_index virtual_addr = unat (drop_bit 22 virtual_addr AND 0x3FF)"

definition update_page_directory_entry ::
  "u32 \<Rightarrow> u32 \<Rightarrow> u32 \<Rightarrow> PageDirectoryEntryFlag \<Rightarrow> paging \<Rightarrow> fault + paging" where
  "update_page_directory_entry page_dir physical_addr virtual_addr fl s =
     (case pd_deref s page_dir of
        None \<Rightarrow> Inl BadPointer
      | Some d \<Rightarrow>
          let i = page_index virtual_addr;
              e = (get_pd s d ! i)\<lparr> flag := fl,
                    lower_address := ucast (drop_bit 22 physical_addr AND 0x3FF) \<rparr>
          in Inr (set_pd d ((get_pd s d)[i := e]) s))"

definition paging_allocate_check :: "u32 \<Rightarrow> paging \<Rightarrow> bool" where
  "paging_allocate_check amount s \<longleftrightarrow>
     ceil32 (f32_div (f32_of_u32 amount) (f32_of_u32 PAGE_FRAME_SIZE)) \<le> free_page_frame_count s"

definition user_flag :: PageDirectoryEntryFlag where
  "user_flag = zero_flag\<lparr> present_bit := True, write_bit := True, user_sv := True, use_pagesize_4_mb := True \<rparr>"

definition paging_allocate_user_page_frame :: "u32 \<Rightarrow> u32 \<Rightarrow> paging \<Rightarrow> fault + bool \<times> paging" where
  "paging_allocate_user_page_frame page_dir virtual_addr s =
     (if free_page_frame_count s = 0 then Inr (False, s)
      else case find (\<lambda>i. \<not> page_frame_map s ! i) [1..<PAGE_FRAME_MAX_COUNT] of
             None \<Rightarrow> Inr (True, s)
           | Some i \<Rightarrow>
               map_sum id (\<lambda>s'. (True, s'\<lparr> free_page_frame_count := free_page_frame_count s' - 1 \<rparr>))
                 (update_page_directory_entry page_dir (PAGE_FRAME_SIZE * of_nat i) virtual_addr user_flag
                    (s\<lparr> page_frame_map := (page_frame_map s)[i := True] \<rparr>)))"

text \<open>
  The flags the entry is left with are those of a local variable that is never initialised: they are
  the argument \<open>junk\<close>.
\<close>

definition paging_free_user_page_frame ::
  "PageDirectoryEntryFlag \<Rightarrow> u32 \<Rightarrow> u32 \<Rightarrow> paging \<Rightarrow> fault + bool \<times> paging" where
  "paging_free_user_page_frame junk page_dir virtual_addr s =
     (case pd_deref s page_dir of
        None \<Rightarrow> Inl BadPointer
      | Some d \<Rightarrow>
          let page_num = unat (lower_address (get_pd s d ! page_index virtual_addr))
          in if PAGE_FRAME_MAX_COUNT \<le> page_num then Inl OutOfBounds
             else if page_frame_map s ! page_num
             then map_sum id (\<lambda>s'. (True, s'\<lparr> free_page_frame_count := free_page_frame_count s' + 1 \<rparr>))
                    (update_page_directory_entry page_dir 0 virtual_addr junk
                       (s\<lparr> page_frame_map := (page_frame_map s)[page_num := False] \<rparr>))
             else Inr (False, s))"

text \<open>A null pointer is the address 0.\<close>

definition paging_create_new_page_directory :: "paging \<Rightarrow> u32 \<times> paging" where
  "paging_create_new_page_directory s =
     (case find (\<lambda>i. \<not> page_directory_used s ! i) [0..<PAGING_DIRECTORY_TABLE_MAX_COUNT] of
        None \<Rightarrow> (0, s)
      | Some i \<Rightarrow>
          (user_pd_addr s i,
           s\<lparr> page_directory_used := (page_directory_used s)[i := True],
              page_directory_list := (page_directory_list s)[i := zero_directory[0x300 := kernel_pde]] \<rparr>))"

definition paging_free_page_directory :: "u32 \<Rightarrow> paging \<Rightarrow> bool \<times> paging" where
  "paging_free_page_directory page_dir s =
     (case find (\<lambda>i. user_pd_addr s i = page_dir) [0..<PAGING_DIRECTORY_TABLE_MAX_COUNT] of
        None \<Rightarrow> (False, s)
      | Some i \<Rightarrow>
          (True,
           s\<lparr> page_directory_used := (page_directory_used s)[i := False],
              page_directory_list := (page_directory_list s)[i := zero_directory] \<rparr>))"

definition paging_get_current_page_directory_addr :: "paging \<Rightarrow> u32" where
  "paging_get_current_page_directory_addr s = cr3 s + KERNEL_VIRTUAL_ADDRESS_BASE"

definition paging_use_page_directory :: "u32 \<Rightarrow> paging \<Rightarrow> paging" where
  "paging_use_page_directory page_dir_virtual_addr s =
     s\<lparr> cr3 := (if KERNEL_VIRTUAL_ADDRESS_BASE < page_dir_virtual_addr
               then page_dir_virtual_addr - KERNEL_VIRTUAL_ADDRESS_BASE else page_dir_virtual_addr) \<rparr>"

section \<open>The MMU\<close>

text \<open>
  What a directory makes of a virtual address: a present entry maps its 4 MiB page to the frame of
  its lower address.  Code in ring 3 needs the user bit as well.
\<close>

definition translate :: "page_directory \<Rightarrow> u32 \<Rightarrow> u32 option" where
  "translate pd va =
     (let e = pd ! page_index va
      in if present_bit (flag e)
         then Some (push_bit 22 (ucast (lower_address e)) OR (va AND 0x3FFFFF)) else None)"

definition user_translate :: "page_directory \<Rightarrow> u32 \<Rightarrow> u32 option" where
  "user_translate pd va = (if user_sv (flag (pd ! page_index va)) then translate pd va else None)"

text \<open>A store by the kernel through a directory; \<open>None\<close> is a page fault.\<close>

fun paged_store :: "page_directory \<Rightarrow> u32 \<Rightarrow> u8 list \<Rightarrow> mem option \<Rightarrow> mem option" where
  "paged_store pd p [] m = m"
| "paged_store pd p (b # bs) m =
     (case (m, translate pd p) of
        (Some mm, Some a) \<Rightarrow> paged_store pd (p + 1) bs (Some (mm(a := b)))
      | _ \<Rightarrow> None)"

end
