(* ===== verification/Paging_Props.thy ===== *)
theory Paging_Props
  imports Paging
begin

text \<open>
  Correctness of the page manager: the counter of free frames, ownership of frames, separation of
  address spaces, and the outcome of every operation.
\<close>

section \<open>Addresses\<close>

lemma page_index_eq: "page_index va = unat va div 2 ^ 22"
proof -
  have "drop_bit 22 va AND 0x3FF = take_bit 10 (drop_bit 22 va)"
    by (simp add: take_bit_eq_mask mask_eq_exp_minus_1)
  moreover have "unat (take_bit 10 (drop_bit 22 va)) = unat va div 2 ^ 22 mod 2 ^ 10"
    by (simp add: take_bit_eq_mod drop_bit_eq_div unat_mod unat_div)
  moreover have "unat va div 2 ^ 22 < 2 ^ 10"
    using unsigned_less [of va, where ?'a = nat] by (simp add: div_less_iff_less_mult)
  ultimately show ?thesis by (simp add: page_index_def)
qed

lemma offset_mask: "va AND 0x3FFFFF = take_bit 22 (va :: u32)" and index_mask: "va AND 0x3FF = take_bit 10 (va :: u32)"
  by (simp_all add: take_bit_eq_mask mask_eq_exp_minus_1)

lemma page_split:
  assumes "page_index va = page_index va'" and "va AND 0x3FFFFF = va' AND 0x3FFFFF"
  shows "va = va'"
proof -
  have "unat (take_bit 22 x) = unat x mod 2 ^ 22" for x :: u32
    by (simp add: take_bit_eq_mod unat_mod)
  then have "unat va mod 2 ^ 22 = unat va' mod 2 ^ 22"
    using assms(2) unfolding offset_mask by metis
  with assms(1) have "unat va = unat va'"
    unfolding page_index_eq by (metis div_mult_mod_eq)
  then show ?thesis by (simp only: word_unat_eq_iff)
qed

lemma unat_ucast_10: "unat (ucast (w :: 10 word) :: u32) = unat w"
proof -
  have "unat w < 2 ^ 10" using unsigned_less [of w, where ?'a = nat] by simp
  then have "unat (of_nat (unat w) :: u32) = unat w" by (intro unat_of_nat_less) simp
  then show ?thesis by (simp only: of_nat_unat)
qed

lemma page_index_less [simp]: "page_index va < 1024"
  using unsigned_less [of va, where ?'a = nat] by (simp add: page_index_eq div_less_iff_less_mult)

lemma frame_address:
  assumes "i < 32"
  shows "(ucast (drop_bit 22 (PAGE_FRAME_SIZE * of_nat i :: u32) AND 0x3FF) :: 10 word) = of_nat i"
proof -
  have "\<forall>i \<in> set [0..<32]. (ucast (drop_bit 22 (PAGE_FRAME_SIZE * of_nat i :: u32) AND 0x3FF) :: 10 word) = of_nat i"
    by code_simp
  with assms show ?thesis by simp
qed

section \<open>Pointers\<close>

text \<open>What the linker guarantees of the directories' places: in the higher half, without overlap.\<close>

definition layout_ok :: "paging \<Rightarrow> bool" where
  "layout_ok s \<longleftrightarrow> KERNEL_VIRTUAL_ADDRESS_BASE < pd_list_addr s \<and> KERNEL_VIRTUAL_ADDRESS_BASE < kernel_pd_addr s \<and>
     unat (pd_list_addr s) + 32 * 4096 \<le> 2 ^ 32 \<and> (\<forall>i < 32. user_pd_addr s i \<noteq> kernel_pd_addr s)"

lemma unat_user_pd_addr:
  assumes "layout_ok s" and "i < 32"
  shows "unat (user_pd_addr s i) = unat (pd_list_addr s) + 4096 * i"
proof -
  have "4096 * of_nat i = (of_nat (4096 * i) :: u32)" by simp
  moreover have "unat (of_nat (4096 * i) :: u32) = 4096 * i" using assms(2) by (intro unat_of_nat_less) simp
  ultimately have m: "unat (4096 * of_nat i :: u32) = 4096 * i" by (simp only:)
  have "unat (pd_list_addr s) + 4096 * i < 2 ^ 32" using assms by (simp add: layout_ok_def)
  then have "unat (pd_list_addr s) + unat (4096 * of_nat i :: u32) < 2 ^ LENGTH(32)" by (simp only: m) simp
  then show ?thesis unfolding user_pd_addr_def by (subst unat_add_lem [THEN iffD1]) (simp_all only: m)
qed

lemma user_pd_addr_inj:
  assumes "layout_ok s" and "i < 32" and "j < 32" and "user_pd_addr s i = user_pd_addr s j"
  shows "i = j"
proof -
  have "unat (pd_list_addr s) + 4096 * i = unat (pd_list_addr s) + 4096 * j"
    using unat_user_pd_addr [OF assms(1,2)] unat_user_pd_addr [OF assms(1,3)] assms(4) by (simp only:)
  then show ?thesis by simp
qed

lemma user_pd_addr_high:
  assumes "layout_ok s" and "i < 32" shows "KERNEL_VIRTUAL_ADDRESS_BASE < user_pd_addr s i"
  using assms unat_user_pd_addr [OF assms] by (simp add: layout_ok_def word_less_nat_alt)

fun pd_valid :: "pd_id \<Rightarrow> bool" where
  "pd_valid KernelPD \<longleftrightarrow> True"
| "pd_valid (UserPD i) \<longleftrightarrow> i < PAGING_DIRECTORY_TABLE_MAX_COUNT"

definition pd_addr :: "paging \<Rightarrow> pd_id \<Rightarrow> u32" where
  "pd_addr s d = (case d of KernelPD \<Rightarrow> kernel_pd_addr s | UserPD i \<Rightarrow> user_pd_addr s i)"

lemma pd_deref_valid: "pd_deref s a = Some d \<Longrightarrow> pd_valid d \<and> a = pd_addr s d"
  by (auto simp: pd_deref_def find_upt_Some pd_addr_def split: if_splits simp del: upt.simps)

lemma pd_deref_cr3: "pd_deref (s\<lparr> cr3 := c \<rparr>) a = pd_deref s a"
  by (simp add: pd_deref_def user_pd_addr_def)

lemma pd_deref_addr: "layout_ok s \<Longrightarrow> pd_valid d \<Longrightarrow> pd_deref s (pd_addr s d) = Some d"
proof (cases d)
  case (UserPD i)
  assume l: "layout_ok s" and "pd_valid d"
  then have i: "i < 32" using UserPD by simp
  moreover have "user_pd_addr s i \<noteq> kernel_pd_addr s" using l i by (simp add: layout_ok_def)
  moreover have "find (\<lambda>j. user_pd_addr s j = user_pd_addr s i) [0..<32] = Some i"
    unfolding find_upt_Some using i user_pd_addr_inj [OF l, of _ i] by (auto dest: less_trans)
  ultimately show ?thesis by (simp only: UserPD pd_deref_def pd_addr_def pd_id.case if_False option.map)
qed (simp add: pd_deref_def pd_addr_def)

section \<open>Entries\<close>

definition put_entry :: "pd_id \<Rightarrow> nat \<Rightarrow> PageDirectoryEntryFlag \<Rightarrow> 10 word \<Rightarrow> paging \<Rightarrow> paging" where
  "put_entry d j fl f s =
     set_pd d ((get_pd s d)[j := (get_pd s d ! j)\<lparr> flag := fl, lower_address := f \<rparr>]) s"

lemma update_entry_eq:
  "update_page_directory_entry a pa va fl s =
     (case pd_deref s a of None \<Rightarrow> Inl BadPointer
      | Some d \<Rightarrow> Inr (put_entry d (page_index va) fl (ucast (drop_bit 22 pa AND 0x3FF)) s))"
  by (auto simp: update_page_directory_entry_def put_entry_def Let_def split: option.splits)

definition dirs_wf :: "paging \<Rightarrow> bool" where
  "dirs_wf s \<longleftrightarrow> length (kernel_page_directory s) = 1024 \<and> length (page_directory_list s) = 32 \<and>
     (\<forall>t \<in> set (page_directory_list s). length t = 1024) \<and> length (page_directory_used s) = 32"

lemma length_get_pd: "dirs_wf s \<Longrightarrow> pd_valid d \<Longrightarrow> length (get_pd s d) = 1024"
  by (cases d) (auto simp: dirs_wf_def)

lemma dirs_wf_set_pd: "dirs_wf s \<Longrightarrow> length t = 1024 \<Longrightarrow> dirs_wf (set_pd d t s)"
  by (cases d) (auto simp: dirs_wf_def dest: set_update_subset_insert [THEN subsetD])

lemma get_set_pd:
  "dirs_wf s \<Longrightarrow> pd_valid d \<Longrightarrow> get_pd (set_pd d t s) d' = (if d' = d then t else get_pd s d')"
  by (cases d; cases d') (auto simp: dirs_wf_def)

lemma put_entry_simps [simp]:
  "page_frame_map (put_entry d j fl f s) = page_frame_map s"
  "free_page_frame_count (put_entry d j fl f s) = free_page_frame_count s"
  "kernel_pd_addr (put_entry d j fl f s) = kernel_pd_addr s"
  "pd_list_addr (put_entry d j fl f s) = pd_list_addr s"
  "page_directory_used (put_entry d j fl f s) = page_directory_used s"
  by (cases d; simp add: put_entry_def)+

lemma put_entry_nth:
  assumes "dirs_wf s" and "pd_valid d" and "j < 1024"
  shows "get_pd (put_entry d j fl f s) d' ! j' =
    (if d' = d \<and> j' = j then (get_pd s d ! j)\<lparr> flag := fl, lower_address := f \<rparr> else get_pd s d' ! j')"
  using assms length_get_pd [OF assms(1,2)] by (auto simp: put_entry_def get_set_pd)

lemma dirs_wf_put_entry: "dirs_wf s \<Longrightarrow> pd_valid d \<Longrightarrow> dirs_wf (put_entry d j fl f s)"
  unfolding put_entry_def by (intro dirs_wf_set_pd) (auto simp: length_get_pd)

section \<open>Ownership of frames\<close>

definition frame_at :: "paging \<Rightarrow> pd_id \<Rightarrow> nat \<Rightarrow> nat" where
  "frame_at s d j = unat (lower_address (get_pd s d ! j))"

text \<open>
  The counter agrees with the bitmap, frame 0, the kernel's, is never handed out, a frame other than
  0 that some directory entry names is marked as used, and no two entries name the same one.
\<close>

definition pool_wf :: "paging \<Rightarrow> bool" where
  "pool_wf s \<longleftrightarrow> length (page_frame_map s) = PAGE_FRAME_MAX_COUNT \<and>
     free_page_frame_count s = of_nat (count_free (page_frame_map s)) \<and> \<not> page_frame_map s ! 0"

definition owned :: "paging \<Rightarrow> bool" where
  "owned s \<longleftrightarrow>
     (\<forall>d j. pd_valid d \<and> j < 1024 \<and> frame_at s d j \<noteq> 0 \<longrightarrow>
        frame_at s d j < PAGE_FRAME_MAX_COUNT \<and> page_frame_map s ! frame_at s d j) \<and>
     (\<forall>d j d' j'. pd_valid d \<and> j < 1024 \<and> pd_valid d' \<and> j' < 1024 \<and> frame_at s d j \<noteq> 0 \<and>
        frame_at s d j = frame_at s d' j' \<longrightarrow> d = d' \<and> j = j')"

definition paging_inv :: "paging \<Rightarrow> bool" where
  "paging_inv s \<longleftrightarrow> layout_ok s \<and> dirs_wf s \<and> pool_wf s \<and> owned s"

lemma paging_invD:
  assumes "paging_inv s" shows "layout_ok s" "dirs_wf s" "pool_wf s" "owned s"
  using assms by (simp_all add: paging_inv_def)

lemma ownedD:
  assumes "owned s" and "pd_valid d" and "j < 1024" and "frame_at s d j \<noteq> 0"
  shows "frame_at s d j < 32" and "page_frame_map s ! frame_at s d j"
    and "pd_valid d' \<Longrightarrow> j' < 1024 \<Longrightarrow> frame_at s d j = frame_at s d' j' \<Longrightarrow> d = d' \<and> j = j'"
  using assms unfolding owned_def by blast+

lemma owned_mono:
  assumes "owned s" and "\<And>d j. pd_valid d \<Longrightarrow> j < 1024 \<Longrightarrow> frame_at s' d j \<noteq> 0 \<Longrightarrow> frame_at s' d j = frame_at s d j"
    and "page_frame_map s' = page_frame_map s"
  shows "owned s'"
  unfolding owned_def using ownedD [OF assms(1)] assms(2,3) by metis

lemma count_free_u32: "length bs = 32 \<Longrightarrow> unat (of_nat (count_free bs) :: u32) = count_free bs"
  using count_free_le [of bs] by (intro unat_of_nat_less) simp

section \<open>Allocation\<close>

definition allocated :: "nat \<Rightarrow> pd_id \<Rightarrow> u32 \<Rightarrow> paging \<Rightarrow> paging" where
  "allocated i d va s =
     (put_entry d (page_index va) user_flag (of_nat i) (s\<lparr> page_frame_map := (page_frame_map s)[i := True] \<rparr>))
       \<lparr> free_page_frame_count := free_page_frame_count s - 1 \<rparr>"

lemma get_pd_map [simp]: "get_pd (s\<lparr> page_frame_map := m \<rparr>) d = get_pd s d"
  "get_pd (s\<lparr> free_page_frame_count := c \<rparr>) d = get_pd s d" "get_pd (s\<lparr> cr3 := r \<rparr>) d = get_pd s d"
  by (cases d; simp)+

lemma pd_deref_map [simp]: "pd_deref (s\<lparr> page_frame_map := m \<rparr>) a = pd_deref s a"
  by (simp add: pd_deref_def user_pd_addr_def)

definition lowest_free :: "paging \<Rightarrow> nat option" where
  "lowest_free s = find (\<lambda>i. \<not> page_frame_map s ! i) [1..<PAGE_FRAME_MAX_COUNT]"

lemma lowest_free_Some:
  "lowest_free s = Some i \<longleftrightarrow> 1 \<le> i \<and> i < 32 \<and> \<not> page_frame_map s ! i \<and> (\<forall>j. 1 \<le> j \<and> j < i \<longrightarrow> page_frame_map s ! j)"
  unfolding lowest_free_def find_upt_Some by simp

lemma lowest_free_None: "lowest_free s = None \<longleftrightarrow> (\<forall>i \<in> {1..<32}. page_frame_map s ! i)"
  unfolding lowest_free_def find_upt_None by auto

lemma allocate_eq:
  assumes "layout_ok s" and "pd_valid d"
  shows "paging_allocate_user_page_frame (pd_addr s d) va s = Inr
    (if free_page_frame_count s = 0 then (False, s)
     else case lowest_free s of None \<Rightarrow> (True, s) | Some i \<Rightarrow> (True, allocated i d va s))"
proof (cases "lowest_free s")
  case None
  then show ?thesis unfolding lowest_free_def by (simp add: paging_allocate_user_page_frame_def del: upt.simps)
next
  case (Some i)
  then show ?thesis
    using frame_address [of i] pd_deref_addr [OF assms] lowest_free_Some [of s i]
    by (simp add: paging_allocate_user_page_frame_def lowest_free_def update_entry_eq allocated_def del: upt.simps)
qed

text \<open>
  The outcome of an allocation on every branch: it fails only when the counter is 0; with a
  valid directory it takes the lowest free frame from 1 on, marks it, maps the page to it for the
  user and decrements the counter; and when only frame 0 is left it reports success and does nothing.
\<close>

theorem allocate_outcome:
  assumes "layout_ok s" and "pd_valid d"
  shows "paging_allocate_user_page_frame (pd_addr s d) va s = Inr
    (if free_page_frame_count s = 0 then (False, s)
     else if \<forall>i \<in> {1..<32}. page_frame_map s ! i then (True, s)
     else (True, allocated (LEAST i. i \<in> {1..<32} \<and> \<not> page_frame_map s ! i) d va s))"
proof (cases "lowest_free s")
  case None
  moreover from this have "\<forall>i \<in> {1..<32}. page_frame_map s ! i" by (simp only: lowest_free_None)
  ultimately show ?thesis by (simp add: allocate_eq [OF assms])
next
  case (Some i)
  note i = Some [unfolded lowest_free_Some]
  have "(LEAST i. i \<in> {1..<32} \<and> \<not> page_frame_map s ! i) = i"
    using i by (intro Least_equality) (auto simp: not_less [symmetric])
  moreover have "\<not> (\<forall>i \<in> {1..<32}. page_frame_map s ! i)" using i by auto
  ultimately show ?thesis
    using Some by (auto simp: allocate_eq [OF assms])
qed

lemma allocated_inv:
  assumes inv: "paging_inv s" and d: "pd_valid d" and i: "0 < i" "i < 32" "\<not> page_frame_map s ! i"
  shows "paging_inv (allocated i d va s)"
    and "frame_at (allocated i d va s) d' j' = (if d' = d \<and> j' = page_index va then i else frame_at s d' j')"
proof -
  let ?s = "s\<lparr> page_frame_map := (page_frame_map s)[i := True] \<rparr>" and ?a = "allocated i d va s"
  note wf = paging_invD [OF inv]
  have wf': "dirs_wf ?s" using wf(2) by (simp add: dirs_wf_def)
  have "unat (of_nat i :: 10 word) = i" using i by (intro unat_of_nat_less) simp
  then show fr: "frame_at ?a d' j' = (if d' = d \<and> j' = page_index va then i else frame_at s d' j')" for d' j'
    using put_entry_nth [OF wf' d page_index_less] by (simp add: frame_at_def allocated_def)
  have pool: "length (page_frame_map s) = 32" "free_page_frame_count s = of_nat (count_free (page_frame_map s))"
    "\<not> page_frame_map s ! 0" using wf(3) by (auto simp: pool_wf_def)
  then have "Suc (count_free ((page_frame_map s)[i := True])) = count_free (page_frame_map s)"
    using i by (intro count_free_set) auto
  then have "free_page_frame_count s - 1 = of_nat (count_free ((page_frame_map s)[i := True]))"
    unfolding pool(2) by (metis add_diff_cancel_left' of_nat_Suc)
  then have "pool_wf ?a" using pool i by (simp add: pool_wf_def allocated_def)
  moreover have "dirs_wf ?a" using dirs_wf_put_entry [OF wf' d] by (simp add: allocated_def dirs_wf_def)
  moreover have "layout_ok ?a" using wf(1) by (simp add: layout_ok_def user_pd_addr_def allocated_def)
  moreover have "owned ?a"
  proof -
    have no: "frame_at s d' j' \<noteq> i" if "pd_valid d'" "j' < 1024" for d' j'
      using ownedD(2) [OF wf(4) that] i by auto
    have m: "page_frame_map ?a = (page_frame_map s)[i := True]" by (simp add: allocated_def)
    show ?thesis unfolding owned_def fr m
      using ownedD [OF wf(4)] no i pool(1) by (auto simp: nth_list_update)
  qed
  ultimately show "paging_inv ?a" by (simp add: paging_inv_def)
qed

section \<open>Release\<close>

definition freed :: "PageDirectoryEntryFlag \<Rightarrow> pd_id \<Rightarrow> u32 \<Rightarrow> paging \<Rightarrow> paging" where
  "freed junk d va s =
     (put_entry d (page_index va) junk 0
        (s\<lparr> page_frame_map := (page_frame_map s)[frame_at s d (page_index va) := False] \<rparr>))
       \<lparr> free_page_frame_count := free_page_frame_count s + 1 \<rparr>"

lemma free_eq:
  assumes inv: "paging_inv s" and d: "pd_valid d"
  shows "paging_free_user_page_frame junk (pd_addr s d) va s = Inr
    (if frame_at s d (page_index va) = 0 then (False, s) else (True, freed junk d va s))"
proof -
  have "\<not> page_frame_map s ! 0" using paging_invD(3) [OF inv] by (simp add: pool_wf_def)
  with ownedD(1,2) [OF paging_invD(4) [OF inv] d page_index_less, of va] pd_deref_addr [OF paging_invD(1) [OF inv] d]
  show ?thesis
    by (cases "frame_at s d (page_index va) = 0")
       (auto simp: paging_free_user_page_frame_def update_entry_eq freed_def frame_at_def Let_def)
qed

lemma freed_inv:
  assumes inv: "paging_inv s" and d: "pd_valid d" and nz: "frame_at s d (page_index va) \<noteq> 0"
  shows "paging_inv (freed junk d va s)"
    and "frame_at (freed junk d va s) d' j' = (if d' = d \<and> j' = page_index va then 0 else frame_at s d' j')"
proof -
  let ?i = "frame_at s d (page_index va)"
  let ?s = "s\<lparr> page_frame_map := (page_frame_map s)[?i := False] \<rparr>" and ?a = "freed junk d va s"
  note wf = paging_invD [OF inv] and i = ownedD [OF paging_invD(4) [OF inv] d page_index_less nz]
  have wf': "dirs_wf ?s" using wf(2) by (simp add: dirs_wf_def)
  show fr: "frame_at ?a d' j' = (if d' = d \<and> j' = page_index va then 0 else frame_at s d' j')" for d' j'
    using put_entry_nth [OF wf' d page_index_less] by (simp add: frame_at_def freed_def)
  have pool: "length (page_frame_map s) = 32" "free_page_frame_count s = of_nat (count_free (page_frame_map s))"
    "\<not> page_frame_map s ! 0" using wf(3) by (auto simp: pool_wf_def)
  have "free_page_frame_count s + 1 = of_nat (count_free ((page_frame_map s)[?i := False]))"
    unfolding pool(2) using pool(1) i(1,2) by simp
  then have "pool_wf ?a" using pool nz by (simp add: pool_wf_def freed_def)
  moreover have "dirs_wf ?a" using dirs_wf_put_entry [OF wf' d] by (simp add: freed_def dirs_wf_def)
  moreover have "layout_ok ?a" using wf(1) by (simp add: layout_ok_def user_pd_addr_def freed_def)
  moreover have "owned ?a"
  proof -
    have m: "page_frame_map ?a = (page_frame_map s)[?i := False]" by (simp add: freed_def)
    have no: "frame_at s d' j' \<noteq> ?i" if "pd_valid d'" "j' < 1024" "\<not> (d' = d \<and> j' = page_index va)" for d' j'
      using i(3) [OF that(1,2)] that(3) by metis
    have "frame_at ?a d' j' < 32 \<and> page_frame_map ?a ! frame_at ?a d' j'"
      if "pd_valid d'" "j' < 1024" "frame_at ?a d' j' \<noteq> 0" for d' j'
      using that no [OF that(1,2)] ownedD(1,2) [OF wf(4) that(1,2)] unfolding fr m by (auto split: if_splits)
    moreover have "d' = d'' \<and> j' = j''"
      if "pd_valid d'" "j' < 1024" "pd_valid d''" "j'' < 1024" "frame_at ?a d' j' \<noteq> 0" "frame_at ?a d' j' = frame_at ?a d'' j''"
      for d' j' d'' j''
      using that ownedD(3) [OF wf(4) that(1,2) _ that(3,4)] unfolding fr by (auto split: if_splits)
    ultimately show ?thesis unfolding owned_def by blast
  qed
  ultimately show "paging_inv ?a" by (simp add: paging_inv_def)
qed

lemma count_positive:
  assumes "pool_wf s" and "lowest_free s = Some i" shows "free_page_frame_count s \<noteq> 0"
proof -
  have "i < length (page_frame_map s)" "\<not> page_frame_map s ! i"
    using assms by (auto simp: lowest_free_Some pool_wf_def)
  then have "count_free (page_frame_map s) \<noteq> 0"
    using count_free_set [of i "page_frame_map s"] by simp
  moreover have "unat (free_page_frame_count s) = count_free (page_frame_map s)"
    using assms(1) count_free_u32 by (simp add: pool_wf_def)
  ultimately show ?thesis by auto
qed

text \<open>
  C18: Allocating an unmapped page while a frame from 1 on is free maps it to a frame that no entry
  named before, and releasing it again returns true and restores the bitmap, the counter and the
  frames of all entries, whatever the uninitialised flags are.
\<close>

theorem allocate_free_roundtrip:
  assumes inv: "paging_inv s" and d: "pd_valid d" and z: "frame_at s d (page_index va) = 0"
    and free: "lowest_free s = Some i"
  shows "\<exists>s' s''. paging_allocate_user_page_frame (pd_addr s d) va s = Inr (True, s') \<and>
    frame_at s' d (page_index va) = i \<and>
    (\<forall>d' j. pd_valid d' \<and> j < 1024 \<longrightarrow> frame_at s d' j \<noteq> i) \<and>
    paging_free_user_page_frame junk (pd_addr s d) va s' = Inr (True, s'') \<and>
    page_frame_map s'' = page_frame_map s \<and> free_page_frame_count s'' = free_page_frame_count s \<and>
    (\<forall>d' j. frame_at s'' d' j = frame_at s d' j)"
proof -
  let ?s = "allocated i d va s"
  have i: "0 < i" "i < 32" "\<not> page_frame_map s ! i" using free by (auto simp: lowest_free_Some)
  note al = allocated_inv [OF inv d i, where va = va]
  have addr: "pd_addr ?s d = pd_addr s d" by (simp add: pd_addr_def user_pd_addr_def allocated_def split: pd_id.split)
  have f: "frame_at ?s d (page_index va) = i" using al(2) by simp
  have "paging_free_user_page_frame junk (pd_addr s d) va ?s = Inr (True, freed junk d va ?s)"
    using free_eq [OF al(1) d, of junk va] f i(1) addr by simp
  moreover have "page_frame_map (freed junk d va ?s) = page_frame_map s"
    using f i list_update_id [of "page_frame_map s" i] by (simp add: freed_def) (simp add: allocated_def)
  moreover have "free_page_frame_count (freed junk d va ?s) = free_page_frame_count s"
    by (simp add: freed_def allocated_def)
  moreover have "frame_at (freed junk d va ?s) d' j = frame_at s d' j" for d' j
    using freed_inv(2) [OF al(1) d, of va junk d' j] f i(1) al(2) z by simp
  moreover have "frame_at s d' j \<noteq> i" if "pd_valid d'" "j < 1024" for d' j
    using ownedD(2) [OF paging_invD(4) [OF inv] that] i by auto
  ultimately show ?thesis
    using allocate_eq [OF paging_invD(1) [OF inv] d, of va] count_positive [OF paging_invD(3) [OF inv] free] free f
    by auto
qed

section \<open>Page directories\<close>

definition put_directory :: "nat \<Rightarrow> bool \<Rightarrow> page_directory \<Rightarrow> paging \<Rightarrow> paging" where
  "put_directory i u t s = s\<lparr> page_directory_used := (page_directory_used s)[i := u],
     page_directory_list := (page_directory_list s)[i := t] \<rparr>"

lemma get_put_directory:
  "dirs_wf s \<Longrightarrow> i < 32 \<Longrightarrow> get_pd (put_directory i u t s) d = (if d = UserPD i then t else get_pd s d)"
  by (cases d) (auto simp: put_directory_def dirs_wf_def)

lemma put_directory_inv:
  assumes inv: "paging_inv s" and i: "i < 32" and t: "length t = 1024" "\<forall>e \<in> set t. lower_address e = 0"
  shows "paging_inv (put_directory i u t s)"
proof -
  note wf = paging_invD [OF inv]
  have "owned (put_directory i u t s)"
  proof (rule owned_mono [OF wf(4)])
    show "frame_at (put_directory i u t s) d j = frame_at s d j"
      if "pd_valid d" "j < 1024" "frame_at (put_directory i u t s) d j \<noteq> 0" for d j
      using that t nth_mem [of j t] by (auto simp: frame_at_def get_put_directory [OF wf(2) i] split: if_splits)
  qed (simp add: put_directory_def)
  moreover have "dirs_wf (put_directory i u t s)"
    using wf(2) t(1) by (auto simp: dirs_wf_def put_directory_def dest: set_update_subset_insert [THEN subsetD])
  ultimately show ?thesis
    using wf(1,3) by (simp add: paging_inv_def layout_ok_def user_pd_addr_def pool_wf_def put_directory_def)
qed

lemma new_directory_entries:
  "length (zero_directory[0x300 := kernel_pde]) = 1024" "e \<in> set (zero_directory[0x300 := kernel_pde]) \<Longrightarrow> lower_address e = 0"
  "e \<in> set (zero_directory[0x300 := kernel_pde]) \<Longrightarrow> \<not> user_sv (flag e)"
  "length zero_directory = 1024" "e \<in> set zero_directory \<Longrightarrow> lower_address e = 0" "e \<in> set zero_directory \<Longrightarrow> \<not> user_sv (flag e)"
  using set_update_subset_insert [of zero_directory "0x300" kernel_pde]
  by (auto simp: zero_directory_def zero_pde_def kernel_pde_def zero_flag_def)

lemma create_directory_eq:
  "paging_create_new_page_directory s =
     (case find (\<lambda>i. \<not> page_directory_used s ! i) [0..<32] of None \<Rightarrow> (0, s)
      | Some i \<Rightarrow> (user_pd_addr s i, put_directory i True (zero_directory[0x300 := kernel_pde]) s))"
  unfolding paging_create_new_page_directory_def put_directory_def ..

lemma free_directory_eq:
  "paging_free_page_directory a s =
     (case find (\<lambda>i. user_pd_addr s i = a) [0..<32] of None \<Rightarrow> (False, s)
      | Some i \<Rightarrow> (True, put_directory i False zero_directory s))"
  unfolding paging_free_page_directory_def put_directory_def ..

lemma create_directory_inv:
  assumes inv: "paging_inv s" and c: "paging_create_new_page_directory s = (a, s')"
  shows "paging_inv s'"
proof (cases "find (\<lambda>i. \<not> page_directory_used s ! i) [0..<32]")
  case None
  with c inv show ?thesis by (simp add: create_directory_eq del: upt.simps)
next
  case (Some i)
  then have "i < 32" unfolding find_upt_Some by simp
  with Some c inv show ?thesis
    using put_directory_inv new_directory_entries(1,2) by (auto simp: create_directory_eq simp del: upt.simps)
qed

lemma free_directory_inv:
  assumes inv: "paging_inv s" and c: "paging_free_page_directory a s = (r, s')"
  shows "paging_inv s'"
proof (cases "find (\<lambda>i. user_pd_addr s i = a) [0..<32]")
  case None
  with c inv show ?thesis by (simp add: free_directory_eq del: upt.simps)
next
  case (Some i)
  then have "i < 32" unfolding find_upt_Some by simp
  with Some c inv show ?thesis
    using put_directory_inv new_directory_entries(4,5) by (auto simp: free_directory_eq simp del: upt.simps)
qed

text \<open>
  Switching to a page directory and asking for the current one gives it back: the offset of the
  higher half is subtracted on the way to \<open>cr3\<close> and added on the way back.
\<close>

theorem use_get_roundtrip:
  assumes "layout_ok s" and "pd_valid d"
  shows "paging_get_current_page_directory_addr (paging_use_page_directory (pd_addr s d) s) = pd_addr s d"
  using assms user_pd_addr_high [OF assms(1)]
  by (cases d) (auto simp: paging_get_current_page_directory_addr_def paging_use_page_directory_def
      pd_addr_def layout_ok_def)

section \<open>Separation of address spaces\<close>

definition flag_at :: "paging \<Rightarrow> pd_id \<Rightarrow> nat \<Rightarrow> PageDirectoryEntryFlag" where
  "flag_at s d j = flag (get_pd s d ! j)"

definition user_access :: "paging \<Rightarrow> pd_id \<Rightarrow> nat \<Rightarrow> bool" where
  "user_access s d j \<longleftrightarrow> present_bit (flag_at s d j) \<and> user_sv (flag_at s d j)"

text \<open>
  The states the page manager can be in, with the history that matters: the pages that have been
  released and not mapped again, each with the flags that its release has stored, which the code never
  initialises.  Mapping a page or resetting a directory ends the history of its entries.
\<close>

type_synonym releases = "pd_id \<times> nat \<Rightarrow> PageDirectoryEntryFlag option"

definition forget :: "paging \<Rightarrow> u32 \<Rightarrow> releases \<Rightarrow> releases" where
  "forget s a R = (\<lambda>(d, j). if pd_addr s d = a then None else R (d, j))"

inductive paging_reachable :: "releases \<Rightarrow> paging \<Rightarrow> bool" where
  boot: "layout_ok (initial_paging k l) \<Longrightarrow> paging_reachable (\<lambda>_. None) (initial_paging k l)"
| allocate: "paging_reachable R s \<Longrightarrow> pd_valid d \<Longrightarrow>
    paging_allocate_user_page_frame (pd_addr s d) va s = Inr (r, s') \<Longrightarrow>
    paging_reachable (if s' = s then R else R((d, page_index va) := None)) s'"
| release: "paging_reachable R s \<Longrightarrow> pd_valid d \<Longrightarrow>
    paging_free_user_page_frame junk (pd_addr s d) va s = Inr (r, s') \<Longrightarrow>
    paging_reachable (if r then R((d, page_index va) := Some junk) else R) s'"
| new_directory: "paging_reachable R s \<Longrightarrow> paging_create_new_page_directory s = (a, s') \<Longrightarrow>
    paging_reachable (forget s a R) s'"
| drop_directory: "paging_reachable R s \<Longrightarrow> paging_free_page_directory a s = (r, s') \<Longrightarrow>
    paging_reachable (if r then forget s a R else R) s'"
| switch: "paging_reachable R s \<Longrightarrow> paging_reachable R (paging_use_page_directory a s)"

text \<open>
  The history is exact: a released page names frame 0 with the flags of its release, and no other entry
  that ring 3 can use names frame 0.
\<close>

definition recorded :: "releases \<Rightarrow> paging \<Rightarrow> bool" where
  "recorded R s \<longleftrightarrow> (\<forall>d j. pd_valid d \<longrightarrow> j < 1024 \<longrightarrow>
     (case R (d, j) of None \<Rightarrow> user_access s d j \<longrightarrow> frame_at s d j \<noteq> 0
      | Some fl \<Rightarrow> frame_at s d j = 0 \<and> flag_at s d j = fl))"

lemma recordedD: "recorded R s \<Longrightarrow> pd_valid d \<Longrightarrow> j < 1024 \<Longrightarrow>
  (case R (d, j) of None \<Rightarrow> user_access s d j \<longrightarrow> frame_at s d j \<noteq> 0
   | Some fl \<Rightarrow> frame_at s d j = 0 \<and> flag_at s d j = fl)"
  unfolding recorded_def by blast

text \<open>A step that keeps an entry keeps what is recorded of it.\<close>

lemma recorded_step:
  assumes "recorded R s"
    and "\<And>d j. pd_valid d \<Longrightarrow> j < 1024 \<Longrightarrow>
      R' (d, j) = R (d, j) \<and> frame_at s' d j = frame_at s d j \<and> flag_at s' d j = flag_at s d j \<or>
      (case R' (d, j) of None \<Rightarrow> user_access s' d j \<longrightarrow> frame_at s' d j \<noteq> 0
       | Some fl \<Rightarrow> frame_at s' d j = 0 \<and> flag_at s' d j = fl)"
  shows "recorded R' s'"
  unfolding recorded_def
proof (intro allI impI)
  fix d j assume dj: "pd_valid d" "j < (1024 :: nat)"
  then show "case R' (d, j) of None \<Rightarrow> user_access s' d j \<longrightarrow> frame_at s' d j \<noteq> 0
      | Some fl \<Rightarrow> frame_at s' d j = 0 \<and> flag_at s' d j = fl"
    using assms(2) [OF dj] recordedD [OF assms(1) dj] by (auto simp: user_access_def split: option.splits)
qed

lemma initial_entries: "pd_valid d \<Longrightarrow> j < 1024 \<Longrightarrow> get_pd (initial_paging k l) d ! j \<in> {zero_pde, kernel_pde}"
  by (cases d) (auto simp: initial_paging_def zero_directory_def nth_list_update)

lemma initial_inv:
  assumes "layout_ok (initial_paging k l)"
  shows "paging_inv (initial_paging k l) \<and> recorded (\<lambda>_. None) (initial_paging k l)"
proof -
  have e: "frame_at (initial_paging k l) d j = 0" "\<not> user_access (initial_paging k l) d j" if "pd_valid d" "j < 1024" for d j
    using initial_entries [OF that, of k l]
    by (auto simp: frame_at_def user_access_def flag_at_def zero_pde_def kernel_pde_def zero_flag_def)
  have "count_free (replicate 32 False) = 32" by (simp add: count_free_def)
  then have "pool_wf (initial_paging k l)" by (simp add: pool_wf_def initial_paging_def)
  moreover have "dirs_wf (initial_paging k l)" by (simp add: dirs_wf_def initial_paging_def zero_directory_def)
  ultimately show ?thesis
    using assms e by (auto simp: paging_inv_def owned_def recorded_def)
qed

lemma flag_at_put:
  assumes "dirs_wf s" and "pd_valid d" and "j < 1024"
  shows "flag_at (put_entry d j fl f s) d' j' = (if d' = d \<and> j' = j then fl else flag_at s d' j')"
  using put_entry_nth [OF assms] by (simp add: flag_at_def)

lemma put_directory_recorded:
  assumes inv: "paging_inv s" and R: "recorded R s" and i: "i < 32"
    and t: "length t = 1024" "\<forall>e \<in> set t. \<not> user_sv (flag e)"
  shows "recorded (forget s (user_pd_addr s i) R) (put_directory i u t s)"
proof (rule recorded_step [OF R], goal_cases)
  case (1 d j)
  note g = get_put_directory [OF paging_invD(2) [OF inv] i, of u t d]
  show ?case
  proof (cases "d = UserPD i")
    case True
    then show ?thesis using 1 g t nth_mem [of j t]
      by (auto simp: forget_def pd_addr_def user_access_def flag_at_def)
  next
    case False
    then have "pd_addr s d \<noteq> user_pd_addr s i"
      using 1(1) i paging_invD(1) [OF inv] user_pd_addr_inj [of s _ i]
      by (cases d) (auto simp: pd_addr_def layout_ok_def)
    then show ?thesis using False g by (simp add: forget_def frame_at_def flag_at_def)
  qed
qed

lemma allocated_recorded:
  assumes "paging_inv s" and "recorded R s" and "pd_valid d" and "0 < i" "i < 32" "\<not> page_frame_map s ! i"
  shows "recorded (R((d, page_index va) := None)) (allocated i d va s)"
proof (rule recorded_step [OF assms(2)], goal_cases)
  case (1 d' j)
  have wf: "dirs_wf (s\<lparr> page_frame_map := (page_frame_map s)[i := True] \<rparr>)"
    using paging_invD(2) [OF assms(1)] by (simp add: dirs_wf_def)
  have "flag_at (allocated i d va s) d' j = (if d' = d \<and> j = page_index va then user_flag else flag_at s d' j)"
    using flag_at_put [OF wf assms(3) page_index_less, of va user_flag "of_nat i" d' j]
    by (simp add: allocated_def flag_at_def)
  then show ?case using allocated_inv(2) [OF assms(1,3-6), of va d' j] assms(4) by auto
qed

lemma freed_recorded:
  assumes "paging_inv s" and "recorded R s" and "pd_valid d" and "frame_at s d (page_index va) \<noteq> 0"
  shows "recorded (R((d, page_index va) := Some junk)) (freed junk d va s)"
proof (rule recorded_step [OF assms(2)], goal_cases)
  case (1 d' j)
  let ?i = "frame_at s d (page_index va)"
  have wf: "dirs_wf (s\<lparr> page_frame_map := (page_frame_map s)[?i := False] \<rparr>)"
    using paging_invD(2) [OF assms(1)] by (simp add: dirs_wf_def)
  have "flag_at (freed junk d va s) d' j = (if d' = d \<and> j = page_index va then junk else flag_at s d' j)"
    using flag_at_put [OF wf assms(3) page_index_less, of va junk 0 d' j] by (simp add: freed_def flag_at_def)
  then show ?case using freed_inv(2) [OF assms(1,3,4), of junk d' j] by auto
qed

lemma use_keeps:
  "paging_inv (paging_use_page_directory a s) = paging_inv s"
  "recorded R (paging_use_page_directory a s) = recorded R s"
proof -
  have e: "frame_at (paging_use_page_directory a s) = frame_at s" "flag_at (paging_use_page_directory a s) = flag_at s"
    "user_access (paging_use_page_directory a s) = user_access s"
    by (simp_all add: fun_eq_iff frame_at_def flag_at_def user_access_def paging_use_page_directory_def)
  show "recorded R (paging_use_page_directory a s) = recorded R s"
    unfolding recorded_def e ..
  show "paging_inv (paging_use_page_directory a s) = paging_inv s"
    unfolding paging_inv_def owned_def e
    by (simp add: layout_ok_def user_pd_addr_def dirs_wf_def pool_wf_def paging_use_page_directory_def)
qed

lemma forget_none:
  assumes "paging_inv s" and "recorded R s" and "a \<le> KERNEL_VIRTUAL_ADDRESS_BASE"
  shows "recorded (forget s a R) s"
proof (rule recorded_step [OF assms(2)], goal_cases)
  case (1 d j)
  have "KERNEL_VIRTUAL_ADDRESS_BASE < pd_addr s d"
    using paging_invD(1) [OF assms(1)] 1(1) user_pd_addr_high [of s]
    by (cases d) (auto simp: pd_addr_def layout_ok_def)
  then have "pd_addr s d \<noteq> a" using assms(3) by (auto simp: not_le [symmetric])
  then show ?case by (simp add: forget_def)
qed

lemma paging_reachable_inv: "paging_reachable R s \<Longrightarrow> paging_inv s \<and> recorded R s"
proof (induction rule: paging_reachable.induct)
  case (boot k l)
  then show ?case by (rule initial_inv)
next
  case (allocate R s d va r s')
  then have inv: "paging_inv s" "recorded R s" by auto
  have "s' = s \<or> (\<exists>i. 0 < i \<and> i < 32 \<and> \<not> page_frame_map s ! i \<and> s' = allocated i d va s)"
    using allocate(2,3)
    by (auto simp: allocate_eq [OF paging_invD(1) [OF inv(1)]] lowest_free_Some split: if_splits option.splits)
  then show ?case
    using inv allocated_inv(1) [OF inv(1) allocate(2)] allocated_recorded [OF inv allocate(2)] by (auto split: if_splits)
next
  case (release R s d junk va r s')
  then have inv: "paging_inv s" "recorded R s" by auto
  show ?case
    using release(2,3) inv freed_inv(1) [OF inv(1) release(2)] freed_recorded [OF inv release(2)]
    by (auto simp: free_eq [OF inv(1)] split: if_splits)
next
  case (new_directory R s a s')
  then have inv: "paging_inv s" "recorded R s" by auto
  have "recorded (forget s a R) s'"
    using new_directory(2) inv forget_none [OF inv, of 0] put_directory_recorded [OF inv _ new_directory_entries(1)] new_directory_entries(3)
    by (auto simp: create_directory_eq find_upt_Some split: option.splits simp del: upt.simps)
  with create_directory_inv [OF inv(1) new_directory(2)] show ?case ..
next
  case (drop_directory R s a r s')
  then have inv: "paging_inv s" "recorded R s" by auto
  have "recorded (if r then forget s a R else R) s'"
    using drop_directory(2) inv put_directory_recorded [OF inv _ new_directory_entries(4)] new_directory_entries(6)
    by (auto simp: free_directory_eq find_upt_Some split: option.splits simp del: upt.simps)
  with free_directory_inv [OF inv(1) drop_directory(2)] show ?case ..
next
  case (switch R s a)
  then show ?case by (simp add: use_keeps)
qed

text \<open>
  C10: In every state the page manager can reach, whatever the uninitialised flags that releases store,
  the counter of free frames is the number of clear bits of the bitmap, frame 0 is never handed out, and
  every frame some directory entry names is marked and named by that entry only.  An entry that ring 3
  can use maps the kernel's frame 0 exactly when its page has been released, and not mapped again, with
  flags that happen to be present and user-accessible.
\<close>

theorem paging_invariant:
  assumes "paging_reachable R s"
  shows "unat (free_page_frame_count s) = count_free (page_frame_map s) \<and> \<not> page_frame_map s ! 0 \<and> owned s \<and>
    (\<forall>d j. pd_valid d \<and> j < 1024 \<longrightarrow>
      (user_access s d j \<and> frame_at s d j = 0 \<longleftrightarrow> (\<exists>fl. R (d, j) = Some fl \<and> present_bit fl \<and> user_sv fl)))"
proof -
  have inv: "paging_inv s" and R: "recorded R s" using paging_reachable_inv [OF assms] by auto
  have "user_access s d j \<and> frame_at s d j = 0 \<longleftrightarrow> (\<exists>fl. R (d, j) = Some fl \<and> present_bit fl \<and> user_sv fl)"
    if "pd_valid d" "j < 1024" for d j
    using recordedD [OF R that] by (auto simp: user_access_def split: option.splits)
  then show ?thesis using inv count_free_u32 by (auto simp: paging_inv_def pool_wf_def)
qed

lemma translate_frame:
  assumes "translate pd va = Some pa"
  shows "page_index pa = unat (lower_address (pd ! page_index va))" and "pa AND 0x3FFFFF = va AND 0x3FFFFF"
proof -
  let ?w = "lower_address (pd ! page_index va)"
  have pa: "pa = push_bit 22 (ucast ?w) OR (va AND 0x3FFFFF)"
    using assms by (auto simp: translate_def Let_def split: if_splits)
  show "pa AND 0x3FFFFF = va AND 0x3FFFFF"
    unfolding pa offset_mask by (rule bit_word_eqI) (auto simp: bit_simps)
  have "drop_bit 22 pa AND 0x3FF = ucast ?w"
    unfolding pa offset_mask index_mask by (rule bit_word_eqI) (auto simp: bit_simps dest: bit_imp_le_length)
  moreover have "unat (ucast ?w :: u32) = unat ?w"
    by (rule unat_ucast_10)
  ultimately show "page_index pa = unat ?w" by (simp add: page_index_def)
qed


text \<open>
  A release stores flags that were never initialised.  If these happen to be present and
  user-accessible, then after the release ring 3 reaches, at the released page, the kernel's physical
  memory from address 0 on.
\<close>

theorem release_may_expose_kernel:
  assumes inv: "paging_inv s" and d: "pd_valid d" and nz: "frame_at s d (page_index va) \<noteq> 0"
    and junk: "present_bit junk" "user_sv junk"
    and r: "paging_free_user_page_frame junk (pd_addr s d) va s = Inr (True, s')"
  shows "user_translate (get_pd s' d) va = Some (va AND 0x3FFFFF)"
proof -
  let ?i = "frame_at s d (page_index va)"
  have wf: "dirs_wf (s\<lparr> page_frame_map := (page_frame_map s)[?i := False] \<rparr>)"
    using paging_invD(2) [OF inv] by (simp add: dirs_wf_def)
  have "s' = freed junk d va s" using r nz by (simp add: free_eq [OF inv d])
  then have "get_pd s' d ! page_index va = (get_pd s d ! page_index va)\<lparr> flag := junk, lower_address := 0 \<rparr>"
    using put_entry_nth [OF wf d page_index_less, of va junk 0 d "page_index va"] by (simp add: freed_def)
  then show ?thesis using junk by (simp add: user_translate_def translate_def)
qed

section \<open>The availability check\<close>

lemma allocate_check_eq:
  assumes "unat amount < 2 ^ 24"
  shows "paging_allocate_check amount s \<longleftrightarrow> (unat amount + 4194303) div 4194304 \<le> unat (free_page_frame_count s)"
proof -
  let ?n = "(unat amount + 4194303) div 4194304"
  have "ceil_div amount PAGE_FRAME_SIZE = of_nat ?n"
    using ceil_div_exact [of amount 22 PAGE_FRAME_SIZE] assms by simp
  moreover have "?n < 2 ^ LENGTH(32)" using assms by (simp add: div_less_iff_less_mult)
  then have "unat (of_nat ?n :: u32) = ?n" by (rule unat_of_nat_less)
  ultimately show ?thesis by (simp add: paging_allocate_check_def ceil_div_def word_le_nat_alt)
qed

text \<open>
  C19: For amounts below 16 MiB the check compares the exact rounded-up number of frames with the
  counter.  A small number, such as a number of pages passed in place of a number of bytes, is
  therefore a request for one frame.
\<close>

theorem allocate_check_exact:
  assumes "unat amount < 2 ^ 24"
  shows "paging_allocate_check amount s \<longleftrightarrow> (unat amount + 4194303) div 4194304 \<le> unat (free_page_frame_count s)"
  by (rule allocate_check_eq [OF assms])

section \<open>Instances\<close>

definition boot_paging :: paging where
  "boot_paging = initial_paging 0xC0200000 0xC0300000"

lemma boot_layout: "layout_ok boot_paging"
proof -
  have "\<forall>i \<in> set [0..<32]. (0xC0300000 + 4096 * of_nat i :: u32) \<noteq> 0xC0200000" by code_simp
  then show ?thesis by (simp add: layout_ok_def boot_paging_def user_pd_addr_def initial_paging_def)
qed

lemma boot_reachable: "paging_reachable (\<lambda>_. None) boot_paging"
  using boot boot_layout unfolding boot_paging_def by blast

lemma boot_inv: "paging_inv boot_paging"
  using paging_reachable_inv [OF boot_reachable] ..

lemma boot_lowest: "lowest_free boot_paging = Some 1"
  by (simp add: lowest_free_Some boot_paging_def initial_paging_def)

lemma boot_frames: "pd_valid d \<Longrightarrow> j < 1024 \<Longrightarrow> frame_at boot_paging d j = 0"
  using initial_entries [of d j "0xC0200000" "0xC0300000"]
  by (auto simp: frame_at_def boot_paging_def zero_pde_def kernel_pde_def)

theorem allocate_outcome_witness:
  "paging_allocate_user_page_frame (pd_addr boot_paging KernelPD) 0 boot_paging = Inr
    (if free_page_frame_count boot_paging = 0 then (False, boot_paging)
     else if \<forall>i \<in> {1..<32}. page_frame_map boot_paging ! i then (True, boot_paging)
     else (True, allocated (LEAST i. i \<in> {1..<32} \<and> \<not> page_frame_map boot_paging ! i) KernelPD 0 boot_paging))"
  by (rule allocate_outcome [OF boot_layout]) simp

theorem allocate_free_roundtrip_witness:
  "\<exists>s' s''. paging_allocate_user_page_frame (pd_addr boot_paging (UserPD 3)) 0x400000 boot_paging = Inr (True, s') \<and>
     frame_at s' (UserPD 3) 1 = 1 \<and>
     paging_free_user_page_frame user_flag (pd_addr boot_paging (UserPD 3)) 0x400000 s' = Inr (True, s'') \<and>
     page_frame_map s'' = page_frame_map boot_paging"
proof -
  have d: "pd_valid (UserPD 3)" by simp
  have i: "page_index 0x400000 = 1" by (simp add: page_index_eq)
  show ?thesis
    using allocate_free_roundtrip [OF boot_inv d boot_frames [OF d page_index_less] boot_lowest, of "0x400000" user_flag]
    unfolding i by blast
qed

theorem use_get_roundtrip_witness:
  "paging_get_current_page_directory_addr (paging_use_page_directory (pd_addr boot_paging (UserPD 5)) boot_paging) =
   pd_addr boot_paging (UserPD 5)"
  by (rule use_get_roundtrip [OF boot_layout]) simp

text \<open>A state with a frame in each of two user directories, and one with a page released.\<close>

lemma allocate_none:
  assumes "paging_reachable (\<lambda>_. None) s" and "pd_valid d"
    and "paging_allocate_user_page_frame (pd_addr s d) va s = Inr (r, s')"
  shows "paging_reachable (\<lambda>_. None) s'"
proof -
  have "(if s' = s then \<lambda>_. None else (\<lambda>_. None)((d, page_index va) := None)) = (\<lambda>_ :: pd_id \<times> nat. None :: PageDirectoryEntryFlag option)"
    by auto
  with allocate [OF assms] show ?thesis by (simp only:)
qed

definition two_spaces :: paging where
  "two_spaces = allocated 2 (UserPD 1) 0 (allocated 1 (UserPD 0) 0 boot_paging)"

lemma first_space:
  "paging_reachable (\<lambda>_. None) (allocated 1 (UserPD 0) 0 boot_paging)" "paging_inv (allocated 1 (UserPD 0) 0 boot_paging)"
proof -
  have "paging_allocate_user_page_frame (pd_addr boot_paging (UserPD 0)) 0 boot_paging =
      Inr (True, allocated 1 (UserPD 0) 0 boot_paging)"
    using allocate_eq [OF boot_layout, of "UserPD 0" 0] boot_lowest
      count_positive [OF paging_invD(3) [OF boot_inv] boot_lowest] by simp
  then show r: "paging_reachable (\<lambda>_. None) (allocated 1 (UserPD 0) 0 boot_paging)"
    by (rule allocate_none [OF boot_reachable, rotated]) simp
  then show "paging_inv (allocated 1 (UserPD 0) 0 boot_paging)" using paging_reachable_inv by blast
qed

lemma two_spaces_reachable: "paging_reachable (\<lambda>_. None) two_spaces"
proof -
  let ?s = "allocated 1 (UserPD 0) 0 boot_paging"
  have l: "lowest_free ?s = Some 2"
    by (auto simp: lowest_free_Some allocated_def boot_paging_def initial_paging_def less_Suc_eq numeral_2_eq_2)
  have "paging_allocate_user_page_frame (pd_addr ?s (UserPD 1)) 0 ?s = Inr (True, two_spaces)"
    using allocate_eq [OF paging_invD(1) [OF first_space(2)], of "UserPD 1" 0] l
      count_positive [OF paging_invD(3) [OF first_space(2)] l] by (simp add: two_spaces_def)
  then show ?thesis by (rule allocate_none [OF first_space(1), rotated]) simp
qed

lemma allocated_translate:
  assumes "paging_inv s" and "pd_valid d"
  shows "user_translate (get_pd (allocated i d va s) d) va = Some (push_bit 22 (ucast (of_nat i :: 10 word)) OR (va AND 0x3FFFFF))"
proof -
  have wf: "dirs_wf (s\<lparr> page_frame_map := (page_frame_map s)[i := True] \<rparr>)"
    using paging_invD(2) [OF assms(1)] by (simp add: dirs_wf_def)
  then show ?thesis
    using put_entry_nth [OF wf assms(2) page_index_less, of va user_flag "of_nat i" d "page_index va"]
    by (simp add: user_translate_def translate_def allocated_def user_flag_def)
qed

lemma two_spaces_translate:
  "user_translate (get_pd two_spaces (UserPD 1)) 0 = Some 0x800000"
  "user_translate (get_pd two_spaces (UserPD 0)) 0 = Some 0x400000"
proof -
  let ?s = "allocated 1 (UserPD 0) 0 boot_paging"
  show "user_translate (get_pd two_spaces (UserPD 1)) 0 = Some 0x800000"
    unfolding two_spaces_def using allocated_translate [OF first_space(2), of "UserPD 1" 2 0] by simp
  have "get_pd two_spaces (UserPD 0) = get_pd ?s (UserPD 0)"
    by (simp add: two_spaces_def allocated_def put_entry_def)
  then show "user_translate (get_pd two_spaces (UserPD 0)) 0 = Some 0x400000"
    using allocated_translate [OF boot_inv, of "UserPD 0" 1 0] by simp
qed


lemma exposed_page:
  "paging_free_user_page_frame user_flag (pd_addr boot_paging (UserPD 0)) 0 (allocated 1 (UserPD 0) 0 boot_paging) =
    Inr (True, freed user_flag (UserPD 0) 0 (allocated 1 (UserPD 0) 0 boot_paging))"
  "frame_at (allocated 1 (UserPD 0) 0 boot_paging) (UserPD 0) (page_index 0) \<noteq> 0"
proof -
  let ?s = "allocated 1 (UserPD 0) 0 boot_paging"
  have d: "pd_valid (UserPD 0)" by simp
  show nz: "frame_at ?s (UserPD 0) (page_index 0) \<noteq> 0"
    using allocated_inv(2) [OF boot_inv d, of 1 0 "UserPD 0" "page_index 0"] by (simp add: boot_paging_def initial_paging_def)
  have "pd_addr ?s (UserPD 0) = pd_addr boot_paging (UserPD 0)"
    by (simp add: pd_addr_def user_pd_addr_def allocated_def)
  then show "paging_free_user_page_frame user_flag (pd_addr boot_paging (UserPD 0)) 0 ?s = Inr (True, freed user_flag (UserPD 0) 0 ?s)"
    using free_eq [OF first_space(2) d, of user_flag 0] nz by simp
qed

text \<open>After the release with such flags the entry is one that ring 3 can use and that maps frame 0.\<close>

theorem paging_invariant_witness:
  "owned (freed user_flag (UserPD 0) 0 (allocated 1 (UserPD 0) 0 boot_paging)) \<and>
   user_access (freed user_flag (UserPD 0) 0 (allocated 1 (UserPD 0) 0 boot_paging)) (UserPD 0) 0 \<and>
   frame_at (freed user_flag (UserPD 0) 0 (allocated 1 (UserPD 0) 0 boot_paging)) (UserPD 0) 0 = 0"
proof -
  let ?s = "allocated 1 (UserPD 0) 0 boot_paging" and ?t = "freed user_flag (UserPD 0) 0 (allocated 1 (UserPD 0) 0 boot_paging)"
  have "pd_addr ?s (UserPD 0) = pd_addr boot_paging (UserPD 0)"
    by (simp add: pd_addr_def user_pd_addr_def allocated_def)
  then have "paging_free_user_page_frame user_flag (pd_addr ?s (UserPD 0)) 0 ?s = Inr (True, ?t)" using exposed_page(1) by simp
  from release [OF first_space(1) _ this]
  have r: "paging_reachable ((\<lambda>_. None)((UserPD 0, 0) := Some user_flag)) ?t" by (simp add: page_index_eq)
  have "owned ?t \<and> (user_access ?t (UserPD 0) 0 \<and> frame_at ?t (UserPD 0) 0 = 0 \<longleftrightarrow>
      (\<exists>fl. ((\<lambda>_. None)((UserPD 0, 0) := Some user_flag)) (UserPD 0, 0 :: nat) = Some fl \<and> present_bit fl \<and> user_sv fl))"
    using paging_invariant [OF r] by force
  then show ?thesis by (simp add: user_flag_def)
qed

theorem release_may_expose_kernel_witness:
  "\<exists>s'. paging_free_user_page_frame user_flag (pd_addr boot_paging (UserPD 0)) 0 (allocated 1 (UserPD 0) 0 boot_paging) = Inr (True, s') \<and>
     user_translate (get_pd s' (UserPD 0)) 0 = Some 0"
proof -
  let ?s = "allocated 1 (UserPD 0) 0 boot_paging"
  have addr: "pd_addr ?s (UserPD 0) = pd_addr boot_paging (UserPD 0)"
    by (simp add: pd_addr_def user_pd_addr_def allocated_def)
  have "present_bit user_flag" "user_sv user_flag" by (simp_all add: user_flag_def)
  from release_may_expose_kernel [OF first_space(2) _ exposed_page(2) this] exposed_page(1) addr show ?thesis by simp
qed

theorem allocate_check_exact_witness: "paging_allocate_check 8 boot_paging \<longleftrightarrow> 1 \<le> unat (free_page_frame_count boot_paging)"
  using allocate_check_exact [of 8 boot_paging] by simp

end
