(* ===== verification/Disk.thy ===== *)
theory Disk
  imports Cstring
begin

text \<open>
  Block storage.  \<open>read_blocks\<close> and \<open>write_blocks\<close> are the two operations \<open>fat32.c\<close> is linked
  against; the definitions here are those of \<open>src/src/user-program/external-inserter.c\<close>, which
  keeps the disk as a byte array \<open>image_storage\<close>.  An offset into the image is the 32-bit value
  \<open>BLOCK_SIZE * (logical_block_address + i)\<close> and wraps as the C expression does.  The locale
  \<open>block_device\<close> is the contract the filesystem relies on.
\<close>

type_synonym disk = mem

abbreviation (input) BLOCK_SIZE :: nat where "BLOCK_SIZE \<equiv> 512"

definition read_blocks :: "disk \<Rightarrow> u32 \<Rightarrow> u8 \<Rightarrow> u8 list" where
  "read_blocks d lba n =
     concat (map (\<lambda>i. load_bytes (512 * (lba + of_nat i)) BLOCK_SIZE d) [0..<unat n])"

definition write_block_at :: "u8 list \<Rightarrow> u32 \<Rightarrow> nat \<Rightarrow> disk \<Rightarrow> disk" where
  "write_block_at ptr lba i d =
     store_bytes (512 * (lba + of_nat i)) (take BLOCK_SIZE (drop (BLOCK_SIZE * i) ptr)) d"

definition write_blocks :: "u8 list \<Rightarrow> u32 \<Rightarrow> u8 \<Rightarrow> disk \<Rightarrow> disk" where
  "write_blocks ptr lba n d = fold (write_block_at ptr lba) [0..<unat n] d"

section \<open>The contract of a block device\<close>

text \<open>
  \<open>2 ^ 23\<close> blocks of 512 bytes fill the 32-bit offset space, so block ranges below that bound do
  not wrap.
\<close>

locale block_device =
  fixes rb :: "'d \<Rightarrow> u32 \<Rightarrow> u8 \<Rightarrow> u8 list"
    and wb :: "u8 list \<Rightarrow> u32 \<Rightarrow> u8 \<Rightarrow> 'd \<Rightarrow> 'd"
  assumes rb_length: "length (rb d lba n) = BLOCK_SIZE * unat n"
    and rb_wb_same:
      "length bs = BLOCK_SIZE * unat n \<Longrightarrow> unat lba + unat n \<le> 2 ^ 23 \<Longrightarrow>
         rb (wb bs lba n d) lba n = bs"
    and rb_wb_other:
      "length bs = BLOCK_SIZE * unat n \<Longrightarrow> unat lba + unat n \<le> 2 ^ 23 \<Longrightarrow>
         unat lba' + unat n' \<le> 2 ^ 23 \<Longrightarrow>
         unat lba' + unat n' \<le> unat lba \<or> unat lba + unat n \<le> unat lba' \<Longrightarrow>
         rb (wb bs lba n d) lba' n' = rb d lba' n'"
begin

text \<open>Clusters are four blocks; cluster \<open>c\<close> starts at block \<open>4 * c\<close>.\<close>

lemma unat_4_times: "unat c < 2 ^ 21 \<Longrightarrow> unat (4 * c :: u32) = 4 * unat c"
  by (simp add: unat_word_ariths)

lemma unat_4_block_count: "unat (4 :: u8) = 4"
  by simp

lemma cluster_length: "length (rb d lba 4) = 2048"
  by (simp add: rb_length)

lemma cluster_same:
  "length bs = 2048 \<Longrightarrow> unat c < 2 ^ 21 \<Longrightarrow> rb (wb bs (4 * c) 4 d) (4 * c) 4 = bs"
  by (rule rb_wb_same) (simp_all add: unat_4_times)

lemma cluster_other:
  assumes "length bs = 2048" and "unat c < 2 ^ 21" and "unat c' < 2 ^ 21" and "c \<noteq> c'"
  shows "rb (wb bs (4 * c) 4 d) (4 * c') 4 = rb d (4 * c') 4"
proof (rule rb_wb_other)
  have "unat c \<noteq> unat c'" using assms(4) by (metis word_of_unat)
  then have "4 * unat c' + 4 \<le> 4 * unat c \<or> 4 * unat c + 4 \<le> 4 * unat c'" by arith
  then show "unat (4 * c') + unat (4 :: u8) \<le> unat (4 * c) \<or>
             unat (4 * c) + unat (4 :: u8) \<le> unat (4 * c')"
    using assms(2,3) by (simp only: unat_4_times unat_4_block_count)
qed (use assms in \<open>simp_all add: unat_4_times\<close>)

text \<open>The boot sector is block 0, outside every cluster from 1 on.\<close>

lemma boot_of_cluster_write:
  "length bs = 2048 \<Longrightarrow> unat c < 2 ^ 21 \<Longrightarrow> 0 < unat c \<Longrightarrow>
     rb (wb bs (4 * c) 4 d) 0 1 = rb d 0 1"
  by (rule rb_wb_other) (simp_all add: unat_4_times)

lemma boot_of_root_block_write:
  "length bs = 512 \<Longrightarrow> unat c < 2 ^ 21 \<Longrightarrow> 0 < unat c \<Longrightarrow>
     rb (wb bs (4 * c) 1 d) 0 1 = rb d 0 1"
  by (rule rb_wb_other) (simp_all add: unat_4_times)

lemma cluster_of_boot_write:
  "length bs = 512 \<Longrightarrow> unat c < 2 ^ 21 \<Longrightarrow> 0 < unat c \<Longrightarrow>
     rb (wb bs 0 1 d) (4 * c) 4 = rb d (4 * c) 4"
  by (rule rb_wb_other) (simp_all add: unat_4_times)

lemma cluster_of_block_write:
  assumes "length bs = 512" and "unat c < 2 ^ 21" and "unat c' < 2 ^ 21" and "c \<noteq> c'"
  shows "rb (wb bs (4 * c) 1 d) (4 * c') 4 = rb d (4 * c') 4"
proof (rule rb_wb_other)
  have "unat c \<noteq> unat c'" using assms(4) by (metis word_of_unat)
  then have "4 * unat c' + 4 \<le> 4 * unat c \<or> 4 * unat c + 1 \<le> 4 * unat c'" by arith
  then show "unat (4 * c') + unat (4 :: u8) \<le> unat (4 * c) \<or>
             unat (4 * c) + unat (1 :: u8) \<le> unat (4 * c')"
    using assms(2,3) by (simp only: unat_4_times unat_4_block_count) simp
qed (use assms in \<open>simp_all add: unat_4_times\<close>)

end

section \<open>The image file meets the contract\<close>

lemma read_blocks_run:
  "concat (map (\<lambda>i. load_bytes (512 * (lba + of_nat i)) 512 d) [0..<k]) =
     load_bytes (512 * lba) (512 * k) d"
proof (induction k)
  case 0
  then show ?case by (simp add: load_bytes_def)
next
  case (Suc k)
  have "load_bytes (512 * lba) (512 * Suc k) d = load_bytes (512 * lba) (512 * k + 512) d"
    by (simp add: add.commute)
  also have "\<dots> = load_bytes (512 * lba) (512 * k) d @ load_bytes (512 * lba + of_nat (512 * k)) 512 d"
    by (rule load_append)
  also have "512 * lba + of_nat (512 * k) = 512 * (lba + of_nat k)"
    by (simp add: distrib_left)
  finally show ?case using Suc.IH by simp
qed

lemma read_blocks_load: "read_blocks d lba n = load_bytes (512 * lba) (512 * unat n) d"
  by (simp only: read_blocks_def read_blocks_run)

lemma store_append:
  assumes "length xs + length ys \<le> 2 ^ 32"
  shows "store_bytes p (xs @ ys) m = store_bytes (p + of_nat (length xs)) ys (store_bytes p xs m)"
  using assms
proof (induction ys rule: rev_induct)
  case (snoc y ys)
  have "store_bytes p (xs @ ys @ [y]) m =
        (store_bytes p (xs @ ys) m)(p + of_nat (length (xs @ ys)) := y)"
    using snoc.prems store_snoc [of "xs @ ys" p y m] by simp
  also have "\<dots> = (store_bytes (p + of_nat (length xs)) ys (store_bytes p xs m))
                 (p + of_nat (length xs) + of_nat (length ys) := y)"
    using snoc by (simp add: add.assoc)
  also have "\<dots> = store_bytes (p + of_nat (length xs)) (ys @ [y]) (store_bytes p xs m)"
    using snoc.prems by (subst store_snoc) simp_all
  finally show ?case by simp
qed simp

lemma write_blocks_run:
  assumes "512 * k \<le> length bs" and "length bs \<le> 2 ^ 32"
  shows "fold (write_block_at bs lba) [0..<k] d = store_bytes (512 * lba) (take (512 * k) bs) d"
  using assms(1)
proof (induction k)
  case (Suc k)
  have "fold (write_block_at bs lba) [0..<Suc k] d =
        write_block_at bs lba k (fold (write_block_at bs lba) [0..<k] d)"
    by simp
  also have "fold (write_block_at bs lba) [0..<k] d = store_bytes (512 * lba) (take (512 * k) bs) d"
    using Suc.prems by (intro Suc.IH) simp
  also have "write_block_at bs lba k \<dots> =
      store_bytes (512 * lba + of_nat (length (take (512 * k) bs)))
        (take 512 (drop (512 * k) bs)) (store_bytes (512 * lba) (take (512 * k) bs) d)"
    using Suc.prems by (simp add: write_block_at_def distrib_left min_absorb2)
  also have "\<dots> = store_bytes (512 * lba) (take (512 * k) bs @ take 512 (drop (512 * k) bs)) d"
    using Suc.prems assms(2) by (subst store_append) simp_all
  also have "take (512 * k) bs @ take 512 (drop (512 * k) bs) = take (512 * Suc k) bs"
    by (simp add: take_add [symmetric] add.commute)
  finally show ?case .
qed simp

lemma unat_u8_lt: "unat (n :: u8) < 256"
  using unsigned_less [of n, where ?'a = nat] by simp

lemma write_blocks_store:
  assumes "length bs = 512 * unat n"
  shows "write_blocks bs lba n d = store_bytes (512 * lba) bs d"
  using write_blocks_run [of "unat n" bs lba d] assms unat_u8_lt [of n]
  by (simp add: write_blocks_def)

lemma offset_in_run:
  assumes "unat lba + k \<le> 2 ^ 23" and "i < 512 * k"
  shows "unat (512 * lba + of_nat i :: u32) = 512 * unat lba + i"
  using assms by (simp add: unat_word_ariths unat_of_nat_less)

lemma blocks_apart:
  assumes "unat lba + j \<le> 2 ^ 23" and "unat lba' + k \<le> 2 ^ 23"
    and "unat lba' + k \<le> unat lba \<or> unat lba + j \<le> unat lba'"
  shows "apart (512 * lba') (512 * k) (512 * lba) (512 * j)"
  unfolding apart_def
proof (intro allI impI)
  fix i i' assume i: "i < 512 * k" and i': "i' < 512 * j"
  have "512 * unat lba' + i \<noteq> 512 * unat lba + i'"
    using assms(3) i i' by arith
  then show "512 * lba' + of_nat i \<noteq> 512 * lba + of_nat i'"
    using offset_in_run [OF assms(2) i] offset_in_run [OF assms(1) i'] by metis
qed

interpretation image: block_device read_blocks write_blocks
proof unfold_locales
  show "length (read_blocks d lba n) = BLOCK_SIZE * unat n" for d lba n
    by (simp add: read_blocks_load)
next
  fix bs :: "u8 list" and n :: u8 and lba :: u32 and d :: disk
  assume len: "length bs = BLOCK_SIZE * unat n"
  then have "length bs \<le> 2 ^ 32" using unat_u8_lt [of n] by simp
  then show "read_blocks (write_blocks bs lba n d) lba n = bs"
    using load_store_same [of bs "512 * lba" d] len
    by (simp add: read_blocks_load write_blocks_store)
next
  fix bs :: "u8 list" and n n' :: u8 and lba lba' :: u32 and d :: disk
  assume "length bs = BLOCK_SIZE * unat n" and "unat lba + unat n \<le> 2 ^ 23"
    and "unat lba' + unat n' \<le> 2 ^ 23"
    and "unat lba' + unat n' \<le> unat lba \<or> unat lba + unat n \<le> unat lba'"
  then show "read_blocks (write_blocks bs lba n d) lba' n' = read_blocks d lba' n'"
    by (simp add: read_blocks_load write_blocks_store load_store_apart blocks_apart)
qed

end
