(* ===== verification/Fat32_Layout.thy ===== *)
theory Fat32_Layout
  imports Disk
begin

text \<open>
  The on-disk data of \<open>src/src/header/filesystem/fat32.h\<close>: the packed 32-byte directory entry, the
  64-entry directory table and the 512-entry file allocation table, with the byte layout a cluster
  gives them.  Reading a cluster into a structure is \<open>decode_*\<close>, writing a structure to a cluster
  is \<open>encode_*\<close>; both directions of the round trip hold.
\<close>

abbreviation (input) CLUSTER_SIZE :: nat where "CLUSTER_SIZE \<equiv> 2048"
abbreviation (input) CLUSTER_MAP_SIZE :: nat where "CLUSTER_MAP_SIZE \<equiv> 512"
abbreviation (input) CLUSTER_0_VALUE :: u32 where "CLUSTER_0_VALUE \<equiv> 0x0FFFFFF0"
abbreviation (input) CLUSTER_1_VALUE :: u32 where "CLUSTER_1_VALUE \<equiv> 0x0FFFFFFF"
abbreviation (input) FAT32_FAT_END_OF_FILE :: u32 where "FAT32_FAT_END_OF_FILE \<equiv> 0x0FFFFFFF"
abbreviation (input) FAT32_FAT_EMPTY_ENTRY :: u32 where "FAT32_FAT_EMPTY_ENTRY \<equiv> 0"
abbreviation (input) FAT_CLUSTER_NUMBER :: u32 where "FAT_CLUSTER_NUMBER \<equiv> 1"
abbreviation (input) ROOT_CLUSTER_NUMBER :: u32 where "ROOT_CLUSTER_NUMBER \<equiv> 2"
abbreviation (input) ATTR_SUBDIRECTORY :: u8 where "ATTR_SUBDIRECTORY \<equiv> 0x10"
abbreviation (input) UATTR_NOT_EMPTY :: u8 where "UATTR_NOT_EMPTY \<equiv> 0xAA"
abbreviation (input) UATTR_EMPTY :: u8 where "UATTR_EMPTY \<equiv> 0x55"

section \<open>Little-endian integers\<close>

definition le16 :: "u16 \<Rightarrow> u8 list" where
  "le16 w = [ucast w, ucast (drop_bit 8 w)]"

definition from_le16 :: "u8 list \<Rightarrow> u16" where
  "from_le16 bs = ucast (bs ! 0) OR push_bit 8 (ucast (bs ! 1))"

definition le32 :: "u32 \<Rightarrow> u8 list" where
  "le32 w = [ucast w, ucast (drop_bit 8 w), ucast (drop_bit 16 w), ucast (drop_bit 24 w)]"

definition from_le32 :: "u8 list \<Rightarrow> u32" where
  "from_le32 bs = ucast (bs ! 0) OR push_bit 8 (ucast (bs ! 1))
     OR push_bit 16 (ucast (bs ! 2)) OR push_bit 24 (ucast (bs ! 3))"

lemma length_le16 [simp]: "length (le16 w) = 2"
  by (simp add: le16_def)

lemma length_le32 [simp]: "length (le32 w) = 4"
  by (simp add: le32_def)

lemma from_le16_le16 [codec]: "from_le16 (le16 w @ r) = w"
  unfolding from_le16_def le16_def by (rule bit_word_eqI) (auto simp: bit_simps)

lemma bit_u8_high [simp]: "8 \<le> n \<Longrightarrow> \<not> bit (a :: u8) n"
  by (auto dest: bit_imp_le_length)

lemma from_le32_le32 [codec]: "from_le32 (le32 w @ r) = w"
proof (rule bit_word_eqI)
  fix n assume "n < LENGTH(32)"
  then have "n < 8 \<or> 8 \<le> n \<and> n < 16 \<or> 16 \<le> n \<and> n < 24 \<or> 24 \<le> n \<and> n < 32"
    by simp arith
  then show "bit (from_le32 (le32 w @ r)) n = bit w n"
    by (elim disjE) (auto simp: from_le32_def le32_def bit_simps)
qed

lemma le16_from_le16: "length bs = 2 \<Longrightarrow> le16 (from_le16 (bs @ r)) = bs"
proof -
  assume "length bs = 2"
  then obtain a b where "bs = [a, b]" by (auto simp: numeral_2_eq_2 length_Suc_conv)
  moreover have "(ucast (ucast a OR push_bit 8 (ucast b) :: u16) :: u8) = a"
    by (rule bit_word_eqI) (auto simp: bit_simps)
  moreover have "(ucast (drop_bit 8 (ucast a OR push_bit 8 (ucast b) :: u16)) :: u8) = b"
    by (rule bit_word_eqI) (auto simp: bit_simps)
  ultimately show ?thesis by (simp add: le16_def from_le16_def)
qed

lemma le32_from_le32:
  assumes "length bs = 4" shows "le32 (from_le32 (bs @ r)) = bs"
proof -
  obtain a b c d where bs: "bs = [a, b, c, d]"
    using assms by (auto simp: numeral_eq_Suc length_Suc_conv)
  let ?w = "ucast a OR push_bit 8 (ucast b) OR push_bit 16 (ucast c) OR push_bit 24 (ucast d) :: u32"
  have "(ucast ?w :: u8) = a" by (rule bit_word_eqI) (auto simp: bit_simps)
  moreover have "(ucast (drop_bit 8 ?w) :: u8) = b" by (rule bit_word_eqI) (auto simp: bit_simps)
  moreover have "(ucast (drop_bit 16 ?w) :: u8) = c" by (rule bit_word_eqI) (auto simp: bit_simps)
  moreover have "(ucast (drop_bit 24 ?w) :: u8) = d" by (rule bit_word_eqI) (auto simp: bit_simps)
  ultimately show ?thesis unfolding le32_def from_le32_def bs by simp
qed

section \<open>Directory entries\<close>

text \<open>
  \<open>undelete\<close> is a \<open>bool\<close> the code never reads; structure copies move its byte, so the byte is
  what the record keeps.
\<close>

record FAT32DirectoryEntry =
  de_name :: "u8 list"
  de_ext :: "u8 list"
  attribute :: u8
  user_attribute :: u8
  undelete :: u8
  create_time :: u16
  create_date :: u16
  access_date :: u16
  cluster_high :: u16
  modified_time :: u16
  modified_date :: u16
  cluster_low :: u16
  filesize :: u32

definition encode_entry :: "FAT32DirectoryEntry \<Rightarrow> u8 list" where
  "encode_entry e =
     de_name e @ de_ext e @ [attribute e, user_attribute e, undelete e] @
     le16 (create_time e) @ le16 (create_date e) @ le16 (access_date e) @ le16 (cluster_high e) @
     le16 (modified_time e) @ le16 (modified_date e) @ le16 (cluster_low e) @ le32 (filesize e)"

definition decode_entry :: "u8 list \<Rightarrow> FAT32DirectoryEntry" where
  "decode_entry bs =
     \<lparr> de_name = take 8 bs, de_ext = take 3 (drop 8 bs),
       attribute = bs ! 11, user_attribute = bs ! 12, undelete = bs ! 13,
       create_time = from_le16 (drop 14 bs), create_date = from_le16 (drop 16 bs),
       access_date = from_le16 (drop 18 bs), cluster_high = from_le16 (drop 20 bs),
       modified_time = from_le16 (drop 22 bs), modified_date = from_le16 (drop 24 bs),
       cluster_low = from_le16 (drop 26 bs), filesize = from_le32 (drop 28 bs) \<rparr>"

definition entry_wf :: "FAT32DirectoryEntry \<Rightarrow> bool" where
  "entry_wf e \<longleftrightarrow> length (de_name e) = 8 \<and> length (de_ext e) = 3"

text \<open>The entry a \<open>memset\<close> to zero leaves.\<close>

definition zero_entry :: FAT32DirectoryEntry where
  "zero_entry =
     \<lparr> de_name = replicate 8 0, de_ext = replicate 3 0, attribute = 0, user_attribute = 0,
       undelete = 0, create_time = 0, create_date = 0, access_date = 0, cluster_high = 0,
       modified_time = 0, modified_date = 0, cluster_low = 0, filesize = 0 \<rparr>"

lemma length_encode_entry [simp]: "entry_wf e \<Longrightarrow> length (encode_entry e) = 32"
  by (simp add: encode_entry_def entry_wf_def)

lemma entry_wf_zero [simp]: "entry_wf zero_entry"
  by (simp add: entry_wf_def zero_entry_def)

lemma entry_wf_decode [simp]: "length bs = 32 \<Longrightarrow> entry_wf (decode_entry bs)"
  by (simp add: entry_wf_def decode_entry_def)

lemma decode_encode_entry [codec]:
  assumes "entry_wf e" shows "decode_entry (encode_entry e) = e"
proof -
  let ?bs = "encode_entry e"
  have l: "length (de_name e) = 8" "length (de_ext e) = 3"
    using assms by (auto simp: entry_wf_def)
  note split = encode_entry_def l drop_append
  have "take 8 ?bs = de_name e" "take 3 (drop 8 ?bs) = de_ext e"
    by (simp_all add: split)
  moreover have "?bs ! 11 = attribute e" "?bs ! 12 = user_attribute e" "?bs ! 13 = undelete e"
    by (simp_all add: encode_entry_def l nth_append)
  moreover have "from_le16 (drop 14 ?bs) = create_time e" "from_le16 (drop 16 ?bs) = create_date e"
    "from_le16 (drop 18 ?bs) = access_date e" "from_le16 (drop 20 ?bs) = cluster_high e"
    "from_le16 (drop 22 ?bs) = modified_time e" "from_le16 (drop 24 ?bs) = modified_date e"
    "from_le16 (drop 26 ?bs) = cluster_low e"
    by (simp_all add: split codec)
  moreover have "from_le32 (drop 28 ?bs) = filesize e"
    using from_le32_le32 [of "filesize e" "[]"] by (simp add: split)
  ultimately show ?thesis by (simp add: decode_entry_def)
qed

lemma take_two: "Suc i < length bs \<Longrightarrow> take 2 (drop i bs) @ drop (i + 2) bs = drop i bs"
  by (metis append_take_drop_id drop_drop add.commute)

lemma le16_at:
  assumes "i + 2 \<le> length bs" shows "le16 (from_le16 (drop i bs)) = take 2 (drop i bs)"
  using le16_from_le16 [of "take 2 (drop i bs)" "drop (i + 2) bs"] take_two [of i bs] assms by simp

lemma encode_decode_entry [codec]:
  assumes "length bs = 32" shows "encode_entry (decode_entry bs) = bs"
proof -
  have "le32 (from_le32 (drop 28 bs)) = drop 28 bs"
    using le32_from_le32 [of "drop 28 bs" "[]"] assms by simp
  moreover have "[bs ! 11, bs ! 12, bs ! 13] = take 3 (drop 11 bs)"
    using assms by (intro nth_equalityI) (auto simp: less_Suc_eq numeral_3_eq_3)
  moreover have "take 2 (drop i bs) @ drop (i + 2) bs = drop i bs"
    and "take 3 (drop i bs) @ drop (i + 3) bs = drop i bs" for i
    by (metis append_take_drop_id drop_drop add.commute)+
  note this(1) [of 14] this(1) [of 16] this(1) [of 18] this(1) [of 20] this(1) [of 22]
    this(1) [of 24] this(1) [of 26] this(2) [of 8] this(2) [of 11]
  ultimately show ?thesis
    using assms append_take_drop_id [of 8 bs]
    by (simp add: encode_entry_def decode_entry_def le16_at)
qed

section \<open>Directory tables\<close>

type_synonym dir_table = "FAT32DirectoryEntry list"

definition encode_dir_table :: "dir_table \<Rightarrow> u8 list" where
  "encode_dir_table t = concat (map encode_entry t)"

definition decode_dir_table :: "u8 list \<Rightarrow> dir_table" where
  "decode_dir_table bs = map (\<lambda>i. decode_entry (take 32 (drop (32 * i) bs))) [0..<64]"

definition table_wf :: "dir_table \<Rightarrow> bool" where
  "table_wf t \<longleftrightarrow> length t = 64 \<and> (\<forall>e \<in> set t. entry_wf e)"

definition zero_table :: dir_table where
  "zero_table = replicate 64 zero_entry"

lemma table_wf_zero [simp]: "table_wf zero_table"
  by (simp add: table_wf_def zero_table_def)

lemma table_wf_nth: "table_wf t \<Longrightarrow> i < 64 \<Longrightarrow> entry_wf (t ! i)"
  by (simp add: table_wf_def)

lemma table_wf_update: "table_wf t \<Longrightarrow> entry_wf e \<Longrightarrow> table_wf (t[i := e])"
  by (auto simp: table_wf_def dest: set_update_subset_insert [THEN subsetD])

lemma length_decode_dir_table [simp]: "length (decode_dir_table bs) = 64"
  by (simp add: decode_dir_table_def)

lemma table_wf_decode [simp]: "length bs = 2048 \<Longrightarrow> table_wf (decode_dir_table bs)"
  by (auto simp: table_wf_def decode_dir_table_def)

lemma length_encode_dir_table [simp]: "table_wf t \<Longrightarrow> length (encode_dir_table t) = 2048"
  using length_concat_chunks [of "map encode_entry t" 32]
  by (simp add: encode_dir_table_def table_wf_def)

lemma decode_encode_dir_table [codec]:
  assumes "table_wf t" shows "decode_dir_table (encode_dir_table t) = t"
proof (rule nth_equalityI)
  show "length (decode_dir_table (encode_dir_table t)) = length t"
    using assms by (simp add: table_wf_def)
  fix i assume "i < length (decode_dir_table (encode_dir_table t))"
  then have i: "i < 64" by simp
  have "take 32 (drop (32 * i) (encode_dir_table t)) = encode_entry (t ! i)"
    using take_drop_concat_chunk [of "map encode_entry t" 32 i] assms i
    by (auto simp: encode_dir_table_def table_wf_def)
  then show "decode_dir_table (encode_dir_table t) ! i = t ! i"
    using i assms by (simp add: decode_dir_table_def codec table_wf_nth)
qed

lemma encode_decode_dir_table [codec]:
  assumes "length bs = 2048" shows "encode_dir_table (decode_dir_table bs) = bs"
proof -
  have "map encode_entry (decode_dir_table bs) = map (\<lambda>i. take 32 (drop (32 * i) bs)) [0..<64]"
    using assms by (auto simp: decode_dir_table_def codec)
  then show ?thesis
    using concat_take_drop_chunks [of bs 32 64] assms by (simp add: encode_dir_table_def)
qed

section \<open>The file allocation table\<close>

definition encode_fat :: "u32 list \<Rightarrow> u8 list" where
  "encode_fat cm = concat (map le32 cm)"

definition decode_fat :: "u8 list \<Rightarrow> u32 list" where
  "decode_fat bs = map (\<lambda>i. from_le32 (take 4 (drop (4 * i) bs))) [0..<CLUSTER_MAP_SIZE]"

lemma length_encode_fat [simp]: "length (encode_fat cm) = 4 * length cm"
  using length_concat_chunks [of "map le32 cm" 4] by (auto simp: encode_fat_def)

lemma length_decode_fat [simp]: "length (decode_fat bs) = CLUSTER_MAP_SIZE"
  by (simp add: decode_fat_def)

lemma decode_encode_fat [codec]:
  assumes "length cm = CLUSTER_MAP_SIZE" shows "decode_fat (encode_fat cm) = cm"
proof (rule nth_equalityI)
  fix i assume "i < length (decode_fat (encode_fat cm))"
  then have i: "i < 512" by simp
  have "take 4 (drop (4 * i) (encode_fat cm)) = le32 (cm ! i)"
    using take_drop_concat_chunk [of "map le32 cm" 4 i] assms i by (auto simp: encode_fat_def)
  then show "decode_fat (encode_fat cm) ! i = cm ! i"
    using i from_le32_le32 [of "cm ! i" "[]"] by (simp add: decode_fat_def)
qed (use assms in simp)

lemma encode_decode_fat [codec]:
  assumes "length bs = 2048" shows "encode_fat (decode_fat bs) = bs"
proof -
  have "le32 (from_le32 (take 4 (drop (4 * i) bs))) = take 4 (drop (4 * i) bs)" if "i < 512" for i
    using le32_from_le32 [of "take 4 (drop (4 * i) bs)" "[]"] that assms by simp
  then have "map le32 (decode_fat bs) = map (\<lambda>i. take 4 (drop (4 * i) bs)) [0..<512]"
    by (auto simp: decode_fat_def)
  then show ?thesis
    using concat_take_drop_chunks [of bs 4 512] assms by (simp add: encode_fat_def)
qed

section \<open>Cluster numbers in two halves\<close>

text \<open>\<open>(cluster_high << 16) | cluster_low\<close>, and the two halves an entry stores.\<close>

definition entry_cluster :: "FAT32DirectoryEntry \<Rightarrow> u32" where
  "entry_cluster e = push_bit 16 (ucast (cluster_high e)) OR ucast (cluster_low e)"

definition cluster_lo :: "u32 \<Rightarrow> u16" where
  "cluster_lo c = ucast (c AND 0xFFFF)"

definition cluster_hi :: "u32 \<Rightarrow> u16" where
  "cluster_hi c = ucast (drop_bit 16 c AND 0xFFFF)"

lemma ucast_and_ffff [wordlow]: "(ucast (c AND 0xFFFF) :: u16) = ucast (c :: u32)"
proof (rule bit_word_eqI)
  fix n assume "n < LENGTH(16)"
  then have "bit (0xFFFF :: u32) n"
    using bit_mask_iff [of 16 n, where ?'a = u32] by (simp add: mask_eq_exp_minus_1)
  then show "bit (ucast (c AND 0xFFFF) :: u16) n = bit (ucast c :: u16) n"
    by (simp add: bit_simps)
qed

lemma cluster_halves: "push_bit 16 (ucast (cluster_hi c)) OR ucast (cluster_lo c) = (c :: u32)"
  unfolding cluster_hi_def cluster_lo_def ucast_and_ffff
  by (rule bit_word_eqI) (auto simp: bit_simps)

lemma entry_cluster_halves [simp]:
  "cluster_low e = cluster_lo c \<Longrightarrow> cluster_high e = cluster_hi c \<Longrightarrow> entry_cluster e = c"
  by (simp add: entry_cluster_def cluster_halves)

end
