(* ===== verification/Fat32.thy ===== *)
theory Fat32
  imports Fat32_Layout Cmath
begin

text \<open>
  The filesystem driver \<open>src/src/fat32.c\<close>.  The state is the cached allocation table and directory
  buffer of \<open>fat32_driverstate\<close> together with the storage behind \<open>read_blocks\<close> and
  \<open>write_blocks\<close>.  A request's \<open>buf\<close> is an address; what a store or a load through it does depends
  on the address space in force, so the operations that follow it take a \<open>st\<close> (store) or an \<open>ld\<close>
  (load) function on an arbitrary memory type.  Structures on the C stack are values.  The two loops
  that follow a cluster chain need not end and may index outside the table: they return an
  \<open>option\<close> of a \<open>fault + _\<close>.
\<close>

section \<open>State and requests\<close>

record FAT32DriverRequest =
  rq_buf :: u32
  rq_name :: "u8 list"
  rq_ext :: "u8 list"
  parent_cluster_number :: u32
  buffer_size :: u32

record fat32 =
  cluster_map :: "u32 list"
  dir_table_buf :: dir_table
  cluster_buf :: "u8 list"
  storage :: disk

definition fs_signature :: "u8 list" where
  "fs_signature =
     map of_char (''Course          '' @ ''Designed by     '' @ ''Lab Sister ITB  '' @
                  ''Made with <3    '' @ ''-----------2024'') @ [10] @
     replicate 430 0 @ map of_char ''Ok''"

section \<open>Clusters\<close>

definition cluster_to_lba :: "u32 \<Rightarrow> u32" where
  "cluster_to_lba cluster = 4 * cluster"

definition write_clusters :: "u8 list \<Rightarrow> u32 \<Rightarrow> u8 \<Rightarrow> disk \<Rightarrow> disk" where
  "write_clusters ptr cluster_number cluster_count d =
     write_blocks ptr (cluster_to_lba cluster_number) (cluster_count * 4) d"

definition read_clusters :: "disk \<Rightarrow> u32 \<Rightarrow> u8 \<Rightarrow> u8 list" where
  "read_clusters d cluster_number cluster_count =
     read_blocks d (cluster_to_lba cluster_number) (cluster_count * 4)"

section \<open>Directory initialisation and mounting\<close>

text \<open>\<open>while (*name != 0 && i < 8) current_dir->name[i++] = *name++;\<close>\<close>

fun copy_name :: "u8 list \<Rightarrow> nat \<Rightarrow> u8 list \<Rightarrow> u8 list" where
  "copy_name (c # name) i dst =
     (if c \<noteq> 0 \<and> i < 8 then copy_name name (Suc i) (dst[i := c]) else dst)"
| "copy_name [] i dst = dst"

definition init_directory_table :: "disk \<Rightarrow> dir_table \<Rightarrow> u8 list \<Rightarrow> u32 \<Rightarrow> dir_table" where
  "init_directory_table d dir_table name parent_dir_cluster =
     (let current_dir = (dir_table ! 0)
            \<lparr> de_name := copy_name name 0 (replicate 8 0),
              attribute := ATTR_SUBDIRECTORY, user_attribute := UATTR_NOT_EMPTY \<rparr>;
          t = decode_dir_table (read_clusters d parent_dir_cluster 1);
          parent_dir = (dir_table ! 1)
            \<lparr> de_name := map (\<lambda>j. de_name (t ! 0) ! j) [0..<8],
              attribute := ATTR_SUBDIRECTORY, user_attribute := UATTR_NOT_EMPTY,
              cluster_low := cluster_lo parent_dir_cluster,
              cluster_high := cluster_hi parent_dir_cluster \<rparr>
      in dir_table[0 := current_dir, 1 := parent_dir])"

definition is_empty_storage :: "disk \<Rightarrow> bool" where
  "is_empty_storage d \<longleftrightarrow> memcmp_bytes (read_blocks d 0 1) fs_signature \<noteq> 0"

definition root_name :: "u8 list" where
  "root_name = map of_char ''root'' @ [0]"

text \<open>The name \<open>root\<close> is copied into the block byte by byte, up to its terminator.\<close>

definition create_fat32 :: "fat32 \<Rightarrow> fat32" where
  "create_fat32 s =
     (let d1 = write_blocks fs_signature 0 1 (storage s);
          fat_table = (replicate CLUSTER_MAP_SIZE 0)
            [0 := CLUSTER_0_VALUE, 1 := CLUSTER_1_VALUE, 2 := FAT32_FAT_END_OF_FILE];
          d2 = write_clusters (encode_fat fat_table) FAT_CLUSTER_NUMBER 1 d1;
          b = takeWhile (\<lambda>c. c \<noteq> 0) root_name @
              drop (length (takeWhile (\<lambda>c. c \<noteq> 0) root_name)) (replicate BLOCK_SIZE 0);
          d3 = write_blocks b (cluster_to_lba 2) 1 d2;
          dir_table = init_directory_table d3 zero_table root_name ROOT_CLUSTER_NUMBER;
          d4 = write_clusters (encode_dir_table dir_table) ROOT_CLUSTER_NUMBER 1 d3
      in s\<lparr> cluster_map := fat_table, dir_table_buf := dir_table, storage := d4 \<rparr>)"

definition initialize_filesystem_fat32 :: "fat32 \<Rightarrow> fat32" where
  "initialize_filesystem_fat32 s =
     (if is_empty_storage (storage s) then create_fat32 s
      else s\<lparr> cluster_map := decode_fat (read_clusters (storage s) FAT_CLUSTER_NUMBER 1) \<rparr>)"

section \<open>Looking for free slots\<close>

text \<open>The part of \<open>buf\<close> filled so far is the list; its length is the counter.\<close>

function count_slots_loop :: "u32 list \<Rightarrow> nat \<Rightarrow> nat \<Rightarrow> u32 list \<Rightarrow> u32 list" where
  "count_slots_loop cm required i buf =
     (if length buf < required \<and> i < CLUSTER_MAP_SIZE
      then count_slots_loop cm required (Suc i)
             (if cm ! i = FAT32_FAT_EMPTY_ENTRY then buf @ [of_nat i] else buf)
      else buf)"
  by pat_completeness auto
termination
  by (relation "measure (\<lambda>(cm, required, i, buf). CLUSTER_MAP_SIZE - i)") auto

declare count_slots_loop.simps [simp del]

definition count_empty_fat_slots :: "u32 list \<Rightarrow> u8 \<Rightarrow> u32 list" where
  "count_empty_fat_slots cm required = count_slots_loop cm (unat required) 0 []"

definition clusters_needed :: "u32 \<Rightarrow> u8" where
  "clusters_needed sz = ceil (f32_div (f32_of_u32 sz) (f32_of_u32 2048))"

section \<open>Reading\<close>

definition entry_matches :: "FAT32DriverRequest \<Rightarrow> FAT32DirectoryEntry \<Rightarrow> bool" where
  "entry_matches rq e \<longleftrightarrow>
     memcmp_bytes (de_name e) (rq_name rq) = 0 \<and> memcmp_bytes (de_ext e) (rq_ext rq) = 0"

definition read_directory ::
  "(u32 \<Rightarrow> u8 list \<Rightarrow> 'm \<Rightarrow> 'm) \<Rightarrow> fat32 \<Rightarrow> FAT32DriverRequest \<Rightarrow> 'm \<Rightarrow> int \<times> 'm" where
  "read_directory st s request m =
     (let dir_table = decode_dir_table (read_clusters (storage s) (parent_cluster_number request) 1)
      in case find (\<lambda>e. user_attribute e = UATTR_NOT_EMPTY \<and> entry_matches request e) dir_table of
           None \<Rightarrow> (2, m)
         | Some dir_entry \<Rightarrow>
             (if attribute dir_entry = ATTR_SUBDIRECTORY
              then (if buffer_size request < 32 then (- 1, m)
                    else (0, st (rq_buf request) (read_clusters (storage s) (entry_cluster dir_entry) 1) m))
              else (1, m)))"

partial_function (option) read_chain ::
  "(u32 \<Rightarrow> u8 list \<Rightarrow> 'm \<Rightarrow> 'm) \<Rightarrow> fat32 \<Rightarrow> u32 \<Rightarrow> u32 \<Rightarrow> u32 \<Rightarrow> 'm \<Rightarrow> (fault + 'm) option" where
  "read_chain st s buf current_cluster clusters_read m =
     (if current_cluster = FAT32_FAT_END_OF_FILE then Some (Inr m)
      else if unat current_cluster < CLUSTER_MAP_SIZE
      then read_chain st s buf (cluster_map s ! unat current_cluster) (clusters_read + 1)
             (st (buf + clusters_read * 2048) (read_clusters (storage s) current_cluster 1) m)
      else Some (Inl OutOfBounds))"

definition read ::
  "(u32 \<Rightarrow> u8 list \<Rightarrow> 'm \<Rightarrow> 'm) \<Rightarrow> fat32 \<Rightarrow> FAT32DriverRequest \<Rightarrow> 'm \<Rightarrow> (fault + int \<times> 'm) option" where
  "read st s request m =
     (if CLUSTER_MAP_SIZE \<le> unat (parent_cluster_number request) then Some (Inl OutOfBounds)
      else if cluster_map s ! unat (parent_cluster_number request) \<noteq> FAT32_FAT_END_OF_FILE
      then Some (Inr (2, m))
      else case find (entry_matches request)
                  (decode_dir_table (read_clusters (storage s) (parent_cluster_number request) 1)) of
             None \<Rightarrow> Some (Inr (2, m))
           | Some dir_entry \<Rightarrow>
               (if attribute dir_entry = 0x10 then Some (Inr (1, m))
                else if buffer_size request div 2048 < ucast (clusters_needed (filesize dir_entry))
                then Some (Inr (- 1, m))
                else map_option (map_sum id (Pair 0))
                       (read_chain st s (rq_buf request) (entry_cluster dir_entry) 0 m)))"

section \<open>Writing\<close>

text \<open>
  The scan of the parent table: \<open>None\<close> is the early \<open>return 1\<close> on an entry with the same name, and
  otherwise the result is \<open>dirtable_empty_slot\<close>.
\<close>

fun write_scan :: "FAT32DriverRequest \<Rightarrow> nat \<Rightarrow> dir_table \<Rightarrow> u8 \<Rightarrow> u8 option" where
  "write_scan rq i [] slot = Some slot"
| "write_scan rq i (e # es) slot =
     (let slot' = (if user_attribute e \<noteq> UATTR_NOT_EMPTY \<and> slot = 0 then of_nat i else slot)
      in if entry_matches rq e then None else write_scan rq (Suc i) es slot')"

definition write_folder :: "FAT32DriverRequest \<Rightarrow> u32 \<Rightarrow> fat32 \<Rightarrow> fat32" where
  "write_folder request c s =
     (let child_dir = init_directory_table (storage s) zero_table (rq_name request)
                        (parent_cluster_number request);
          child_dir' = child_dir[0 := (child_dir ! 0)
                        \<lparr> cluster_low := cluster_lo c, cluster_high := cluster_hi c \<rparr>];
          d1 = write_clusters (encode_dir_table child_dir') c 1 (storage s);
          cm = (cluster_map s)[unat c := FAT32_FAT_END_OF_FILE];
          d2 = write_clusters (encode_fat cm) FAT_CLUSTER_NUMBER 1 d1
      in s\<lparr> cluster_map := cm, storage := d2 \<rparr>)"

text \<open>One turn of the loop over \<open>slot_buf\<close>, and the loop.\<close>

definition write_cluster_step ::
  "(u32 \<Rightarrow> nat \<Rightarrow> 'm \<Rightarrow> u8 list) \<Rightarrow> 'm \<Rightarrow> u32 \<Rightarrow> u32 \<Rightarrow> u32 \<Rightarrow> fat32 \<Rightarrow> fat32" where
  "write_cluster_step ld m cluster_num next_cluster buf s =
     (let cm = (cluster_map s)[unat cluster_num := next_cluster];
          d1 = write_clusters (encode_fat cm) FAT_CLUSTER_NUMBER 1 (storage s);
          d2 = write_clusters (ld buf CLUSTER_SIZE m) cluster_num 1 d1
      in s\<lparr> cluster_map := cm, storage := d2 \<rparr>)"

fun write_chain ::
  "(u32 \<Rightarrow> nat \<Rightarrow> 'm \<Rightarrow> u8 list) \<Rightarrow> 'm \<Rightarrow> u32 list \<Rightarrow> u32 \<Rightarrow> fat32 \<Rightarrow> fat32" where
  "write_chain ld m [] buf s = s"
| "write_chain ld m (cluster_num # slots) buf s =
     write_chain ld m slots (buf + 2048)
       (write_cluster_step ld m cluster_num
          (case slots of [] \<Rightarrow> FAT32_FAT_END_OF_FILE | n # _ \<Rightarrow> n) buf s)"

definition new_entry :: "FAT32DriverRequest \<Rightarrow> bool \<Rightarrow> u32 \<Rightarrow> FAT32DirectoryEntry" where
  "new_entry request isFolder c = zero_entry
     \<lparr> de_name := map (\<lambda>a. rq_name request ! a) [0..<8],
       de_ext := map (\<lambda>b. rq_ext request ! b) [0..<3],
       attribute := (if isFolder then ATTR_SUBDIRECTORY else 0),
       user_attribute := UATTR_NOT_EMPTY,
       cluster_low := cluster_lo c, cluster_high := cluster_hi c,
       filesize := buffer_size request \<rparr>"

text \<open>
  With \<open>required = 0\<close>, which a size of exactly 256 clusters modulo 256 gives, \<open>slot_buf[0]\<close> is read
  without having been written.
\<close>

definition write_fat32 ::
  "(u32 \<Rightarrow> nat \<Rightarrow> 'm \<Rightarrow> u8 list) \<Rightarrow> 'm \<Rightarrow> FAT32DriverRequest \<Rightarrow> fat32 \<Rightarrow> fault + int \<times> fat32" where
  "write_fat32 ld m request s =
     (if CLUSTER_MAP_SIZE \<le> unat (parent_cluster_number request) then Inl OutOfBounds
      else if cluster_map s ! unat (parent_cluster_number request) \<noteq> FAT32_FAT_END_OF_FILE
      then Inr (2, s)
      else
        let dir_table = decode_dir_table (read_clusters (storage s) (parent_cluster_number request) 1)
        in case write_scan request 0 dir_table 0 of
             None \<Rightarrow> Inr (1, s)
           | Some dirtable_empty_slot \<Rightarrow>
               if dirtable_empty_slot = 0 then Inr (- 1, s)
               else
                 let isFolder = (buffer_size request = 0);
                     required = clusters_needed (buffer_size request) + (if isFolder then 1 else 0);
                     slot_buf = count_empty_fat_slots (cluster_map s) required
                 in if of_nat (length slot_buf) < required then Inr (- 1, s)
                    else if required = 0 then Inl Uninitialised
                    else
                      let s' = (if isFolder then write_folder request (hd slot_buf) s
                                else write_chain ld m slot_buf (rq_buf request) s);
                          dir_table' = dir_table[unat dirtable_empty_slot :=
                                         new_entry request isFolder (hd slot_buf)]
                      in Inr (0, s'\<lparr> storage := write_clusters (encode_dir_table dir_table')
                                     (parent_cluster_number request) 1 (storage s') \<rparr>))"

section \<open>Deleting\<close>

text \<open>The do-while loop over the chain: each cluster's table entry is cleared and its data zeroed.\<close>

partial_function (option) delete_chain ::
  "u32 \<Rightarrow> u32 list \<Rightarrow> disk \<Rightarrow> (fault + u32 list \<times> disk) option" where
  "delete_chain current_cluster cm d =
     (if CLUSTER_MAP_SIZE \<le> unat current_cluster then Some (Inl OutOfBounds)
      else
        (let next_cluster = cm ! unat current_cluster;
             cm' = cm[unat current_cluster := FAT32_FAT_EMPTY_ENTRY];
             d' = write_clusters (replicate CLUSTER_SIZE 0) current_cluster 1 d
         in if next_cluster \<noteq> FAT32_FAT_END_OF_FILE then delete_chain next_cluster cm' d'
            else Some (Inr (cm', d'))))"

definition folder_is_empty :: "dir_table \<Rightarrow> bool" where
  "folder_is_empty entry_table \<longleftrightarrow>
     find (\<lambda>j. user_attribute (entry_table ! j) = UATTR_NOT_EMPTY) [2..<64] = None"

definition delete :: "FAT32DriverRequest \<Rightarrow> fat32 \<Rightarrow> (fault + int \<times> fat32) option" where
  "delete request s =
     (if CLUSTER_MAP_SIZE \<le> unat (parent_cluster_number request) then Some (Inl OutOfBounds)
      else if cluster_map s ! unat (parent_cluster_number request) \<noteq> FAT32_FAT_END_OF_FILE
      then Some (Inr (2, s))
      else
        let dir_table = decode_dir_table (read_clusters (storage s) (parent_cluster_number request) 1)
        in case find (\<lambda>i. entry_matches request (dir_table ! i)) [2..<64] of
             None \<Rightarrow> Some (Inr (1, s))
           | Some i \<Rightarrow>
               let current_cluster = entry_cluster (dir_table ! i)
               in if attribute (dir_table ! i) = ATTR_SUBDIRECTORY \<and>
                     \<not> folder_is_empty (decode_dir_table (read_clusters (storage s) current_cluster 1))
                  then Some (Inr (2, s))
                  else
                    let d1 = write_clusters (encode_dir_table (dir_table[i := zero_entry]))
                               (parent_cluster_number request) 1 (storage s)
                    in map_option
                         (map_sum id (\<lambda>(cm, d2).
                            (0, s\<lparr> cluster_map := cm,
                                   storage := write_clusters (encode_fat cm) FAT_CLUSTER_NUMBER 1 d2 \<rparr>)))
                         (delete_chain current_cluster (cluster_map s) d1))"

end
