(* ===== verification/Process.thy ===== *)
theory Process
  imports Paging_Props Fat32
begin

text \<open>
  Processes, \<open>src/src/process.c\<close>.  The kernel state joins the process manager, the process control
  blocks, the page manager, the filesystem driver and physical memory.  A
  \<open>struct ProcessControlBlock *\<close> is always an element of \<open>_process_list\<close> and is modelled by its
  index.  Loading an executable stores through the new process's page directory.
\<close>

section \<open>Structures\<close>

record CPURegister =
  reg_edi :: u32
  reg_esi :: u32
  reg_ebp :: u32
  reg_esp :: u32
  reg_ebx :: u32
  reg_edx :: u32
  reg_ecx :: u32
  reg_eax :: u32
  reg_gs :: u32
  reg_fs :: u32
  reg_es :: u32
  reg_ds :: u32

record Context =
  cpu :: CPURegister
  eip :: u32
  eflags :: u32
  page_directory_virtual_addr :: u32

datatype PROCESS_STATE = PROCESS_STATE_RUNNING | PROCESS_STATE_READY | PROCESS_STATE_BLOCKED

record ProcessControlBlock =
  pcb_pid :: u32
  pname :: "u8 list"
  pstate :: PROCESS_STATE
  pcontext :: Context
  virtual_addr_used :: "u32 list"
  data_virtual_addr_used :: "bool list"
  page_frame_used_count :: u32

record kernel =
  process_list_used :: "bool list"
  active_process_count :: u32
  current_running_pid :: u32
  process_list :: "ProcessControlBlock list"
  paging_state :: paging
  filesystem :: fat32
  phys :: mem

abbreviation (input) PROCESS_NAME_LENGTH_MAX :: nat where "PROCESS_NAME_LENGTH_MAX \<equiv> 32"
abbreviation (input) PROCESS_PAGE_FRAME_COUNT_MAX :: nat where "PROCESS_PAGE_FRAME_COUNT_MAX \<equiv> 8"
abbreviation (input) PROCESS_COUNT_MAX :: nat where "PROCESS_COUNT_MAX \<equiv> 16"
abbreviation (input) NO_PROCESS_RUNNING :: u32 where "NO_PROCESS_RUNNING \<equiv> 0xFFFFFFFF"
abbreviation (input) USER_STACK :: u32 where "USER_STACK \<equiv> KERNEL_VIRTUAL_ADDRESS_BASE - 4"
abbreviation (input) GDT_USER_DATA_SEGMENT_SELECTOR :: u32 where "GDT_USER_DATA_SEGMENT_SELECTOR \<equiv> 0x20"
abbreviation (input) CPU_EFLAGS_BASE_FLAG :: u32 where "CPU_EFLAGS_BASE_FLAG \<equiv> 0x2"
abbreviation (input) CPU_EFLAGS_FLAG_INTERRUPT_ENABLE :: u32 where "CPU_EFLAGS_FLAG_INTERRUPT_ENABLE \<equiv> 0x200"

abbreviation (input) PROCESS_CREATE_SUCCESS :: int where "PROCESS_CREATE_SUCCESS \<equiv> 0"
abbreviation (input) PROCESS_CREATE_FAIL_MAX_PROCESS_EXCEEDED :: int
  where "PROCESS_CREATE_FAIL_MAX_PROCESS_EXCEEDED \<equiv> 1"
abbreviation (input) PROCESS_CREATE_FAIL_INVALID_ENTRYPOINT :: int
  where "PROCESS_CREATE_FAIL_INVALID_ENTRYPOINT \<equiv> 2"
abbreviation (input) PROCESS_CREATE_FAIL_NOT_ENOUGH_MEMORY :: int
  where "PROCESS_CREATE_FAIL_NOT_ENOUGH_MEMORY \<equiv> 3"
abbreviation (input) PROCESS_CREATE_FAIL_FS_READ_FAILURE :: int
  where "PROCESS_CREATE_FAIL_FS_READ_FAILURE \<equiv> 4"

definition zero_cpu :: CPURegister where
  "zero_cpu = \<lparr> reg_edi = 0, reg_esi = 0, reg_ebp = 0, reg_esp = 0, reg_ebx = 0, reg_edx = 0, reg_ecx = 0, reg_eax = 0,
     reg_gs = 0, reg_fs = 0, reg_es = 0, reg_ds = 0 \<rparr>"

definition zero_context :: Context where
  "zero_context = \<lparr> cpu = zero_cpu, eip = 0, eflags = 0, page_directory_virtual_addr = 0 \<rparr>"

text \<open>The block a \<open>memset\<close> to zero leaves; the first enumerator is 0.\<close>

definition zero_pcb :: ProcessControlBlock where
  "zero_pcb = \<lparr> pcb_pid = 0, pname = replicate PROCESS_NAME_LENGTH_MAX 0, pstate = PROCESS_STATE_RUNNING,
     pcontext = zero_context, virtual_addr_used = replicate PROCESS_PAGE_FRAME_COUNT_MAX 0,
     data_virtual_addr_used = replicate PROCESS_PAGE_FRAME_COUNT_MAX False, page_frame_used_count = 0 \<rparr>"

text \<open>The state when the kernel starts.\<close>

definition initial_kernel :: "paging \<Rightarrow> fat32 \<Rightarrow> mem \<Rightarrow> kernel" where
  "initial_kernel pg f m = \<lparr> process_list_used = replicate PROCESS_COUNT_MAX False, active_process_count = 0,
     current_running_pid = NO_PROCESS_RUNNING, process_list = replicate PROCESS_COUNT_MAX zero_pcb,
     paging_state = pg, filesystem = f, phys = m \<rparr>"

definition upd_pcb :: "nat \<Rightarrow> (ProcessControlBlock \<Rightarrow> ProcessControlBlock) \<Rightarrow> kernel \<Rightarrow> kernel" where
  "upd_pcb p f k = k\<lparr> process_list := (process_list k)[p := f (process_list k ! p)] \<rparr>"

section \<open>Operations\<close>

definition process_list_get_inactive_index :: "kernel \<Rightarrow> nat option" where
  "process_list_get_inactive_index k = find (\<lambda>i. \<not> process_list_used k ! i) [0..<PROCESS_COUNT_MAX]"

text \<open>\<open>None\<close> is the null pointer; an index past the list is a pointer past the array.\<close>

definition process_get_current_running_pcb_pointer :: "kernel \<Rightarrow> nat option" where
  "process_get_current_running_pcb_pointer k =
     (if current_running_pid k = NO_PROCESS_RUNNING then None else Some (unat (current_running_pid k)))"

text \<open>
  The loop that returns the page frames; \<open>junk i\<close> are the uninitialised flags that
  \<open>paging_free_user_page_frame\<close> uses in turn \<open>i\<close>.
\<close>

fun destroy_frames ::
  "(nat \<Rightarrow> PageDirectoryEntryFlag) \<Rightarrow> u32 \<Rightarrow> ProcessControlBlock \<Rightarrow> nat list \<Rightarrow> paging \<Rightarrow> fault + paging" where
  "destroy_frames junk page_dir pcb [] pg = Inr pg"
| "destroy_frames junk page_dir pcb (i # is) pg =
     (if data_virtual_addr_used pcb ! i
      then and_then (paging_free_user_page_frame (junk i) page_dir (virtual_addr_used pcb ! i) pg)
             (\<lambda>(_, pg'). destroy_frames junk page_dir pcb is pg')
      else destroy_frames junk page_dir pcb is pg)"

definition process_destroy :: "(nat \<Rightarrow> PageDirectoryEntryFlag) \<Rightarrow> u32 \<Rightarrow> kernel \<Rightarrow> fault + bool \<times> kernel" where
  "process_destroy junk p k =
     (if of_nat PROCESS_COUNT_MAX \<le> p then Inr (False, k)
      else
        let pcb = process_list k ! unat p;
            page_dir = page_directory_virtual_addr (pcontext pcb)
        in and_then (destroy_frames junk page_dir pcb [0..<PROCESS_PAGE_FRAME_COUNT_MAX] (paging_state k))
             (\<lambda>pg. Inr (True, k\<lparr>
                paging_state := snd (paging_free_page_directory page_dir pg),
                process_list := (process_list k)[unat p := zero_pcb],
                process_list_used := (process_list_used k)[unat p := False],
                active_process_count := active_process_count k - 1 \<rparr>)))"

definition process_allocate_page_frame :: "nat \<Rightarrow> u32 \<Rightarrow> kernel \<Rightarrow> fault + kernel" where
  "process_allocate_page_frame p virtual_addr k =
     (let pcb = process_list k ! p
      in if of_nat PROCESS_PAGE_FRAME_COUNT_MAX \<le> page_frame_used_count pcb then Inr k
         else case find (\<lambda>i. \<not> data_virtual_addr_used pcb ! i) [0..<PROCESS_PAGE_FRAME_COUNT_MAX] of
                None \<Rightarrow> Inr k
              | Some i \<Rightarrow>
                  let k' = upd_pcb p (\<lambda>b. b\<lparr>
                        data_virtual_addr_used := (data_virtual_addr_used b)[i := True],
                        virtual_addr_used := (virtual_addr_used b)[i := virtual_addr],
                        page_frame_used_count := page_frame_used_count b + 1 \<rparr>) k
                  in map_sum id (\<lambda>(_, pg). k'\<lparr> paging_state := pg \<rparr>)
                       (paging_allocate_user_page_frame (page_directory_virtual_addr (pcontext pcb))
                          virtual_addr (paging_state k')))"

definition process_deallocate_page_frame ::
  "PageDirectoryEntryFlag \<Rightarrow> nat \<Rightarrow> u32 \<Rightarrow> kernel \<Rightarrow> fault + kernel" where
  "process_deallocate_page_frame junk p virtual_addr k =
     (let pcb = process_list k ! p
      in case find (\<lambda>i. data_virtual_addr_used pcb ! i \<and> virtual_addr_used pcb ! i = virtual_addr)
                [0..<PROCESS_PAGE_FRAME_COUNT_MAX] of
           None \<Rightarrow> Inr k
         | Some i \<Rightarrow>
             let k' = upd_pcb p (\<lambda>b. b\<lparr>
                   data_virtual_addr_used := (data_virtual_addr_used b)[i := False],
                   virtual_addr_used := (virtual_addr_used b)[i := 0],
                   page_frame_used_count := page_frame_used_count b - 1 \<rparr>) k
             in map_sum id (\<lambda>(_, pg). k'\<lparr> paging_state := pg \<rparr>)
                  (paging_free_user_page_frame junk (page_directory_virtual_addr (pcontext pcb))
                     virtual_addr (paging_state k')))"

section \<open>Creation\<close>

definition page_frames_needed :: "u32 \<Rightarrow> u32" where
  "page_frames_needed sz = ceil_div (sz + PAGE_FRAME_SIZE) PAGE_FRAME_SIZE"

text \<open>
  The block of a process that has been claimed but not loaded: the memory bookkeeping is reset and
  the page directory set, everything else is what the slot held before.
\<close>

definition claim_pcb :: "u32 \<Rightarrow> ProcessControlBlock \<Rightarrow> ProcessControlBlock" where
  "claim_pcb page_dir b = b\<lparr>
     data_virtual_addr_used := replicate PROCESS_PAGE_FRAME_COUNT_MAX False,
     virtual_addr_used := replicate PROCESS_PAGE_FRAME_COUNT_MAX 0,
     page_frame_used_count := 0,
     pcontext := (pcontext b)\<lparr> page_directory_virtual_addr := page_dir \<rparr> \<rparr>"

definition process_claim :: "FAT32DriverRequest \<Rightarrow> nat \<Rightarrow> kernel \<Rightarrow> fault + kernel" where
  "process_claim request p k =
     (let (new_page_dir, pg) = paging_create_new_page_directory (paging_state k);
          k1 = upd_pcb p (claim_pcb new_page_dir)
                 (k\<lparr> active_process_count := active_process_count k + 1,
                     process_list_used := (process_list_used k)[p := True],
                     paging_state := paging_use_page_directory new_page_dir pg \<rparr>)
      in and_then (process_allocate_page_frame p (rq_buf request) k1)
           (\<lambda>k2. process_allocate_page_frame p USER_STACK k2))"

definition init_pcb :: "FAT32DriverRequest \<Rightarrow> nat \<Rightarrow> ProcessControlBlock \<Rightarrow> ProcessControlBlock" where
  "init_pcb request p b = b\<lparr>
     pcontext := (pcontext b)\<lparr>
       cpu := zero_cpu\<lparr> reg_ds := GDT_USER_DATA_SEGMENT_SELECTOR OR 0x3, reg_es := GDT_USER_DATA_SEGMENT_SELECTOR OR 0x3,
         reg_fs := GDT_USER_DATA_SEGMENT_SELECTOR OR 0x3, reg_gs := GDT_USER_DATA_SEGMENT_SELECTOR OR 0x3,
         reg_ebp := USER_STACK, reg_esp := USER_STACK \<rparr>,
       eip := rq_buf request,
       eflags := CPU_EFLAGS_BASE_FLAG OR CPU_EFLAGS_FLAG_INTERRUPT_ENABLE \<rparr>,
     pcb_pid := of_nat p,
     pstate := PROCESS_STATE_READY,
     pname := take 8 (rq_name request) @ replicate (PROCESS_NAME_LENGTH_MAX - 8) 0 \<rparr>"

text \<open>The directory the MMU uses, and a read of the executable through it.\<close>

definition current_directory :: "paging \<Rightarrow> page_directory option" where
  "current_directory pg = map_option (get_pd pg) (pd_deref pg (cr3 pg + KERNEL_VIRTUAL_ADDRESS_BASE))"

definition load_executable :: "FAT32DriverRequest \<Rightarrow> kernel \<Rightarrow> (fault + int \<times> kernel) option" where
  "load_executable request k =
     (case current_directory (paging_state k) of
        None \<Rightarrow> Some (Inl BadPointer)
      | Some pd \<Rightarrow>
          map_option (\<lambda>r. and_then r (\<lambda>(code, m). case m of
              None \<Rightarrow> Inl PageFault
            | Some m' \<Rightarrow> Inr (code, k\<lparr> phys := m' \<rparr>)))
            (read (paged_store pd) (filesystem k) request (Some (phys k))))"

definition process_create_user_process :: "FAT32DriverRequest \<Rightarrow> kernel \<Rightarrow> (fault + int \<times> kernel) option" where
  "process_create_user_process request k =
     (if of_nat PROCESS_COUNT_MAX \<le> active_process_count k
      then Some (Inr (PROCESS_CREATE_FAIL_MAX_PROCESS_EXCEEDED, k))
      else if KERNEL_VIRTUAL_ADDRESS_BASE \<le> rq_buf request
      then Some (Inr (PROCESS_CREATE_FAIL_INVALID_ENTRYPOINT, k))
      else
        let page_frame_count_needed = page_frames_needed (buffer_size request)
        in if \<not> paging_allocate_check page_frame_count_needed (paging_state k) \<or>
              of_nat PROCESS_PAGE_FRAME_COUNT_MAX < page_frame_count_needed
           then Some (Inr (PROCESS_CREATE_FAIL_NOT_ENOUGH_MEMORY, k))
           else case process_list_get_inactive_index k of
                  None \<Rightarrow> Some (Inl OutOfBounds)
                | Some p \<Rightarrow>
                    let prev_page_dir = paging_get_current_page_directory_addr (paging_state k)
                    in case process_claim request p k of
                         Inl e \<Rightarrow> Some (Inl e)
                       | Inr k1 \<Rightarrow>
                           map_option (\<lambda>r. and_then r (\<lambda>(code, k2).
                             let k3 = k2\<lparr> paging_state := paging_use_page_directory prev_page_dir (paging_state k2) \<rparr>
                             in if code \<noteq> 0 then Inr (PROCESS_CREATE_FAIL_FS_READ_FAILURE, k3)
                                else Inr (PROCESS_CREATE_SUCCESS, upd_pcb p (init_pcb request p) k3)))
                             (load_executable request k1))"

end
