(* ===== verification/Process_Props.thy ===== *)
theory Process_Props
  imports Process
begin

text \<open>
  Correctness of process creation and destruction: bookkeeping invariants, the state a new process
  starts in, the return codes, and what a destroyed process gives back.
\<close>

section \<open>The page manager as processes use it\<close>

definition alloc_pg :: "pd_id \<Rightarrow> u32 \<Rightarrow> paging \<Rightarrow> paging" where
  "alloc_pg d va s = (if free_page_frame_count s = 0 then s
     else case lowest_free s of None \<Rightarrow> s | Some i \<Rightarrow> allocated i d va s)"

definition free_pg :: "PageDirectoryEntryFlag \<Rightarrow> pd_id \<Rightarrow> u32 \<Rightarrow> paging \<Rightarrow> paging" where
  "free_pg junk d va s = (if frame_at s d (page_index va) = 0 then s else freed junk d va s)"

text \<open>
  The contract processes rely on: with a directory of the layout neither operation faults, both keep
  the invariant and the directories' places and marks, an allocation touches one entry of one
  directory, and a release clears that entry's frame.
\<close>

locale frame_pool =
  fixes inv :: "'s \<Rightarrow> bool"
    and allocate :: "'d \<Rightarrow> u32 \<Rightarrow> 's \<Rightarrow> 's" and release :: "'j \<Rightarrow> 'd \<Rightarrow> u32 \<Rightarrow> 's \<Rightarrow> 's"
    and names :: "'s \<Rightarrow> 'd \<Rightarrow> nat \<Rightarrow> nat" and marked :: "'s \<Rightarrow> nat \<Rightarrow> bool" and valid :: "'d \<Rightarrow> bool"
  assumes allocate_inv: "inv s \<Longrightarrow> valid d \<Longrightarrow> inv (allocate d va s)"
    and release_inv: "inv s \<Longrightarrow> valid d \<Longrightarrow> inv (release j d va s)"
    and allocate_other: "inv s \<Longrightarrow> valid d \<Longrightarrow> (d', i) \<noteq> (d, page_index va) \<Longrightarrow>
          names (allocate d va s) d' i = names s d' i"
    and release_names: "inv s \<Longrightarrow> valid d \<Longrightarrow>
          names (release j d va s) d' i = (if (d', i) = (d, page_index va) then 0 else names s d' i)"
    and release_marked: "inv s \<Longrightarrow> valid d \<Longrightarrow> f \<noteq> 0 \<Longrightarrow>
          marked (release j d va s) f \<longleftrightarrow> marked s f \<and> names s d (page_index va) \<noteq> f"
begin

text \<open>Releasing a list of pages clears exactly their entries.\<close>

definition release_all :: "'d \<Rightarrow> ('j \<times> u32) list \<Rightarrow> 's \<Rightarrow> 's" where
  "release_all d = fold (\<lambda>(j, va). release j d va)"

lemma release_all_inv: "inv s \<Longrightarrow> valid d \<Longrightarrow> inv (release_all d ps s)"
  unfolding release_all_def by (induction ps arbitrary: s) (auto simp: release_inv)

lemma release_all_names:
  "inv s \<Longrightarrow> valid d \<Longrightarrow>
     names (release_all d ps s) d' i = (if d' = d \<and> i \<in> (page_index \<circ> snd) ` set ps then 0 else names s d' i)"
proof (induction ps arbitrary: s)
  case Nil
  then show ?case by (simp add: release_all_def)
next
  case (Cons p ps)
  obtain j va where p: "p = (j, va)" by force
  have "names (release_all d ps (release j d va s)) d' i =
      (if d' = d \<and> i \<in> (page_index \<circ> snd) ` set ps then 0 else names (release j d va s) d' i)"
    using Cons.prems by (intro Cons.IH release_inv)
  then show ?case
    using release_names [OF Cons.prems] by (auto simp: release_all_def p)
qed

lemma release_all_marked:
  "inv s \<Longrightarrow> valid d \<Longrightarrow> f \<noteq> 0 \<Longrightarrow>
     marked (release_all d ps s) f \<longleftrightarrow> marked s f \<and> (\<forall>p \<in> set ps. names s d (page_index (snd p)) \<noteq> f)"
proof (induction ps arbitrary: s)
  case Nil
  then show ?case by (simp add: release_all_def)
next
  case (Cons p ps)
  obtain j va where p: "p = (j, va)" by force
  have "marked (release_all d ps (release j d va s)) f \<longleftrightarrow> marked (release j d va s) f \<and>
      (\<forall>p \<in> set ps. names (release j d va s) d (page_index (snd p)) \<noteq> f)"
    using Cons.prems by (intro Cons.IH release_inv)
  then show ?case
    using release_names [OF Cons.prems(1,2)] release_marked [OF Cons.prems] Cons.prems(3) by (auto simp: release_all_def p)
qed

end

lemma alloc_pg_inv:
  assumes "paging_inv s" and "pd_valid d" shows "paging_inv (alloc_pg d va s)"
  using assms allocated_inv(1) [OF assms] by (auto simp: alloc_pg_def lowest_free_Some split: option.splits)

interpretation pool: frame_pool paging_inv alloc_pg free_pg frame_at "\<lambda>s f. page_frame_map s ! f" pd_valid
proof unfold_locales
  fix s d va assume "paging_inv s" "pd_valid d"
  then show "paging_inv (alloc_pg d va s)" by (rule alloc_pg_inv)
next
  fix s d va and j :: PageDirectoryEntryFlag assume a: "paging_inv s" "pd_valid d"
  show "paging_inv (free_pg j d va s)" using a freed_inv(1) [OF a] by (auto simp: free_pg_def)
next
  fix s d va d' i assume a: "paging_inv s" "pd_valid d" "(d', i) \<noteq> (d, page_index va)"
  show "frame_at (alloc_pg d va s) d' i = frame_at s d' i"
    using a(3) allocated_inv(2) [OF a(1,2)] by (auto simp: alloc_pg_def lowest_free_Some split: option.splits)
next
  fix s d va d' i and j :: PageDirectoryEntryFlag assume a: "paging_inv s" "pd_valid d"
  show "frame_at (free_pg j d va s) d' i = (if (d', i) = (d, page_index va) then 0 else frame_at s d' i)"
    using freed_inv(2) [OF a] by (auto simp: free_pg_def)
next
  fix s d va and f :: nat and j :: PageDirectoryEntryFlag assume a: "paging_inv s" "pd_valid d" "f \<noteq> 0"
  have "length (page_frame_map s) = 32" using paging_invD(3) [OF a(1)] by (simp add: pool_wf_def)
  then show "page_frame_map (free_pg j d va s) ! f \<longleftrightarrow> page_frame_map s ! f \<and> frame_at s d (page_index va) \<noteq> f"
    using ownedD(1) [OF paging_invD(4) [OF a(1)] a(2) page_index_less, of va] a(3)
    by (auto simp: free_pg_def freed_def nth_list_update)
qed

lemma alloc_call:
  assumes "layout_ok s" and "pd_valid d"
  shows "\<exists>r. paging_allocate_user_page_frame (pd_addr s d) va s = Inr (r, alloc_pg d va s)"
  using allocate_eq [OF assms] by (auto simp: alloc_pg_def split: option.splits)

lemma free_call:
  assumes "paging_inv s" and "pd_valid d"
  shows "\<exists>r. paging_free_user_page_frame junk (pd_addr s d) va s = Inr (r, free_pg junk d va s)"
  using free_eq [OF assms] by (auto simp: free_pg_def)

lemma pg_static [simp]:
  "page_directory_used (alloc_pg d va s) = page_directory_used s" "pd_list_addr (alloc_pg d va s) = pd_list_addr s"
  "kernel_pd_addr (alloc_pg d va s) = kernel_pd_addr s"
  "page_directory_used (free_pg j d va s) = page_directory_used s" "pd_list_addr (free_pg j d va s) = pd_list_addr s"
  "kernel_pd_addr (free_pg j d va s) = kernel_pd_addr s"
  by (auto simp: alloc_pg_def allocated_def free_pg_def freed_def split: option.splits)

lemma user_pd_addr_cong: "pd_list_addr s' = pd_list_addr s \<Longrightarrow> user_pd_addr s' = user_pd_addr s"
  by (simp add: user_pd_addr_def fun_eq_iff)

lemma pd_addr_cong: "pd_list_addr s' = pd_list_addr s \<Longrightarrow> kernel_pd_addr s' = kernel_pd_addr s \<Longrightarrow> pd_addr s' d = pd_addr s d"
  by (simp add: pd_addr_def user_pd_addr_def split: pd_id.split)

lemma cr3_set_pd [simp]: "cr3 (set_pd d t s) = cr3 s"
  by (cases d) simp_all

lemma cr3_alloc_pg [simp]: "cr3 (alloc_pg d va s) = cr3 s"
  by (auto simp: alloc_pg_def allocated_def put_entry_def split: option.splits)

section \<open>The invariant of the process manager\<close>

definition pcb_dir :: "kernel \<Rightarrow> nat \<Rightarrow> u32" where
  "pcb_dir k p = page_directory_virtual_addr (pcontext (process_list k ! p))"

definition pcb_pages :: "ProcessControlBlock \<Rightarrow> nat set" where
  "pcb_pages b = {page_index (virtual_addr_used b ! i) | i. i < 8 \<and> data_virtual_addr_used b ! i}"

definition pcb_wf :: "ProcessControlBlock \<Rightarrow> bool" where
  "pcb_wf b \<longleftrightarrow> length (virtual_addr_used b) = 8 \<and> length (data_virtual_addr_used b) = 8 \<and>
     page_frame_used_count b = of_nat (count_used (data_virtual_addr_used b))"

definition table_ok :: "kernel \<Rightarrow> bool" where
  "table_ok k \<longleftrightarrow> length (process_list_used k) = 16 \<and> length (process_list k) = 16 \<and>
     active_process_count k = of_nat (count_used (process_list_used k)) \<and>
     (\<forall>p < 16. pcb_wf (process_list k ! p))"

text \<open>
  Every process in use has a page directory of its own, marked as used; a directory in use belongs to
  a process; and a directory of a process names frames only at pages the process has on record.
\<close>

definition dirs_ok :: "kernel \<Rightarrow> bool" where
  "dirs_ok k \<longleftrightarrow>
     (\<forall>p < 16. process_list_used k ! p \<longrightarrow>
        (\<exists>i < 32. pcb_dir k p = user_pd_addr (paging_state k) i \<and> page_directory_used (paging_state k) ! i \<and>
           (\<forall>j < 1024. frame_at (paging_state k) (UserPD i) j \<noteq> 0 \<longrightarrow> j \<in> pcb_pages (process_list k ! p)))) \<and>
     (\<forall>p < 16. \<forall>q < 16. process_list_used k ! p \<and> process_list_used k ! q \<and> pcb_dir k p = pcb_dir k q \<longrightarrow> p = q) \<and>
     (\<forall>i < 32. page_directory_used (paging_state k) ! i \<longrightarrow>
        (\<exists>p < 16. process_list_used k ! p \<and> pcb_dir k p = user_pd_addr (paging_state k) i))"

definition proc_inv :: "kernel \<Rightarrow> bool" where
  "proc_inv k \<longleftrightarrow> paging_inv (paging_state k) \<and> table_ok k \<and> dirs_ok k"

lemma proc_invD: "proc_inv k \<Longrightarrow> paging_inv (paging_state k)" "proc_inv k \<Longrightarrow> table_ok k" "proc_inv k \<Longrightarrow> dirs_ok k"
  by (simp_all add: proc_inv_def)

lemma count_u32:
  assumes "table_ok k" shows "unat (active_process_count k) = count_used (process_list_used k)"
proof -
  have "count_used (process_list_used k) \<le> 16" using assms count_used_le [of "process_list_used k"] by (simp add: table_ok_def)
  then have "unat (of_nat (count_used (process_list_used k)) :: u32) = count_used (process_list_used k)"
    by (intro unat_of_nat_less) simp
  then show ?thesis using assms by (simp add: table_ok_def)
qed

lemma slot_found:
  assumes "table_ok k" and "\<not> 16 \<le> active_process_count k"
  shows "\<exists>p. process_list_get_inactive_index k = Some p \<and> p < 16 \<and> \<not> process_list_used k ! p"
proof -
  have "count_used (process_list_used k) \<noteq> length (process_list_used k)"
    using assms count_u32 [OF assms(1)] by (auto simp: table_ok_def word_le_nat_alt)
  then obtain i where "i < 16" "\<not> process_list_used k ! i"
    using count_used_full [of "process_list_used k"] assms(1) by (auto simp: table_ok_def)
  then have "find (\<lambda>i. \<not> process_list_used k ! i) [0..<16] \<noteq> None" unfolding find_upt_None by blast
  then show ?thesis
    unfolding process_list_get_inactive_index_def using find_upt_Some by blast
qed

text \<open>There are more directories than processes, so one is free.\<close>

lemma directory_found:
  assumes "proc_inv k"
  shows "\<exists>i. find (\<lambda>i. \<not> page_directory_used (paging_state k) ! i) [0..<32] = Some i \<and> i < 32 \<and>
    \<not> page_directory_used (paging_state k) ! i"
proof -
  let ?pg = "paging_state k"
  have "\<exists>i < 32. \<not> page_directory_used ?pg ! i"
  proof (rule ccontr)
    assume "\<not> (\<exists>i < 32. \<not> page_directory_used ?pg ! i)"
    then have "\<forall>i < 32. \<exists>p < 16. pcb_dir k p = user_pd_addr ?pg i"
      using proc_invD(3) [OF assms] unfolding dirs_ok_def by blast
    then obtain f where f: "\<And>i. i < 32 \<Longrightarrow> f i < 16 \<and> pcb_dir k (f i) = user_pd_addr ?pg i" by metis
    then have "inj_on f {..<32}"
      using user_pd_addr_inj [OF paging_invD(1) [OF proc_invD(1) [OF assms]]] by (metis inj_onI lessThan_iff)
    moreover have "f ` {..<32} \<subseteq> {..<16}" using f by auto
    ultimately have "card {..<32 :: nat} \<le> card {..<16 :: nat}" by (metis card_inj_on_le finite_lessThan)
    then show False by simp
  qed
  then have "find (\<lambda>i. \<not> page_directory_used ?pg ! i) [0..<32] \<noteq> None" unfolding find_upt_None by blast
  then show ?thesis using find_upt_Some by blast
qed

section \<open>Claiming a slot\<close>

text \<open>The page manager's state after a process has been claimed in slot \<open>p\<close> with directory \<open>i\<close>.\<close>

definition claimed_pg :: "FAT32DriverRequest \<Rightarrow> nat \<Rightarrow> paging \<Rightarrow> paging" where
  "claimed_pg rq i pg = alloc_pg (UserPD i) USER_STACK (alloc_pg (UserPD i) (rq_buf rq)
     (paging_use_page_directory (user_pd_addr pg i) (put_directory i True (zero_directory[0x300 := kernel_pde]) pg)))"

definition claimed_pcb :: "FAT32DriverRequest \<Rightarrow> u32 \<Rightarrow> ProcessControlBlock \<Rightarrow> ProcessControlBlock" where
  "claimed_pcb rq page_dir b = (claim_pcb page_dir b)\<lparr>
     data_virtual_addr_used := [True, True, False, False, False, False, False, False],
     virtual_addr_used := [rq_buf rq, USER_STACK, 0, 0, 0, 0, 0, 0], page_frame_used_count := 2 \<rparr>"

definition claimed :: "FAT32DriverRequest \<Rightarrow> nat \<Rightarrow> nat \<Rightarrow> kernel \<Rightarrow> kernel" where
  "claimed rq p i k = k\<lparr> active_process_count := active_process_count k + 1,
     process_list_used := (process_list_used k)[p := True],
     process_list := (process_list k)[p := claimed_pcb rq (user_pd_addr (paging_state k) i) (process_list k ! p)],
     paging_state := claimed_pg rq i (paging_state k) \<rparr>"

lemma replicate_8: "replicate 8 x = [x, x, x, x, x, x, x, x]"
  by (simp add: numeral_eq_Suc)

lemma allocate_frame_step:
  assumes "p < length (process_list k)" and "process_list k ! p = b"
    and "page_frame_used_count b < 8" and "find (\<lambda>i. \<not> data_virtual_addr_used b ! i) [0..<8] = Some i"
    and "layout_ok (paging_state k)" and "pd_valid d"
    and "page_directory_virtual_addr (pcontext b) = pd_addr (paging_state k) d"
  shows "process_allocate_page_frame p va k = Inr (k\<lparr>
    process_list := (process_list k)[p := b\<lparr> data_virtual_addr_used := (data_virtual_addr_used b)[i := True],
      virtual_addr_used := (virtual_addr_used b)[i := va], page_frame_used_count := page_frame_used_count b + 1 \<rparr>],
    paging_state := alloc_pg d va (paging_state k) \<rparr>)"
proof -
  obtain r where "paging_allocate_user_page_frame (pd_addr (paging_state k) d) va (paging_state k) =
      Inr (r, alloc_pg d va (paging_state k))"
    using alloc_call [OF assms(5,6)] by blast
  then show ?thesis
    using assms by (simp add: process_allocate_page_frame_def upd_pcb_def Let_def not_le del: upt.simps)
qed

lemma claim_eq:
  assumes inv: "proc_inv k" and p: "p < 16"
    and i: "find (\<lambda>i. \<not> page_directory_used (paging_state k) ! i) [0..<32] = Some i"
  shows "process_claim rq p k = Inr (claimed rq p i k)"
proof -
  let ?pg = "paging_state k"
  have i': "i < 32" using i unfolding find_upt_Some by simp
  have l: "length (process_list k) = 16" using proc_invD(2) [OF inv] by (simp add: table_ok_def)
  let ?pg1 = "paging_use_page_directory (user_pd_addr ?pg i) (put_directory i True (zero_directory[0x300 := kernel_pde]) ?pg)"
  let ?b1 = "claim_pcb (user_pd_addr ?pg i) (process_list k ! p)"
  let ?k1 = "k\<lparr> active_process_count := active_process_count k + 1, process_list_used := (process_list_used k)[p := True],
      paging_state := ?pg1, process_list := (process_list k)[p := ?b1] \<rparr>"
  have inv1: "paging_inv ?pg1"
    using put_directory_inv [OF proc_invD(1) [OF inv] i'] new_directory_entries(1,2) by (simp add: use_keeps)
  have a1: "pd_addr ?pg1 (UserPD i) = user_pd_addr ?pg i"
    by (simp add: pd_addr_def user_pd_addr_def paging_use_page_directory_def put_directory_def)
  have s1: "process_allocate_page_frame p (rq_buf rq) ?k1 = Inr (?k1\<lparr>
      process_list := (process_list ?k1)[p := ?b1\<lparr> data_virtual_addr_used := (data_virtual_addr_used ?b1)[0 := True],
        virtual_addr_used := (virtual_addr_used ?b1)[0 := rq_buf rq], page_frame_used_count := page_frame_used_count ?b1 + 1 \<rparr>],
      paging_state := alloc_pg (UserPD i) (rq_buf rq) (paging_state ?k1) \<rparr>)"
    using p l i' a1 paging_invD(1) [OF inv1]
    by (intro allocate_frame_step) (simp_all add: claim_pcb_def find_upt_Some del: upt.simps)
  let ?k2 = "?k1\<lparr>
      process_list := (process_list ?k1)[p := ?b1\<lparr> data_virtual_addr_used := (data_virtual_addr_used ?b1)[0 := True],
        virtual_addr_used := (virtual_addr_used ?b1)[0 := rq_buf rq], page_frame_used_count := page_frame_used_count ?b1 + 1 \<rparr>],
      paging_state := alloc_pg (UserPD i) (rq_buf rq) (paging_state ?k1) \<rparr>"
  have inv2: "paging_inv (paging_state ?k2)"
    using pool.allocate_inv [OF inv1, of "UserPD i"] i' by simp
  have a2: "pd_addr (paging_state ?k2) (UserPD i) = user_pd_addr ?pg i"
    using a1 pd_addr_cong [of "alloc_pg (UserPD i) (rq_buf rq) ?pg1" ?pg1 "UserPD i"] by simp
  have "process_allocate_page_frame p USER_STACK ?k2 = Inr (claimed rq p i k)"
    using p l i' a2 paging_invD(1) [OF inv2]
    by (subst allocate_frame_step [where d = "UserPD i" and i = 1 and b = "process_list ?k2 ! p"])
       (simp_all add: claim_pcb_def find_upt_Some claimed_def claimed_pg_def claimed_pcb_def replicate_8 del: upt.simps)
  then show ?thesis
    using s1 i by (simp add: process_claim_def create_directory_eq upd_pcb_def Let_def del: upt.simps)
qed

lemma claimed_pg_facts:
  assumes inv: "paging_inv pg" and i: "i < 32"
  shows "paging_inv (claimed_pg rq i pg)" (is ?inv)
    and "d \<noteq> UserPD i \<Longrightarrow> frame_at (claimed_pg rq i pg) d j = frame_at pg d j"
    and "j < 1024 \<Longrightarrow> j \<notin> {page_index (rq_buf rq), page_index USER_STACK} \<Longrightarrow> frame_at (claimed_pg rq i pg) (UserPD i) j = 0"
    and "page_directory_used (claimed_pg rq i pg) = (page_directory_used pg)[i := True]"
    and "user_pd_addr (claimed_pg rq i pg) = user_pd_addr pg" and "kernel_pd_addr (claimed_pg rq i pg) = kernel_pd_addr pg"
proof -
  let ?pg1 = "paging_use_page_directory (user_pd_addr pg i) (put_directory i True (zero_directory[0x300 := kernel_pde]) pg)"
  have v: "pd_valid (UserPD i)" using i by simp
  have inv1: "paging_inv ?pg1"
    using put_directory_inv [OF inv i] new_directory_entries(1,2) by (simp add: use_keeps)
  note inv2 = pool.allocate_inv [OF inv1 v, of "rq_buf rq"]
  show ?inv unfolding claimed_pg_def by (rule pool.allocate_inv [OF inv2 v])
  have fr: "frame_at (claimed_pg rq i pg) d j = frame_at ?pg1 d j"
    if "d \<noteq> UserPD i \<or> j \<notin> {page_index (rq_buf rq), page_index USER_STACK}" for d j
  proof -
    have "frame_at (claimed_pg rq i pg) d j = frame_at (alloc_pg (UserPD i) (rq_buf rq) ?pg1) d j"
      unfolding claimed_pg_def using that by (intro pool.allocate_other [OF inv2 v]) auto
    also have "\<dots> = frame_at ?pg1 d j" using that by (intro pool.allocate_other [OF inv1 v]) auto
    finally show ?thesis .
  qed
  have one: "frame_at ?pg1 d j = unat (lower_address ((if d = UserPD i then zero_directory[0x300 := kernel_pde] else get_pd pg d) ! j))" for d j
    using get_put_directory [OF paging_invD(2) [OF inv] i, of True "zero_directory[0x300 := kernel_pde]" d]
    by (simp add: frame_at_def paging_use_page_directory_def)
  show "d \<noteq> UserPD i \<Longrightarrow> frame_at (claimed_pg rq i pg) d j = frame_at pg d j"
    using fr [of d j] one [of d j] by (simp add: frame_at_def)
  have z: "lower_address ((zero_directory[0x300 := kernel_pde]) ! j) = 0" if "j < 1024" for j
    using that by (intro new_directory_entries(2) nth_mem) (simp add: new_directory_entries(4))
  show "j < 1024 \<Longrightarrow> j \<notin> {page_index (rq_buf rq), page_index USER_STACK} \<Longrightarrow> frame_at (claimed_pg rq i pg) (UserPD i) j = 0"
    using fr [of "UserPD i" j] one [of "UserPD i" j] z by simp
  show "page_directory_used (claimed_pg rq i pg) = (page_directory_used pg)[i := True]"
    "kernel_pd_addr (claimed_pg rq i pg) = kernel_pd_addr pg"
    by (simp_all add: claimed_pg_def paging_use_page_directory_def put_directory_def)
  show "user_pd_addr (claimed_pg rq i pg) = user_pd_addr pg"
    by (rule user_pd_addr_cong) (simp add: claimed_pg_def paging_use_page_directory_def put_directory_def)
qed

lemma claimed_pcb_wf: "pcb_wf (claimed_pcb rq a b)" and claimed_pcb_pages: "pcb_pages (claimed_pcb rq a b) = {page_index (rq_buf rq), page_index USER_STACK}"
proof -
  have nth: "i < 8 \<and> [True, True, False, False, False, False, False, False] ! i \<longleftrightarrow> i = 0 \<or> i = 1" for i
    by (auto simp: nth_Cons' split: if_splits)
  show "pcb_pages (claimed_pcb rq a b) = {page_index (rq_buf rq), page_index USER_STACK}"
    unfolding pcb_pages_def claimed_pcb_def by (auto simp: nth intro: exI [where x = 0] exI [where x = "Suc 0"])
  show "pcb_wf (claimed_pcb rq a b)" by (simp add: pcb_wf_def claimed_pcb_def count_used_def)
qed

lemma claimed_inv:
  assumes inv: "proc_inv k" and p: "p < 16" "\<not> process_list_used k ! p"
    and i: "i < 32" "\<not> page_directory_used (paging_state k) ! i"
  shows "proc_inv (claimed rq p i k)"
proof -
  let ?k = "claimed rq p i k" and ?pg = "paging_state k"
  note wf = proc_invD [OF inv] and pf = claimed_pg_facts [OF proc_invD(1) [OF inv] i(1), where rq = rq]
  have l: "length (process_list k) = 16" "length (process_list_used k) = 16" "length (page_directory_used ?pg) = 32"
    using wf(2) paging_invD(2) [OF wf(1)] by (auto simp: table_ok_def dirs_wf_def)
  have tab: "table_ok ?k"
    using wf(2) p l claimed_pcb_wf by (auto simp: table_ok_def claimed_def nth_list_update)
  have dir: "pcb_dir ?k q = (if q = p then user_pd_addr ?pg i else pcb_dir k q)" if "q < 16" for q
    using that l by (simp add: pcb_dir_def claimed_def claimed_pcb_def claim_pcb_def)
  have used: "process_list_used ?k ! q \<longleftrightarrow> q = p \<or> process_list_used k ! q" if "q < 16" for q
    using that l by (cases "q = p") (auto simp: claimed_def)
  have pages: "process_list ?k ! q = (if q = p then claimed_pcb rq (user_pd_addr ?pg i) (process_list k ! p) else process_list k ! q)"
    if "q < 16" for q using that l by (simp add: claimed_def)
  have pg: "paging_state ?k = claimed_pg rq i ?pg" by (simp add: claimed_def)
  have fresh: "pcb_dir k q \<noteq> user_pd_addr ?pg i" if "q < 16" "process_list_used k ! q" for q
    using wf(3) that i user_pd_addr_inj [OF paging_invD(1) [OF wf(1)]] unfolding dirs_ok_def by metis
  have "\<exists>i' < 32. pcb_dir ?k q = user_pd_addr ?pg i' \<and> page_directory_used (paging_state ?k) ! i' \<and>
      (\<forall>j < 1024. frame_at (paging_state ?k) (UserPD i') j \<noteq> 0 \<longrightarrow> j \<in> pcb_pages (process_list ?k ! q))"
    if q: "q < 16" "process_list_used ?k ! q" for q
  proof (cases "q = p")
    case True
    have "j \<in> {page_index (rq_buf rq), page_index USER_STACK}" if "j < 1024" "frame_at (claimed_pg rq i ?pg) (UserPD i) j \<noteq> 0" for j
      using pf(3) [of j] that by blast
    then show ?thesis
      using i(1) l(3) q(1) True unfolding pg pf(4)
      by (intro exI [where x = i]) (simp add: dir pages claimed_pcb_pages)
  next
    case False
    then obtain i' where i': "i' < 32" "pcb_dir k q = user_pd_addr ?pg i'" "page_directory_used ?pg ! i'"
      "\<forall>j < 1024. frame_at ?pg (UserPD i') j \<noteq> 0 \<longrightarrow> j \<in> pcb_pages (process_list k ! q)"
      using wf(3) used [OF q(1)] q unfolding dirs_ok_def by blast
    moreover have "i' \<noteq> i" using i(2) i'(3) by auto
    ultimately show ?thesis
      using False pf(2) [of "UserPD i'"] q(1) unfolding pg pf(4) by (intro exI [where x = i']) (auto simp: dir pages)
  qed
  moreover have "a = b" if "a < 16" "b < 16" "process_list_used ?k ! a" "process_list_used ?k ! b" "pcb_dir ?k a = pcb_dir ?k b" for a b
    using that used dir fresh wf(3) unfolding dirs_ok_def by (metis (full_types))
  moreover have "\<exists>q < 16. process_list_used ?k ! q \<and> pcb_dir ?k q = user_pd_addr ?pg i'"
    if i': "i' < 32" "page_directory_used (paging_state ?k) ! i'" for i'
  proof (cases "i' = i")
    case True
    then show ?thesis using p(1) used dir by auto
  next
    case False
    then have "page_directory_used ?pg ! i'" using i'(2) unfolding pg pf(4) by simp
    then obtain q where "q < 16" "process_list_used k ! q" "pcb_dir k q = user_pd_addr ?pg i'"
      using i'(1) wf(3) unfolding dirs_ok_def by blast
    then show ?thesis using used dir p(2) by metis
  qed
  ultimately have "dirs_ok ?k"
    unfolding dirs_ok_def pg pf(5) by blast
  with tab pf(1) show ?thesis by (simp add: proc_inv_def pg)
qed

section \<open>Creation\<close>

lemma claimed_directory:
  assumes inv: "proc_inv k" and i: "i < 32"
  shows "current_directory (paging_state (claimed rq p i k)) = Some (get_pd (claimed_pg rq i (paging_state k)) (UserPD i))"
proof -
  let ?pg = "paging_state k"
  note pf = claimed_pg_facts [OF proc_invD(1) [OF inv] i, where rq = rq]
  have high: "KERNEL_VIRTUAL_ADDRESS_BASE < user_pd_addr ?pg i"
    by (rule user_pd_addr_high [OF paging_invD(1) [OF proc_invD(1) [OF inv]] i])
  then have "cr3 (claimed_pg rq i ?pg) + KERNEL_VIRTUAL_ADDRESS_BASE = pd_addr (claimed_pg rq i ?pg) (UserPD i)"
    by (simp add: claimed_pg_def paging_use_page_directory_def pd_addr_def
        user_pd_addr_cong [OF pg_static(2)]) (simp add: user_pd_addr_def put_directory_def)
  then show ?thesis
    using pd_deref_addr [OF paging_invD(1) [OF pf(1)], of "UserPD i"] i
    by (simp add: current_directory_def claimed_def)
qed

lemma claimed_simps [simp]: "filesystem (claimed rq p i k) = filesystem k" "phys (claimed rq p i k) = phys k"
  by (simp_all add: claimed_def)

text \<open>The checks a creation makes before it claims anything.\<close>

definition admits :: "FAT32DriverRequest \<Rightarrow> kernel \<Rightarrow> bool" where
  "admits rq k \<longleftrightarrow> active_process_count k < 16 \<and> rq_buf rq < KERNEL_VIRTUAL_ADDRESS_BASE \<and>
     paging_allocate_check (page_frames_needed (buffer_size rq)) (paging_state k) \<and> page_frames_needed (buffer_size rq) \<le> 8"

lemma create_admitted:
  assumes inv: "proc_inv k" and ok: "admits rq k"
  obtains p i where "p < 16" "\<not> process_list_used k ! p" "process_list_get_inactive_index k = Some p"
    "i < 32" "\<not> page_directory_used (paging_state k) ! i"
    "process_create_user_process rq k =
      map_option (\<lambda>r. and_then r (\<lambda>(code, k2).
        let k3 = k2\<lparr> paging_state := paging_use_page_directory (cr3 (paging_state k) + KERNEL_VIRTUAL_ADDRESS_BASE) (paging_state k2) \<rparr>
        in if code \<noteq> 0 then Inr (PROCESS_CREATE_FAIL_FS_READ_FAILURE, k3)
           else Inr (PROCESS_CREATE_SUCCESS, upd_pcb p (init_pcb rq p) k3)))
      (map_option (\<lambda>r. and_then r (\<lambda>(code, m). case m of None \<Rightarrow> Inl PageFault
          | Some m' \<Rightarrow> Inr (code, (claimed rq p i k)\<lparr> phys := m' \<rparr>)))
        (read (paged_store (get_pd (claimed_pg rq i (paging_state k)) (UserPD i))) (filesystem k) rq (Some (phys k))))"
proof -
  obtain p where p: "process_list_get_inactive_index k = Some p" "p < 16" "\<not> process_list_used k ! p"
    using slot_found [OF proc_invD(2) [OF inv]] ok by (auto simp: admits_def not_le)
  obtain i where i: "find (\<lambda>i. \<not> page_directory_used (paging_state k) ! i) [0..<32] = Some i" "i < 32"
      "\<not> page_directory_used (paging_state k) ! i"
    using directory_found [OF inv] by blast
  have "load_executable rq (claimed rq p i k) = map_option (\<lambda>r. and_then r (\<lambda>(code, m). case m of None \<Rightarrow> Inl PageFault
          | Some m' \<Rightarrow> Inr (code, (claimed rq p i k)\<lparr> phys := m' \<rparr>)))
        (read (paged_store (get_pd (claimed_pg rq i (paging_state k)) (UserPD i))) (filesystem k) rq (Some (phys k)))"
    using claimed_directory [OF inv i(2), of rq p] by (simp add: load_executable_def)
  moreover have "\<not> 16 \<le> active_process_count k" "\<not> KERNEL_VIRTUAL_ADDRESS_BASE \<le> rq_buf rq"
    "paging_allocate_check (page_frames_needed (buffer_size rq)) (paging_state k)" "\<not> 8 < page_frames_needed (buffer_size rq)"
    using ok by (simp_all add: admits_def not_le not_less)
  ultimately show thesis
    using p i claim_eq [OF inv p(2) i(1), of rq]
    by (intro that [of p i])
       (simp_all add: process_create_user_process_def Let_def paging_get_current_page_directory_addr_def)
qed

definition loaded :: "FAT32DriverRequest \<Rightarrow> nat \<Rightarrow> nat \<Rightarrow> mem \<Rightarrow> kernel \<Rightarrow> kernel" where
  "loaded rq p i m k = (claimed rq p i k)\<lparr> phys := m,
     paging_state := paging_use_page_directory (cr3 (paging_state k) + KERNEL_VIRTUAL_ADDRESS_BASE)
       (claimed_pg rq i (paging_state k)) \<rparr>"

lemma create_result:
  assumes inv: "proc_inv k" and ok: "admits rq k" and r: "process_create_user_process rq k = Some (Inr (c, k'))"
  obtains p i code m where "p < 16" "\<not> process_list_used k ! p" "process_list_get_inactive_index k = Some p"
    "i < 32" "\<not> page_directory_used (paging_state k) ! i"
    "read (paged_store (get_pd (claimed_pg rq i (paging_state k)) (UserPD i))) (filesystem k) rq (Some (phys k)) =
       Some (Inr (code, Some m))"
    "(c, k') = (if code \<noteq> 0 then (4, loaded rq p i m k) else (0, upd_pcb p (init_pcb rq p) (loaded rq p i m k)))"
proof -
  have paging: "paging_state (claimed rq p i k) = claimed_pg rq i (paging_state k)" for p i by (simp add: claimed_def)
  obtain p i where pi: "p < 16" "\<not> process_list_used k ! p" "process_list_get_inactive_index k = Some p"
    "i < 32" "\<not> page_directory_used (paging_state k) ! i" and
    eq: "process_create_user_process rq k =
      map_option (\<lambda>r. and_then r (\<lambda>(code, k2).
        let k3 = k2\<lparr> paging_state := paging_use_page_directory (cr3 (paging_state k) + KERNEL_VIRTUAL_ADDRESS_BASE) (paging_state k2) \<rparr>
        in if code \<noteq> 0 then Inr (PROCESS_CREATE_FAIL_FS_READ_FAILURE, k3)
           else Inr (PROCESS_CREATE_SUCCESS, upd_pcb p (init_pcb rq p) k3)))
      (map_option (\<lambda>r. and_then r (\<lambda>(code, m). case m of None \<Rightarrow> Inl PageFault
          | Some m' \<Rightarrow> Inr (code, (claimed rq p i k)\<lparr> phys := m' \<rparr>)))
        (read (paged_store (get_pd (claimed_pg rq i (paging_state k)) (UserPD i))) (filesystem k) rq (Some (phys k))))"
    using create_admitted [OF inv ok] by blast
  let ?read = "read (paged_store (get_pd (claimed_pg rq i (paging_state k)) (UserPD i))) (filesystem k) rq (Some (phys k))"
  obtain x where x: "?read = Some x" using r unfolding eq by (cases ?read) simp_all
  obtain code mo where y: "x = Inr (code, mo)" using r x unfolding eq by (cases x) auto
  obtain m where m: "mo = Some m" using r x y unfolding eq by (cases mo) simp_all
  have "(c, k') = (if code \<noteq> 0 then (4, loaded rq p i m k) else (0, upd_pcb p (init_pcb rq p) (loaded rq p i m k)))"
    using r x y m unfolding eq by (simp add: loaded_def paging Let_def split: if_splits)
  then show thesis using that pi x y m by blast
qed

text \<open>Changing only \<open>cr3\<close>, physical memory, or the parts of a block that are not bookkeeping keeps the invariant.\<close>

lemma proc_inv_cong:
  assumes "proc_inv k" and "process_list_used k' = process_list_used k" and "active_process_count k' = active_process_count k"
    and "paging_state k' = paging_use_page_directory a (paging_state k)" and "length (process_list k') = length (process_list k)"
    and "\<And>q. q < 16 \<Longrightarrow> virtual_addr_used (process_list k' ! q) = virtual_addr_used (process_list k ! q) \<and>
       data_virtual_addr_used (process_list k' ! q) = data_virtual_addr_used (process_list k ! q) \<and>
       page_frame_used_count (process_list k' ! q) = page_frame_used_count (process_list k ! q) \<and> pcb_dir k' q = pcb_dir k q"
  shows "proc_inv k'"
proof -
  have "pcb_wf (process_list k' ! q) = pcb_wf (process_list k ! q)" "pcb_pages (process_list k' ! q) = pcb_pages (process_list k ! q)"
    if "q < 16" for q using assms(6) [OF that] by (simp_all add: pcb_wf_def pcb_pages_def)
  moreover have "frame_at (paging_state k') = frame_at (paging_state k)" "user_pd_addr (paging_state k') = user_pd_addr (paging_state k)"
    "page_directory_used (paging_state k') = page_directory_used (paging_state k)"
    by (simp_all add: assms(4) fun_eq_iff frame_at_def user_pd_addr_def paging_use_page_directory_def)
  ultimately show ?thesis
    using assms(1) assms(6) unfolding proc_inv_def table_ok_def dirs_ok_def assms(2,3,5)
    by (simp add: assms(4) use_keeps) metis
qed

text \<open>
  When the checks pass, the claims of a slot, a directory and the frames succeed, and the creation ends
  as the read of the executable through the new directory does.
\<close>

lemma create_as_read:
  assumes "proc_inv k" and "admits rq k"
  shows "\<exists>p < 16. \<exists>i < 32. process_list_get_inactive_index k = Some p \<and> \<not> process_list_used k ! p \<and>
    \<not> page_directory_used (paging_state k) ! i \<and>
    (case read (paged_store (get_pd (claimed_pg rq i (paging_state k)) (UserPD i))) (filesystem k) rq (Some (phys k)) of
       None \<Rightarrow> process_create_user_process rq k = None
     | Some (Inl e) \<Rightarrow> process_create_user_process rq k = Some (Inl e)
     | Some (Inr (code, None)) \<Rightarrow> process_create_user_process rq k = Some (Inl PageFault)
     | Some (Inr (code, Some m)) \<Rightarrow>
         \<exists>k'. process_create_user_process rq k = Some (Inr (if code = 0 then 0 else 4, k')))"
proof -
  obtain p i where pi: "p < 16" "\<not> process_list_used k ! p" "process_list_get_inactive_index k = Some p"
    "i < 32" "\<not> page_directory_used (paging_state k) ! i" and
    eq: "process_create_user_process rq k =
      map_option (\<lambda>r. and_then r (\<lambda>(code, k2).
        let k3 = k2\<lparr> paging_state := paging_use_page_directory (cr3 (paging_state k) + KERNEL_VIRTUAL_ADDRESS_BASE) (paging_state k2) \<rparr>
        in if code \<noteq> 0 then Inr (PROCESS_CREATE_FAIL_FS_READ_FAILURE, k3)
           else Inr (PROCESS_CREATE_SUCCESS, upd_pcb p (init_pcb rq p) k3)))
      (map_option (\<lambda>r. and_then r (\<lambda>(code, m). case m of None \<Rightarrow> Inl PageFault
          | Some m' \<Rightarrow> Inr (code, (claimed rq p i k)\<lparr> phys := m' \<rparr>)))
        (read (paged_store (get_pd (claimed_pg rq i (paging_state k)) (UserPD i))) (filesystem k) rq (Some (phys k))))"
    using create_admitted [OF assms] by blast
  have "case read (paged_store (get_pd (claimed_pg rq i (paging_state k)) (UserPD i))) (filesystem k) rq (Some (phys k)) of
       None \<Rightarrow> process_create_user_process rq k = None
     | Some (Inl e) \<Rightarrow> process_create_user_process rq k = Some (Inl e)
     | Some (Inr (code, None)) \<Rightarrow> process_create_user_process rq k = Some (Inl PageFault)
     | Some (Inr (code, Some m)) \<Rightarrow>
         \<exists>k'. process_create_user_process rq k = Some (Inr (if code = 0 then 0 else 4, k'))"
    unfolding eq by (auto simp add: Let_def simp del: get_pd.simps split: option.split sum.split prod.split)
  with pi show ?thesis by blast
qed

text \<open>
  C21: The checks of a creation, in order, each with its code and an unchanged state: 1 when 16
  processes are active, 2 when the load address is in the kernel's half, 3 when the page manager
  refuses or the size needs more than 8 frames.  Whenever these checks pass, there is a free slot and a
  free directory, claiming them and the frames does not fault, and the creation ends as the read of the
  executable through the new directory does: with code 0 when the read returns 0, with 4 when it returns
  another code, with a page fault when it stores outside the mapped pages, and with no result when it has
  none.
\<close>

theorem create_refusals:
  assumes "proc_inv k"
  shows "(16 \<le> active_process_count k \<longrightarrow> process_create_user_process rq k = Some (Inr (1, k))) \<and>
    (active_process_count k < 16 \<and> KERNEL_VIRTUAL_ADDRESS_BASE \<le> rq_buf rq \<longrightarrow>
       process_create_user_process rq k = Some (Inr (2, k))) \<and>
    (active_process_count k < 16 \<and> rq_buf rq < KERNEL_VIRTUAL_ADDRESS_BASE \<and>
      (\<not> paging_allocate_check (page_frames_needed (buffer_size rq)) (paging_state k) \<or> 8 < page_frames_needed (buffer_size rq)) \<longrightarrow>
       process_create_user_process rq k = Some (Inr (3, k))) \<and>
    (admits rq k \<longrightarrow>
      (\<exists>p < 16. \<exists>i < 32. process_list_get_inactive_index k = Some p \<and> \<not> process_list_used k ! p \<and>
        \<not> page_directory_used (paging_state k) ! i \<and>
        (case read (paged_store (get_pd (claimed_pg rq i (paging_state k)) (UserPD i))) (filesystem k) rq (Some (phys k)) of
           None \<Rightarrow> process_create_user_process rq k = None
         | Some (Inl e) \<Rightarrow> process_create_user_process rq k = Some (Inl e)
         | Some (Inr (code, None)) \<Rightarrow> process_create_user_process rq k = Some (Inl PageFault)
         | Some (Inr (code, Some m)) \<Rightarrow>
             \<exists>k'. process_create_user_process rq k = Some (Inr (if code = 0 then 0 else 4, k')))))"
  by (intro conjI impI create_as_read [OF assms])
     (auto simp: process_create_user_process_def not_le not_less Let_def)

lemma loaded_inv:
  assumes inv: "proc_inv k" and "p < 16" "\<not> process_list_used k ! p" and "i < 32" "\<not> page_directory_used (paging_state k) ! i"
  shows "proc_inv (loaded rq p i m k)" and "proc_inv (upd_pcb p (init_pcb rq p) (loaded rq p i m k))"
proof -
  have c: "proc_inv (claimed rq p i k)" by (rule claimed_inv [OF assms])
  then show "proc_inv (loaded rq p i m k)"
    by (rule proc_inv_cong) (simp_all add: loaded_def pcb_dir_def, simp add: claimed_def)
  have l: "length (process_list (claimed rq p i k)) = 16"
    using proc_invD(2) [OF c] by (simp add: table_ok_def)
  from c show "proc_inv (upd_pcb p (init_pcb rq p) (loaded rq p i m k))"
  proof (rule proc_inv_cong)
    show "paging_state (upd_pcb p (init_pcb rq p) (loaded rq p i m k)) =
        paging_use_page_directory (cr3 (paging_state k) + KERNEL_VIRTUAL_ADDRESS_BASE) (paging_state (claimed rq p i k))"
      by (simp add: upd_pcb_def loaded_def claimed_def)
    fix q :: nat assume "q < 16"
    with l show "virtual_addr_used (process_list (upd_pcb p (init_pcb rq p) (loaded rq p i m k)) ! q) =
          virtual_addr_used (process_list (claimed rq p i k) ! q) \<and>
        data_virtual_addr_used (process_list (upd_pcb p (init_pcb rq p) (loaded rq p i m k)) ! q) =
          data_virtual_addr_used (process_list (claimed rq p i k) ! q) \<and>
        page_frame_used_count (process_list (upd_pcb p (init_pcb rq p) (loaded rq p i m k)) ! q) =
          page_frame_used_count (process_list (claimed rq p i k) ! q) \<and>
        pcb_dir (upd_pcb p (init_pcb rq p) (loaded rq p i m k)) q = pcb_dir (claimed rq p i k) q"
      by (cases "q = p") (simp_all add: upd_pcb_def loaded_def init_pcb_def pcb_dir_def)
  qed (simp_all add: upd_pcb_def loaded_def)
qed

lemma create_code_admits:
  assumes "proc_inv k" and "process_create_user_process rq k = Some (Inr (c, k'))" and "c \<in> {0, 4}"
  shows "admits rq k"
  using assms(2,3) unfolding process_create_user_process_def admits_def Let_def
  by (auto simp: not_le not_less split: if_splits)

text \<open>
  C26: A successful creation puts the process into the lowest free slot: its block has the slot's
  index as process id, the ready state, the load address as entry point, both stack registers just
  below the kernel's half, user data segments of ring 3, interrupts enabled, and the file's name; the
  counter is one higher, the other blocks are untouched, \<open>cr3\<close> is restored when it held a directory's
  address, and the bookkeeping invariant holds.
\<close>

theorem create_success:
  assumes inv: "proc_inv k" and c: "process_create_user_process rq k = Some (Inr (0, k'))" and r: "cr3 (paging_state k) = pd_addr (paging_state k) d - KERNEL_VIRTUAL_ADDRESS_BASE" "pd_valid d"
  shows "\<exists>p < 16. process_list_get_inactive_index k = Some p \<and> process_list_used k' = (process_list_used k)[p := True] \<and>
    active_process_count k' = active_process_count k + 1 \<and> proc_inv k' \<and> cr3 (paging_state k') = cr3 (paging_state k) \<and>
    (\<forall>q. q \<noteq> p \<longrightarrow> process_list k' ! q = process_list k ! q) \<and>
    (let b = process_list k' ! p; r = cpu (pcontext b) in
       pcb_pid b = of_nat p \<and> pstate b = PROCESS_STATE_READY \<and> eip (pcontext b) = rq_buf rq \<and>
       reg_esp r = 0xBFFFFFFC \<and> reg_ebp r = 0xBFFFFFFC \<and> reg_ds r = 0x23 \<and> reg_es r = 0x23 \<and> reg_fs r = 0x23 \<and> reg_gs r = 0x23 \<and>
       eflags (pcontext b) = 0x202 \<and> pname b = take 8 (rq_name rq) @ replicate 24 0)"
proof -
  have ok: "admits rq k" by (rule create_code_admits [OF inv c]) simp
  obtain p i code m where p: "p < 16" "\<not> process_list_used k ! p" "process_list_get_inactive_index k = Some p"
    and i: "i < 32" "\<not> page_directory_used (paging_state k) ! i"
    and "read (paged_store (get_pd (claimed_pg rq i (paging_state k)) (UserPD i))) (filesystem k) rq (Some (phys k)) =
       Some (Inr (code, Some m))"
    and e: "(0 :: int, k') = (if code \<noteq> 0 then (4, loaded rq p i m k) else (0, upd_pcb p (init_pcb rq p) (loaded rq p i m k)))"
    by (rule create_result [OF inv ok c])
  from e have k': "k' = upd_pcb p (init_pcb rq p) (loaded rq p i m k)" by (simp split: if_splits)
  have l: "length (process_list k) = 16" using proc_invD(2) [OF inv] by (simp add: table_ok_def)
  have "KERNEL_VIRTUAL_ADDRESS_BASE < pd_addr (paging_state k) d"
    using r(2) paging_invD(1) [OF proc_invD(1) [OF inv]] user_pd_addr_high [OF paging_invD(1) [OF proc_invD(1) [OF inv]]]
    by (cases d) (auto simp: pd_addr_def layout_ok_def)
  then have "cr3 (paging_state k') = cr3 (paging_state k)"
    by (simp add: k' upd_pcb_def loaded_def paging_use_page_directory_def r(1))
  moreover have "proc_inv k'" unfolding k' by (rule loaded_inv(2) [OF inv p(1,2) i])
  ultimately show ?thesis
    using p l by (intro exI [where x = p])
      (simp add: k' upd_pcb_def loaded_def claimed_def init_pcb_def Let_def zero_cpu_def)
qed

text \<open>
  When the executable cannot be read, the code is 4 but the slot stays claimed: it is marked as
  used, the counter is one higher, the frames and the directory are not returned, and the block keeps
  the entry point and registers the slot held before.
\<close>

theorem create_read_failure_leaks:
  assumes inv: "proc_inv k" and c: "process_create_user_process rq k = Some (Inr (4, k'))"
  shows "\<exists>p < 16. \<not> process_list_used k ! p \<and> process_list_used k' ! p \<and>
    active_process_count k' = active_process_count k + 1 \<and>
    eip (pcontext (process_list k' ! p)) = eip (pcontext (process_list k ! p)) \<and>
    cpu (pcontext (process_list k' ! p)) = cpu (pcontext (process_list k ! p)) \<and>
    (\<exists>i < 32. \<not> page_directory_used (paging_state k) ! i \<and> page_directory_used (paging_state k') ! i)"
proof -
  have ok: "admits rq k" by (rule create_code_admits [OF inv c]) simp
  obtain p i code m where p: "p < 16" "\<not> process_list_used k ! p" "process_list_get_inactive_index k = Some p"
    and i: "i < 32" "\<not> page_directory_used (paging_state k) ! i"
    and "read (paged_store (get_pd (claimed_pg rq i (paging_state k)) (UserPD i))) (filesystem k) rq (Some (phys k)) =
       Some (Inr (code, Some m))"
    and e: "(4 :: int, k') = (if code \<noteq> 0 then (4, loaded rq p i m k) else (0, upd_pcb p (init_pcb rq p) (loaded rq p i m k)))"
    by (rule create_result [OF inv ok c])
  from e have k': "k' = loaded rq p i m k" by (simp split: if_splits)
  have l: "length (process_list k) = 16" "length (process_list_used k) = 16" "length (page_directory_used (paging_state k)) = 32"
    using proc_invD(2) [OF inv] paging_invD(2) [OF proc_invD(1) [OF inv]] by (simp_all add: table_ok_def dirs_wf_def)
  have "page_directory_used (paging_state k') ! i"
    using claimed_pg_facts(4) [OF proc_invD(1) [OF inv] i(1), where rq = rq] l i
    by (simp add: k' loaded_def paging_use_page_directory_def)
  then show ?thesis
    using p i l by (intro exI [where x = p])
      (auto simp: k' loaded_def claimed_def claimed_pcb_def claim_pcb_def)
qed

section \<open>Destruction\<close>

definition pcb_releases :: "(nat \<Rightarrow> PageDirectoryEntryFlag) \<Rightarrow> ProcessControlBlock \<Rightarrow> nat list \<Rightarrow> (PageDirectoryEntryFlag \<times> u32) list" where
  "pcb_releases junk b is = map (\<lambda>i. (junk i, virtual_addr_used b ! i)) (filter (\<lambda>i. data_virtual_addr_used b ! i) is)"

lemma destroy_frames_eq:
  assumes "paging_inv pg" and "pd_valid d" and "a = pd_addr pg d"
  shows "destroy_frames junk a b is pg = Inr (pool.release_all d (pcb_releases junk b is) pg)"
  using assms(1,3)
proof (induction "is" arbitrary: pg)
  case Nil
  then show ?case by (simp add: pcb_releases_def pool.release_all_def)
next
  case (Cons i "is")
  show ?case
  proof (cases "data_virtual_addr_used b ! i")
    case True
    obtain r where "paging_free_user_page_frame (junk i) a (virtual_addr_used b ! i) pg =
        Inr (r, free_pg (junk i) d (virtual_addr_used b ! i) pg)"
      using free_call [OF Cons.prems(1) assms(2)] Cons.prems(2) by blast
    moreover have "destroy_frames junk a b is (free_pg (junk i) d (virtual_addr_used b ! i) pg) =
        Inr (pool.release_all d (pcb_releases junk b is) (free_pg (junk i) d (virtual_addr_used b ! i) pg))"
      using Cons.prems(2) pool.release_inv [OF Cons.prems(1) assms(2)]
        pd_addr_cong [of "free_pg (junk i) d (virtual_addr_used b ! i) pg" pg d]
      by (intro Cons.IH) simp_all
    ultimately show ?thesis using True by (simp add: pcb_releases_def pool.release_all_def)
  qed (use Cons in \<open>simp add: pcb_releases_def\<close>)
qed

lemma release_all_static:
  "page_directory_used (pool.release_all d ps pg) = page_directory_used pg \<and> pd_list_addr (pool.release_all d ps pg) = pd_list_addr pg"
  unfolding pool.release_all_def by (induction ps arbitrary: pg) auto

lemma releases_pages: "(page_index \<circ> snd) ` set (pcb_releases junk b [0..<8]) = pcb_pages b"
  unfolding pcb_releases_def pcb_pages_def by (auto simp: image_iff simp del: upt.simps) 

text \<open>The state after process \<open>p\<close>, with directory \<open>i\<close>, has been destroyed.\<close>

definition destroyed_pg :: "(nat \<Rightarrow> PageDirectoryEntryFlag) \<Rightarrow> ProcessControlBlock \<Rightarrow> nat \<Rightarrow> paging \<Rightarrow> paging" where
  "destroyed_pg junk b i pg = put_directory i False zero_directory (pool.release_all (UserPD i) (pcb_releases junk b [0..<8]) pg)"

definition destroyed :: "(nat \<Rightarrow> PageDirectoryEntryFlag) \<Rightarrow> nat \<Rightarrow> nat \<Rightarrow> kernel \<Rightarrow> kernel" where
  "destroyed junk p i k = k\<lparr> paging_state := destroyed_pg junk (process_list k ! p) i (paging_state k),
     process_list := (process_list k)[p := zero_pcb], process_list_used := (process_list_used k)[p := False],
     active_process_count := active_process_count k - 1 \<rparr>"

lemma destroy_eq:
  assumes inv: "proc_inv k" and p: "p < 16" and i: "i < 32" "pcb_dir k p = user_pd_addr (paging_state k) i"
  shows "process_destroy junk (of_nat p) k = Inr (True, destroyed junk p i k)"
proof -
  let ?pg = "paging_state k" and ?b = "process_list k ! p"
  note pinv = proc_invD(1) [OF inv]
  have v: "pd_valid (UserPD i)" using i by simp
  have up: "unat (of_nat p :: u32) = p" using p by (intro unat_of_nat_less) simp
  then have lt: "\<not> 16 \<le> (of_nat p :: u32)" using p by (simp add: word_le_nat_alt)
  let ?pg1 = "pool.release_all (UserPD i) (pcb_releases junk ?b [0..<8]) ?pg"
  have "destroy_frames junk (pcb_dir k p) ?b [0..<8] ?pg = Inr ?pg1"
    by (rule destroy_frames_eq [OF pinv v]) (simp add: i pd_addr_def)
  moreover have "find (\<lambda>j. user_pd_addr ?pg1 j = pcb_dir k p) [0..<32] = Some i"
    unfolding find_upt_Some i(2) user_pd_addr_cong [OF release_all_static [THEN conjunct2]]
    using i(1) user_pd_addr_inj [OF paging_invD(1) [OF pinv], of _ i] by (auto dest: less_trans)
  ultimately show ?thesis
    using lt up by (simp add: process_destroy_def pcb_dir_def Let_def free_directory_eq destroyed_def destroyed_pg_def del: upt.simps)
qed

lemma destroyed_pg_facts:
  assumes inv: "paging_inv pg" and i: "i < 32"
  shows "paging_inv (destroyed_pg junk b i pg)" (is ?inv)
    and "d \<noteq> UserPD i \<Longrightarrow> frame_at (destroyed_pg junk b i pg) d j = frame_at pg d j"
    and "f \<noteq> 0 \<Longrightarrow> page_frame_map (destroyed_pg junk b i pg) ! f \<longleftrightarrow>
           page_frame_map pg ! f \<and> (\<forall>j \<in> pcb_pages b. frame_at pg (UserPD i) j \<noteq> f)"
    and "page_directory_used (destroyed_pg junk b i pg) = (page_directory_used pg)[i := False]"
    and "user_pd_addr (destroyed_pg junk b i pg) = user_pd_addr pg"
    and "get_pd (destroyed_pg junk b i pg) (UserPD i) = zero_directory"
proof -
  let ?ps = "pcb_releases junk b [0..<8]" and ?pg1 = "pool.release_all (UserPD i) (pcb_releases junk b [0..<8]) pg"
  have v: "pd_valid (UserPD i)" using i by simp
  have inv1: "paging_inv ?pg1" by (rule pool.release_all_inv [OF inv v])
  show ?inv unfolding destroyed_pg_def using put_directory_inv [OF inv1 i] new_directory_entries(4,5) by blast
  have get: "get_pd (destroyed_pg junk b i pg) d = (if d = UserPD i then zero_directory else get_pd ?pg1 d)" for d
    unfolding destroyed_pg_def by (rule get_put_directory [OF paging_invD(2) [OF inv1] i])
  show "get_pd (destroyed_pg junk b i pg) (UserPD i) = zero_directory" using get [of "UserPD i"] by (simp only: if_True simp_thms)
  show "d \<noteq> UserPD i \<Longrightarrow> frame_at (destroyed_pg junk b i pg) d j = frame_at pg d j"
    using get pool.release_all_names [OF inv v, of ?ps d j] by (simp add: frame_at_def)
  show "page_frame_map (destroyed_pg junk b i pg) ! f \<longleftrightarrow>
      page_frame_map pg ! f \<and> (\<forall>j \<in> pcb_pages b. frame_at pg (UserPD i) j \<noteq> f)" if "f \<noteq> 0"
    using pool.release_all_marked [OF inv v that, of ?ps] releases_pages [of junk b, symmetric]
    by (auto simp: destroyed_pg_def put_directory_def)
  show "page_directory_used (destroyed_pg junk b i pg) = (page_directory_used pg)[i := False]"
    using release_all_static [of "UserPD i" ?ps pg] by (simp add: destroyed_pg_def put_directory_def)
  show "user_pd_addr (destroyed_pg junk b i pg) = user_pd_addr pg"
    by (rule user_pd_addr_cong) (use release_all_static [of "UserPD i" ?ps pg] in \<open>simp add: destroyed_pg_def put_directory_def\<close>)
qed

lemma destroyed_inv:
  assumes inv: "proc_inv k" and p: "p < 16" "process_list_used k ! p"
    and i: "i < 32" "pcb_dir k p = user_pd_addr (paging_state k) i"
  shows "proc_inv (destroyed junk p i k)"
proof -
  let ?k = "destroyed junk p i k" and ?pg = "paging_state k"
  note wf = proc_invD [OF inv] and df = destroyed_pg_facts [OF proc_invD(1) [OF inv] i(1), where junk = junk and b = "process_list k ! p"]
  note inj = user_pd_addr_inj [OF paging_invD(1) [OF wf(1)]]
  have l: "length (process_list k) = 16" "length (process_list_used k) = 16" "length (page_directory_used ?pg) = 32"
    using wf(2) paging_invD(2) [OF wf(1)] by (auto simp: table_ok_def dirs_wf_def)
  have z: "pcb_wf zero_pcb" by (simp add: pcb_wf_def zero_pcb_def count_used_def)
  have "Suc (count_used ((process_list_used k)[p := False])) = count_used (process_list_used k)"
    using p l by (intro count_used_clear) auto
  then have "active_process_count k - 1 = of_nat (count_used ((process_list_used k)[p := False]))"
    using wf(2) unfolding table_ok_def by (metis add_diff_cancel_left' of_nat_Suc)
  then have tab: "table_ok ?k"
    using wf(2) p l z by (auto simp: table_ok_def destroyed_def nth_list_update)
  have used: "process_list_used ?k ! q \<longleftrightarrow> q \<noteq> p \<and> process_list_used k ! q" if "q < 16" for q
    using that l by (cases "q = p") (auto simp: destroyed_def)
  have same: "process_list ?k ! q = process_list k ! q" "pcb_dir ?k q = pcb_dir k q" if "q \<noteq> p" for q
    using that by (simp_all add: destroyed_def pcb_dir_def)
  have pg: "paging_state ?k = destroyed_pg junk (process_list k ! p) i ?pg" by (simp add: destroyed_def)
  have own: "pcb_dir k q \<noteq> user_pd_addr ?pg i" if "q < 16" "process_list_used k ! q" "q \<noteq> p" for q
    using wf(3) that p i(2) unfolding dirs_ok_def by metis
  have "\<exists>i' < 32. pcb_dir ?k q = user_pd_addr ?pg i' \<and> page_directory_used (paging_state ?k) ! i' \<and>
      (\<forall>j < 1024. frame_at (paging_state ?k) (UserPD i') j \<noteq> 0 \<longrightarrow> j \<in> pcb_pages (process_list ?k ! q))"
    if q: "q < 16" "process_list_used ?k ! q" for q
  proof -
    have q': "q \<noteq> p" "process_list_used k ! q" using used [OF q(1)] q(2) by auto
    obtain i' where i': "i' < 32" "pcb_dir k q = user_pd_addr ?pg i'" "page_directory_used ?pg ! i'"
      "\<forall>j < 1024. frame_at ?pg (UserPD i') j \<noteq> 0 \<longrightarrow> j \<in> pcb_pages (process_list k ! q)"
      using wf(3) q' q(1) unfolding dirs_ok_def by blast
    moreover have "i' \<noteq> i" using own [OF q(1) q'(2,1)] i'(2) by auto
    ultimately show ?thesis
      using df(2) [of "UserPD i'"] q'(1) unfolding pg df(4) by (intro exI [where x = i']) (simp add: same)
  qed
  moreover have "a = b" if "a < 16" "b < 16" "process_list_used ?k ! a" "process_list_used ?k ! b" "pcb_dir ?k a = pcb_dir ?k b" for a b
    using that used same wf(3) unfolding dirs_ok_def by metis
  moreover have "\<exists>q < 16. process_list_used ?k ! q \<and> pcb_dir ?k q = user_pd_addr ?pg i'"
    if i': "i' < 32" "page_directory_used (paging_state ?k) ! i'" for i'
  proof -
    have ne: "i' \<noteq> i" "page_directory_used ?pg ! i'" using i' l(3) i(1) unfolding pg df(4) by (auto simp: nth_list_update split: if_splits)
    then obtain q where q: "q < 16" "process_list_used k ! q" "pcb_dir k q = user_pd_addr ?pg i'"
      using i'(1) wf(3) unfolding dirs_ok_def by blast
    then have "q \<noteq> p" using i inj [OF i'(1) i(1)] ne(1) by auto
    with q show ?thesis using used same by metis
  qed
  ultimately have "dirs_ok ?k"
    unfolding dirs_ok_def pg df(5) by blast
  with tab df(1) show ?thesis by (simp add: proc_inv_def pg)
qed

text \<open>
  C27: Destroying an active process returns true, frees its slot and block, decrements the counter,
  gives back exactly the frames its page directory named, clears and releases that directory, leaves
  every other process alone and keeps the bookkeeping invariant; no pointer or index it uses is bad,
  whatever the uninitialised flags are.
\<close>

theorem destroy_effect:
  assumes inv: "proc_inv k" and p: "p < 16" "process_list_used k ! p"
  shows "\<exists>k' i. process_destroy junk (of_nat p) k = Inr (True, k') \<and> proc_inv k' \<and>
    process_list_used k' = (process_list_used k)[p := False] \<and> process_list k' = (process_list k)[p := zero_pcb] \<and>
    active_process_count k' = active_process_count k - 1 \<and>
    i < 32 \<and> pcb_dir k p = user_pd_addr (paging_state k) i \<and>
    \<not> page_directory_used (paging_state k') ! i \<and> get_pd (paging_state k') (UserPD i) = zero_directory \<and>
    (\<forall>f \<in> {1..<32}. page_frame_map (paging_state k') ! f \<longleftrightarrow>
       page_frame_map (paging_state k) ! f \<and> (\<forall>j < 1024. frame_at (paging_state k) (UserPD i) j \<noteq> f)) \<and>
    (\<forall>d j. d \<noteq> UserPD i \<longrightarrow> frame_at (paging_state k') d j = frame_at (paging_state k) d j)"
proof -
  obtain i where i: "i < 32" "pcb_dir k p = user_pd_addr (paging_state k) i"
    "\<forall>j < 1024. frame_at (paging_state k) (UserPD i) j \<noteq> 0 \<longrightarrow> j \<in> pcb_pages (process_list k ! p)"
    using proc_invD(3) [OF inv] p unfolding dirs_ok_def by blast
  let ?k = "destroyed junk p i k"
  note df = destroyed_pg_facts [OF proc_invD(1) [OF inv] i(1), where junk = junk and b = "process_list k ! p"]
  have pg: "paging_state ?k = destroyed_pg junk (process_list k ! p) i (paging_state k)" by (simp add: destroyed_def)
  have l: "length (page_directory_used (paging_state k)) = 32"
    using paging_invD(2) [OF proc_invD(1) [OF inv]] by (simp add: dirs_wf_def)
  have "page_frame_map (paging_state ?k) ! f \<longleftrightarrow> page_frame_map (paging_state k) ! f \<and>
      (\<forall>j < 1024. frame_at (paging_state k) (UserPD i) j \<noteq> f)" if "f \<in> {1..<32}" for f
  proof -
    have "pcb_pages (process_list k ! p) \<subseteq> {..<1024}" by (auto simp: pcb_pages_def)
    then show ?thesis using df(3) [of f] that i(3) unfolding pg by auto
  qed
  then show ?thesis
    using destroy_eq [OF inv p(1) i(1,2), of junk] destroyed_inv [OF inv p i(1,2), of junk] i(1,2) df(2,4,6) l
    by (intro exI [where x = ?k] exI [where x = i]) (simp add: pg, simp add: destroyed_def)
qed

text \<open>
  Destroying a process id that is not in use is not refused and decrements the counter all the
  same: when no process is active it wraps, and from then on every creation is refused with code 1.
\<close>

theorem destroy_idle_blocks_creation:
  assumes "p < 16" and "process_list k ! p = zero_pcb" and "active_process_count k = 0"
  shows "\<exists>k'. process_destroy junk (of_nat p) k = Inr (True, k') \<and> active_process_count k' = 0xFFFFFFFF \<and>
    process_create_user_process rq k' = Some (Inr (1, k'))"
proof -
  have up: "unat (of_nat p :: u32) = p" using assms(1) by (intro unat_of_nat_less) simp
  then have lt: "\<not> 16 \<le> (of_nat p :: u32)" using assms(1) by (simp add: word_le_nat_alt)
  have zero_dir: "page_directory_virtual_addr (pcontext zero_pcb) = 0" by (simp add: zero_pcb_def zero_context_def)
  have "destroy_frames junk a zero_pcb is pg = Inr pg" if "set is \<subseteq> {..<8}" for a "is" pg
    using that by (induction "is") (auto simp: zero_pcb_def)
  then have "destroy_frames junk 0 zero_pcb [0..<8] (paging_state k) = Inr (paging_state k)" by (simp add: subset_iff)
  then have d: "process_destroy junk (of_nat p) k = Inr (True, k\<lparr>
      paging_state := snd (paging_free_page_directory 0 (paging_state k)), process_list := (process_list k)[p := zero_pcb],
      process_list_used := (process_list_used k)[p := False], active_process_count := 0 - 1 \<rparr>)"
    using lt up assms(2,3)
    by (simp add: process_destroy_def Let_def zero_dir del: upt.simps)
  then show ?thesis by (simp add: process_create_user_process_def)
qed

end
