(* ===== verification/Fat32_Chain.thy ===== *)
theory Fat32_Chain
  imports Fat32
begin

text \<open>
  Facts about the building blocks of the driver: cluster reads after cluster writes, chains of the
  allocation table, the search for free slots, the scan of a directory table, and the loops that
  write, read and delete a chain.
\<close>

section \<open>Clusters on the image\<close>

lemmas cluster_defs = read_clusters_def write_clusters_def cluster_to_lba_def

lemma length_read_cluster [simp]: "length (read_clusters d c 1) = 2048"
  by (simp add: cluster_defs image.rb_length)

lemma read_write_same [simp]:
  "length bs = 2048 \<Longrightarrow> unat c < 2 ^ 21 \<Longrightarrow> read_clusters (write_clusters bs c 1 d) c 1 = bs"
  by (simp add: cluster_defs image.cluster_same)

lemma read_write_other:
  "length bs = 2048 \<Longrightarrow> unat c < 2 ^ 21 \<Longrightarrow> unat c' < 2 ^ 21 \<Longrightarrow> c \<noteq> c' \<Longrightarrow>
     read_clusters (write_clusters bs c 1 d) c' 1 = read_clusters d c' 1"
  by (simp add: cluster_defs image.cluster_other)

lemma boot_write_cluster:
  "length bs = 2048 \<Longrightarrow> unat c < 2 ^ 21 \<Longrightarrow> 0 < unat c \<Longrightarrow>
     read_blocks (write_clusters bs c 1 d) 0 1 = read_blocks d 0 1"
  by (simp add: cluster_defs image.boot_of_cluster_write)

section \<open>Chains of the allocation table\<close>

text \<open>
  \<open>is_chain cm cs\<close>: the clusters \<open>cs\<close> are the data clusters (2 to 511) of one file, each entry of
  the table naming the next and the last holding the end-of-file mark.
\<close>

definition data_cluster :: "u32 \<Rightarrow> bool" where
  "data_cluster c \<longleftrightarrow> 2 \<le> unat c \<and> unat c < CLUSTER_MAP_SIZE"

fun is_chain :: "u32 list \<Rightarrow> u32 list \<Rightarrow> bool" where
  "is_chain cm [] \<longleftrightarrow> False"
| "is_chain cm [c] \<longleftrightarrow> data_cluster c \<and> cm ! unat c = FAT32_FAT_END_OF_FILE"
| "is_chain cm (c # c' # cs) \<longleftrightarrow> data_cluster c \<and> cm ! unat c = c' \<and> is_chain cm (c' # cs)"

lemma data_cluster_simps [simp]:
  assumes "data_cluster c"
  shows "unat c < 512" "\<not> 512 \<le> unat c" "unat c < 2097152" "0 < unat c"
    "c \<noteq> 0" "c \<noteq> 1" "1 \<noteq> c" "c \<noteq> FAT32_FAT_END_OF_FILE"
  using assms by (auto simp: data_cluster_def)

lemma data_cluster_consts [simp]:
  "\<not> data_cluster 0" "\<not> data_cluster 1" "\<not> data_cluster FAT32_FAT_END_OF_FILE"
  by (simp_all add: data_cluster_def)

lemma is_chain_data: "is_chain cm cs \<Longrightarrow> c \<in> set cs \<Longrightarrow> data_cluster c"
  by (induction cm cs rule: is_chain.induct) auto

lemma is_chain_tl: "is_chain cm (c # cs) \<Longrightarrow> cs \<noteq> [] \<Longrightarrow> is_chain cm cs"
  by (cases cs) auto

lemma is_chain_hd_next:
  "is_chain cm (c # cs) \<Longrightarrow> cm ! unat c = (case cs of [] \<Rightarrow> FAT32_FAT_END_OF_FILE | n # _ \<Rightarrow> n)"
  by (cases cs) auto

lemma is_chain_entry_nonzero: "is_chain cm cs \<Longrightarrow> c \<in> set cs \<Longrightarrow> cm ! unat c \<noteq> 0"
proof (induction cm cs rule: is_chain.induct)
  case (3 cm c c' cs)
  then have "data_cluster c'" by (cases cs) auto
  with 3 show ?case by auto
qed auto

text \<open>A chain is determined by its head.\<close>

lemma is_chain_unique: "is_chain cm (c # cs) \<Longrightarrow> is_chain cm (c # ds) \<Longrightarrow> cs = ds"
proof (induction cs arbitrary: c ds)
  case Nil
  then show ?case by (cases ds) (auto dest: is_chain_data)
next
  case (Cons x cs)
  then have "data_cluster x" by (auto dest: is_chain_data)
  with Cons show ?case by (cases ds) auto
qed

lemma is_chain_suffix: "is_chain cm (ds @ cs) \<Longrightarrow> cs \<noteq> [] \<Longrightarrow> is_chain cm cs"
  by (induction ds) (auto dest: is_chain_tl)

text \<open>Hence no cluster occurs twice: following the table from it twice would give two suffixes.\<close>

lemma is_chain_distinct: "is_chain cm cs \<Longrightarrow> distinct cs"
proof (induction cs)
  case (Cons c cs)
  have "c \<notin> set cs"
  proof
    assume "c \<in> set cs"
    then obtain ys zs where cs: "cs = ys @ c # zs" by (meson split_list)
    then have "is_chain cm (c # zs)"
      using is_chain_suffix [of cm "c # ys" "c # zs"] Cons.prems by simp
    then have "cs = zs" using Cons.prems by (rule is_chain_unique [symmetric])
    with cs show False by simp
  qed
  then show ?case
    using Cons by (cases "cs = []") (auto dest: is_chain_tl)
qed simp

text \<open>A table that agrees on the chain's clusters has the same chain.\<close>

lemma is_chain_cong:
  "\<forall>c \<in> set cs. cm' ! unat c = cm ! unat c \<Longrightarrow> is_chain cm' cs \<longleftrightarrow> is_chain cm cs"
  by (induction cm cs rule: is_chain.induct) auto

section \<open>Free slots\<close>

lemma count_slots_loop_eq:
  "count_slots_loop cm r i buf =
     buf @ map of_nat (take (r - length buf) (filter (\<lambda>i. cm ! i = 0) [i..<512]))"
proof (induction cm r i buf rule: count_slots_loop.induct)
  case (1 cm r i buf)
  show ?case
  proof (cases "length buf < r \<and> i < 512")
    case True
    then have up: "[i..<512] = i # [Suc i..<512]" by (simp add: upt_conv_Cons)
    from True obtain k where k: "r - length buf = Suc k" by (metis Suc_diff_Suc)
    then have k': "r - Suc (length buf) = k" by simp
    from True 1 show ?thesis
      by (subst count_slots_loop.simps) (auto simp: up k k' simp del: upt.simps)
  next
    case False
    then show ?thesis by (subst count_slots_loop.simps) auto
  qed
qed

lemma count_empty_eq:
  "count_empty_fat_slots cm r = map of_nat (take (unat r) (filter (\<lambda>i. cm ! i = 0) [0..<512]))"
  by (simp add: count_empty_fat_slots_def count_slots_loop_eq)

lemma count_empty_length: "length (count_empty_fat_slots cm r) \<le> unat r"
  by (simp add: count_empty_eq)

lemma count_empty_member:
  assumes "c \<in> set (count_empty_fat_slots cm r)" shows "unat c < 512" and "cm ! unat c = 0"
proof -
  from assms obtain i where i: "i \<in> set (take (unat r) (filter (\<lambda>i. cm ! i = 0) [0..<512]))"
    and c: "c = of_nat i"
    by (auto simp: count_empty_eq)
  from i have "i < 512" "cm ! i = 0" by (auto dest: in_set_takeD)
  with c show "unat c < 512" and "cm ! unat c = 0" by simp_all
qed

lemma count_empty_distinct: "distinct (count_empty_fat_slots cm r)"
proof -
  have "inj_on (of_nat :: nat \<Rightarrow> u32) {0..<512}"
    by (rule inj_onI) (simp add: of_nat_word_eq_iff)
  then have "inj_on (of_nat :: nat \<Rightarrow> u32) (set (take (unat r) (filter (\<lambda>i. cm ! i = 0) [0..<512])))"
    by (rule inj_on_subset) (auto dest: in_set_takeD)
  then show ?thesis by (simp add: count_empty_eq distinct_map)
qed

text \<open>All requested slots are found exactly when the table has that many empty entries.\<close>

lemma count_empty_enough:
  "length (count_empty_fat_slots cm r) = unat r \<longleftrightarrow>
     unat r \<le> length (filter (\<lambda>i. cm ! i = 0) [0..<512])"
  by (auto simp: count_empty_eq)

section \<open>The scan of the parent table\<close>

lemma write_scan_None: "write_scan rq i es slot = None \<longleftrightarrow> (\<exists>e \<in> set es. entry_matches rq e)"
  by (induction rq i es slot rule: write_scan.induct) (auto simp: Let_def)

text \<open>The slot found is the first position past entry 0 whose entry is not in use.\<close>

lemma write_scan_slot:
  assumes "write_scan rq i es slot = Some k" and "i + length es \<le> 64"
  shows "slot \<noteq> 0 \<Longrightarrow> k = slot"
    and "slot = 0 \<Longrightarrow> k \<noteq> 0 \<Longrightarrow>
           i \<le> unat k \<and> unat k < i + length es \<and>
           user_attribute (es ! (unat k - i)) \<noteq> UATTR_NOT_EMPTY"
  using assms
proof (induction rq i es slot rule: write_scan.induct)
  case (2 rq i e es slot)
  {
    case 1
    with "2.IH" show ?case by (auto simp: Let_def split: if_splits)
  next
    case 2
    let ?slot = "if user_attribute e \<noteq> UATTR_NOT_EMPTY \<and> slot = 0 then of_nat i else slot"
    have rec: "write_scan rq (Suc i) es ?slot = Some k"
      using 2 by (auto simp: Let_def split: if_splits)
    have no: "\<not> entry_matches rq e"
      using 2 by (auto simp: Let_def split: if_splits)
    show ?case
    proof (cases "?slot = 0")
      case True
      then have "Suc i \<le> unat k \<and> unat k < Suc i + length es \<and>
                 user_attribute (es ! (unat k - Suc i)) \<noteq> UATTR_NOT_EMPTY"
        using "2.IH"(2) [OF refl no] rec 2 by auto
      moreover from this have "(e # es) ! (unat k - i) = es ! (unat k - Suc i)"
        by (simp add: nth_Cons')
      ultimately show ?thesis by auto
    next
      case False
      then have "k = ?slot" using "2.IH"(1) [OF refl no] rec 2 by auto
      with False 2 show ?thesis
        by (auto split: if_splits)
    qed
  }
qed auto

lemma write_scan_full:
  assumes "write_scan rq i es 0 = Some 0" and "0 < i" and "i + length es \<le> 64"
  shows "\<forall>e \<in> set es. user_attribute e = UATTR_NOT_EMPTY"
  using assms
proof (induction es arbitrary: i)
  case (Cons e es)
  have nz: "(of_nat i :: u8) \<noteq> 0"
    using Cons.prems(2,3) of_nat_word_eq_iff [of i 0, where ?'a = 8] by auto
  have "user_attribute e = UATTR_NOT_EMPTY"
  proof (rule ccontr)
    assume "user_attribute e \<noteq> UATTR_NOT_EMPTY"
    then have "write_scan rq (Suc i) es (of_nat i) = Some 0"
      using Cons.prems by (auto simp: Let_def split: if_splits)
    then have "(0 :: u8) = of_nat i"
      using Cons.prems nz by (intro write_scan_slot(1)) auto
    with nz show False by simp
  qed
  moreover from this have "write_scan rq (Suc i) es 0 = Some 0"
    using Cons.prems by (auto simp: Let_def split: if_splits)
  ultimately show ?case
    using Cons.IH [of "Suc i"] Cons.prems by auto
qed simp

section \<open>Reading a chain\<close>

text \<open>The stores the reading loop makes, in order, starting with cluster \<open>k\<close> of the buffer.\<close>

fun store_chain ::
  "(u32 \<Rightarrow> u8 list \<Rightarrow> 'm \<Rightarrow> 'm) \<Rightarrow> disk \<Rightarrow> u32 \<Rightarrow> u32 list \<Rightarrow> u32 \<Rightarrow> 'm \<Rightarrow> 'm" where
  "store_chain st d buf [] k m = m"
| "store_chain st d buf (c # cs) k m =
     store_chain st d buf cs (k + 1) (st (buf + k * 2048) (read_clusters d c 1) m)"

lemma read_chain_ends:
  "is_chain (cluster_map s) (c # cs) \<Longrightarrow>
     read_chain st s buf c k m = Some (Inr (store_chain st (storage s) buf (c # cs) k m))"
proof (induction cs arbitrary: c k m)
  case Nil
  then show ?case
    by (subst read_chain.simps) (simp add: read_chain.simps [of _ _ _ FAT32_FAT_END_OF_FILE])
next
  case (Cons x cs)
  then show ?case
    by (subst read_chain.simps) auto
qed

definition chain_bytes :: "disk \<Rightarrow> u32 list \<Rightarrow> u8 list" where
  "chain_bytes d cs = concat (map (\<lambda>c. read_clusters d c 1) cs)"

lemma length_chain_bytes [simp]: "length (chain_bytes d cs) = 2048 * length cs"
  by (induction cs) (simp_all add: chain_bytes_def)

lemma chain_bytes_Cons: "chain_bytes d (c # cs) = read_clusters d c 1 @ chain_bytes d cs"
  by (simp add: chain_bytes_def)

text \<open>In a flat memory the stores amount to one store of the file's bytes.\<close>

lemma store_chain_flat:
  "2048 * (k + length cs) \<le> 2 ^ 32 \<Longrightarrow>
     store_chain store_bytes d buf cs (of_nat k) m =
       store_bytes (buf + of_nat (2048 * k)) (chain_bytes d cs) m"
proof (induction cs arbitrary: k m)
  case Nil
  then show ?case by (simp add: chain_bytes_def)
next
  case (Cons c cs)
  let ?m = "store_bytes (buf + of_nat k * 2048) (read_clusters d c 1) m"
  have "store_chain store_bytes d buf (c # cs) (of_nat k) m =
        store_chain store_bytes d buf cs (of_nat (Suc k)) ?m"
    by (simp add: add.commute)
  also have "\<dots> = store_bytes (buf + of_nat (2048 * Suc k)) (chain_bytes d cs) ?m"
    using Cons.prems by (intro Cons.IH) simp
  also have "buf + of_nat (2048 * Suc k) =
             buf + of_nat k * 2048 + of_nat (length (read_clusters d c 1))"
    by (simp add: algebra_simps)
  also have "store_bytes \<dots> (chain_bytes d cs) ?m =
             store_bytes (buf + of_nat k * 2048) (chain_bytes d (c # cs)) m"
    unfolding chain_bytes_Cons using Cons.prems by (intro store_append [symmetric]) simp
  finally show ?case by (simp add: mult.commute)
qed

section \<open>Writing a chain\<close>

fun link_chain :: "u32 list \<Rightarrow> u32 list \<Rightarrow> u32 list" where
  "link_chain cm [] = cm"
| "link_chain cm (c # cs) =
     link_chain (cm[unat c := (case cs of [] \<Rightarrow> FAT32_FAT_END_OF_FILE | n # _ \<Rightarrow> n)]) cs"

lemma length_link_chain [simp]: "length (link_chain cm cs) = length cm"
  by (induction cm cs rule: link_chain.induct) auto

lemma link_chain_other: "i \<notin> unat ` set cs \<Longrightarrow> link_chain cm cs ! i = cm ! i"
  by (induction cm cs rule: link_chain.induct) auto

lemma unat_image_mem: "unat (c :: u32) \<in> unat ` set cs \<longleftrightarrow> c \<in> set cs"
  by (auto simp: image_iff simp flip: word_unat_eq_iff)

lemma link_chain_is_chain:
  "distinct cs \<Longrightarrow> \<forall>c \<in> set cs. data_cluster c \<Longrightarrow> length cm = 512 \<Longrightarrow> cs \<noteq> [] \<Longrightarrow>
     is_chain (link_chain cm cs) cs"
proof (induction cm cs rule: link_chain.induct)
  case (2 cm c cs)
  let ?cm = "cm[unat c := (case cs of [] \<Rightarrow> FAT32_FAT_END_OF_FILE | n # _ \<Rightarrow> n)]"
  have "link_chain ?cm cs ! unat c = ?cm ! unat c"
    using 2 by (intro link_chain_other) (simp add: unat_image_mem)
  also have "\<dots> = (case cs of [] \<Rightarrow> FAT32_FAT_END_OF_FILE | n # _ \<Rightarrow> n)"
    using 2 by simp
  finally show ?case
    using 2 by (cases cs) auto
qed simp

lemma step_cluster_map [simp]:
  "cluster_map (write_cluster_step ld m c n buf s) = (cluster_map s)[unat c := n]"
  by (simp add: write_cluster_step_def Let_def)

lemma step_fat:
  assumes "length (ld buf 2048 m) = 2048" and "length (cluster_map s) = 512" and "data_cluster c"
  shows "read_clusters (storage (write_cluster_step ld m c n buf s)) 1 1 =
         encode_fat ((cluster_map s)[unat c := n])"
  using assms by (simp add: write_cluster_step_def Let_def read_write_other)

lemma step_data:
  assumes "length (ld buf 2048 m) = 2048" and "data_cluster c"
  shows "read_clusters (storage (write_cluster_step ld m c n buf s)) c 1 = ld buf 2048 m"
  using assms by (simp add: write_cluster_step_def Let_def)

lemma step_frame:
  assumes "length (ld buf 2048 m) = 2048" and "length (cluster_map s) = 512" and "data_cluster c"
    and "x \<noteq> c" and "x \<noteq> 1" and "unat x < 2 ^ 21"
  shows "read_clusters (storage (write_cluster_step ld m c n buf s)) x 1 = read_clusters (storage s) x 1"
  using assms by (simp add: write_cluster_step_def Let_def read_write_other)

lemma step_boot:
  assumes "length (ld buf 2048 m) = 2048" and "length (cluster_map s) = 512" and "data_cluster c"
  shows "read_blocks (storage (write_cluster_step ld m c n buf s)) 0 1 = read_blocks (storage s) 0 1"
  using assms by (simp add: write_cluster_step_def Let_def boot_write_cluster)

lemma cluster_map_write_chain [simp]:
  "cluster_map (write_chain ld m cs buf s) = link_chain (cluster_map s) cs"
  by (induction cs arbitrary: buf s) simp_all

text \<open>Clusters other than the new ones and the table's own are not touched.\<close>

lemma write_chain_frame:
  assumes ld: "\<And>p. length (ld p 2048 m) = 2048"
    and "length (cluster_map s) = 512" and "\<forall>c \<in> set cs. data_cluster c"
    and "x \<notin> set cs" and "x \<noteq> 1" and "unat x < 2 ^ 21"
  shows "read_clusters (storage (write_chain ld m cs buf s)) x 1 = read_clusters (storage s) x 1"
  using assms(2-) by (induction cs arbitrary: buf s) (simp_all add: step_frame ld)

lemma write_chain_boot:
  assumes ld: "\<And>p. length (ld p 2048 m) = 2048"
    and "length (cluster_map s) = 512" and "\<forall>c \<in> set cs. data_cluster c"
  shows "read_blocks (storage (write_chain ld m cs buf s)) 0 1 = read_blocks (storage s) 0 1"
  using assms(2-) by (induction cs arbitrary: buf s) (simp_all add: step_boot ld)

text \<open>The table on disk is the cached one after every turn.\<close>

lemma write_chain_fat:
  assumes ld: "\<And>p. length (ld p 2048 m) = 2048"
    and "length (cluster_map s) = 512" and "\<forall>c \<in> set cs. data_cluster c"
    and "read_clusters (storage s) 1 1 = encode_fat (cluster_map s)"
  shows "read_clusters (storage (write_chain ld m cs buf s)) 1 1 =
         encode_fat (link_chain (cluster_map s) cs)"
  using assms(2-) by (induction cs arbitrary: buf s) (simp_all add: step_fat ld)

text \<open>Cluster \<open>j\<close> of the chain receives cluster \<open>j\<close> of the buffer.\<close>

lemma write_chain_data:
  assumes ld: "\<And>p. length (ld p 2048 m) = 2048"
    and "length (cluster_map s) = 512" and "\<forall>c \<in> set cs. data_cluster c" and "distinct cs"
  shows "map (\<lambda>c. read_clusters (storage (write_chain ld m cs buf s)) c 1) cs =
         map (\<lambda>j. ld (buf + of_nat (2048 * j)) 2048 m) [0..<length cs]"
  using assms(2-)
proof (induction cs arbitrary: buf s)
  case (Cons c cs)
  let ?s = "write_cluster_step ld m c (case cs of [] \<Rightarrow> FAT32_FAT_END_OF_FILE | n # _ \<Rightarrow> n) buf s"
  have "read_clusters (storage (write_chain ld m cs (buf + 2048) ?s)) c 1 = ld buf 2048 m"
    using Cons.prems by (simp add: write_chain_frame ld step_data ld)
  moreover have "map (\<lambda>c. read_clusters (storage (write_chain ld m cs (buf + 2048) ?s)) c 1) cs =
                 map (\<lambda>j. ld (buf + 2048 + of_nat (2048 * j)) 2048 m) [0..<length cs]"
    using Cons.prems by (intro Cons.IH) simp_all
  moreover have "\<dots> = map (\<lambda>j. ld (buf + of_nat (2048 * j)) 2048 m) [Suc 0..<Suc (length cs)]"
    by (simp add: map_Suc_upt [symmetric] algebra_simps del: upt.simps)
  ultimately show ?case
    by (simp add: upt_conv_Cons del: upt.simps)
qed simp

lemma load_clusters:
  "concat (map (\<lambda>j. load_bytes (buf + of_nat (2048 * j)) 2048 m) [0..<n]) = load_bytes buf (2048 * n) m"
proof (induction n)
  case (Suc n)
  have "load_bytes buf (2048 * Suc n) m = load_bytes buf (2048 * n + 2048) m"
    by (simp add: add.commute)
  then show ?case using Suc by (simp add: load_append del: of_nat_mult)
qed (simp add: load_bytes_def)

section \<open>Deleting a chain\<close>

definition clear_chain :: "u32 list \<Rightarrow> u32 list \<Rightarrow> u32 list" where
  "clear_chain cs cm = fold (\<lambda>c cm. cm[unat c := 0]) cs cm"

lemma length_clear_chain [simp]: "length (clear_chain cs cm) = length cm"
  unfolding clear_chain_def by (induction cs arbitrary: cm) auto

lemma clear_chain_nth:
  "i < length cm \<Longrightarrow> clear_chain cs cm ! i = (if i \<in> unat ` set cs then 0 else cm ! i)"
  unfolding clear_chain_def by (induction cs arbitrary: cm) (auto simp: nth_list_update)

definition wipe_chain :: "u32 list \<Rightarrow> disk \<Rightarrow> disk" where
  "wipe_chain cs d = fold (\<lambda>c. write_clusters (replicate 2048 0) c 1) cs d"

text \<open>
  On a chain the loop ends, with its entries cleared and its clusters zeroed.  The entries cleared
  so far are not consulted again because the chain visits no cluster twice.
\<close>

lemma delete_chain_ends:
  assumes "is_chain cm (c # cs)" and "length cm = 512"
  shows "delete_chain c cm d = Some (Inr (clear_chain (c # cs) cm, wipe_chain (c # cs) d))"
  using assms
proof (induction cs arbitrary: c cm d)
  case Nil
  then show ?case
    by (subst delete_chain.simps) (simp add: clear_chain_def wipe_chain_def)
next
  case (Cons x cs)
  have dist: "distinct (c # x # cs)" using Cons.prems(1) by (rule is_chain_distinct)
  have "is_chain (cm[unat c := 0]) (x # cs) \<longleftrightarrow> is_chain cm (x # cs)"
    using dist by (intro is_chain_cong ballI nth_upd_word) auto
  then have "is_chain (cm[unat c := 0]) (x # cs)"
    using Cons.prems(1) by simp
  moreover have "data_cluster c" "data_cluster x" "cm ! unat c = x"
    using Cons.prems(1) is_chain_data [OF Cons.prems(1)] by auto
  ultimately show ?case
    using Cons.IH [of "cm[unat c := 0]" x] Cons.prems(2)
    by (subst delete_chain.simps) (auto simp: clear_chain_def wipe_chain_def not_le)
qed

lemma wipe_chain_frame:
  "\<forall>c \<in> set cs. data_cluster c \<Longrightarrow> x \<notin> set cs \<Longrightarrow> unat x < 2 ^ 21 \<Longrightarrow>
     read_clusters (wipe_chain cs d) x 1 = read_clusters d x 1"
  unfolding wipe_chain_def
  by (induction cs arbitrary: d) (auto simp: read_write_other)

lemma wipe_chain_boot:
  "\<forall>c \<in> set cs. data_cluster c \<Longrightarrow> read_blocks (wipe_chain cs d) 0 1 = read_blocks d 0 1"
  unfolding wipe_chain_def
  by (induction cs arbitrary: d) (auto simp: boot_write_cluster)

lemma wipe_chain_zero:
  "\<forall>c \<in> set cs. data_cluster c \<Longrightarrow> x \<in> set cs \<Longrightarrow>
     read_clusters (wipe_chain cs d) x 1 = replicate 2048 0"
proof (induction cs arbitrary: d)
  case (Cons c cs)
  show ?case
  proof (cases "x \<in> set cs")
    case True
    with Cons show ?thesis by (simp add: wipe_chain_def)
  next
    case False
    then have "read_clusters (wipe_chain cs (write_clusters (replicate 2048 0) c 1 d)) x 1 =
               read_clusters (write_clusters (replicate 2048 0) c 1 d) x 1"
      using Cons.prems by (intro wipe_chain_frame) auto
    with False Cons.prems show ?thesis by (auto simp: wipe_chain_def)
  qed
qed simp

end
