(* ===== verification/Fat32_Props.thy ===== *)
theory Fat32_Props
  imports Fat32_Chain
begin

text \<open>
  Correctness of the filesystem operations: formatting and mounting, creation of files and
  directories, reading back what was written, deletion, and the consistency of the allocation table.
\<close>

section \<open>Consistency of the driver state\<close>

text \<open>
  The cached table has its reserved entries and is the one on disk, and the boot sector carries the
  signature.
\<close>

definition fs_wf :: "fat32 \<Rightarrow> bool" where
  "fs_wf s \<longleftrightarrow>
     length (cluster_map s) = CLUSTER_MAP_SIZE \<and>
     cluster_map s ! 0 = CLUSTER_0_VALUE \<and> cluster_map s ! 1 = CLUSTER_1_VALUE \<and>
     cluster_map s ! 2 = FAT32_FAT_END_OF_FILE \<and>
     read_clusters (storage s) FAT_CLUSTER_NUMBER 1 = encode_fat (cluster_map s) \<and>
     read_blocks (storage s) 0 1 = fs_signature"

abbreviation table_at :: "fat32 \<Rightarrow> u32 \<Rightarrow> dir_table" where
  "table_at s c \<equiv> decode_dir_table (read_clusters (storage s) c 1)"

lemma length_fs_signature [simp]: "length fs_signature = 512"
  by (simp add: fs_signature_def)

lemma table_wf_at [simp]: "table_wf (table_at s c)"
  by simp

lemma fs_wf_length: "fs_wf s \<Longrightarrow> length (cluster_map s) = 512"
  by (simp add: fs_wf_def)

lemma free_slot_data:
  assumes "fs_wf s" and "c \<in> set (count_empty_fat_slots (cluster_map s) r)"
  shows "data_cluster c" and "cluster_map s ! unat c = 0"
proof -
  have c: "unat c < 512" "cluster_map s ! unat c = 0"
    using count_empty_member [OF assms(2)] .
  moreover have "cluster_map s ! 0 \<noteq> 0" "cluster_map s ! 1 \<noteq> 0"
    using assms(1) by (simp_all add: fs_wf_def)
  ultimately have "unat c \<noteq> 0" "unat c \<noteq> 1"
    by metis+
  with c show "data_cluster c" "cluster_map s ! unat c = 0"
    by (auto simp: data_cluster_def)
qed

section \<open>Formatting and mounting\<close>

lemma length_copy_name [simp]: "length (copy_name name i dst) = length dst"
  by (induction name i dst rule: copy_name.induct) auto

lemma init_directory_table_wf [simp]:
  assumes "table_wf t" shows "table_wf (init_directory_table d t name c)"
proof -
  have "entry_wf (t ! 0)" "entry_wf (t ! 1)"
    using assms by (auto intro: table_wf_nth)
  then show ?thesis
    unfolding init_directory_table_def Let_def
    by (intro table_wf_update assms) (auto simp: entry_wf_def)
qed

lemma root_block_length:
  "length (takeWhile (\<lambda>c. c \<noteq> 0) root_name @
     drop (length (takeWhile (\<lambda>c. c \<noteq> 0) root_name)) (replicate 512 0)) = 512"
  by (simp add: root_name_def)

lemma create_cluster_map:
  "cluster_map (create_fat32 s) =
     (replicate 512 0)[0 := CLUSTER_0_VALUE, 1 := CLUSTER_1_VALUE, 2 := FAT32_FAT_END_OF_FILE]"
  by (simp add: create_fat32_def Let_def)

lemma read_block_write_cluster:
  "length bs = 512 \<Longrightarrow> unat c < 2 ^ 21 \<Longrightarrow> unat c' < 2 ^ 21 \<Longrightarrow> c \<noteq> c' \<Longrightarrow>
     read_clusters (write_blocks bs (4 * c) 1 d) c' 1 = read_clusters d c' 1"
  by (simp add: cluster_defs image.cluster_of_block_write)

lemma create_fat32_fat:
  "read_clusters (storage (create_fat32 s)) 1 1 = encode_fat (cluster_map (create_fat32 s))"
  using root_block_length
  by (simp add: create_fat32_def Let_def read_write_other cluster_to_lba_def
      read_block_write_cluster [of _ 2 1, simplified])

lemma create_fat32_boot: "read_blocks (storage (create_fat32 s)) 0 1 = fs_signature"
proof -
  have "read_blocks (write_blocks fs_signature 0 1 d) 0 1 = fs_signature" for d
    by (rule image.rb_wb_same) simp_all
  then show ?thesis
    using root_block_length
    by (simp add: create_fat32_def Let_def boot_write_cluster cluster_to_lba_def
        image.boot_of_root_block_write [of _ 2, simplified])
qed

text \<open>The root table after formatting: two entries in use, the others zero.\<close>

lemma create_fat32_root:
  "read_clusters (storage (create_fat32 s)) 2 1 = encode_dir_table (dir_table_buf (create_fat32 s))"
  by (simp add: create_fat32_def Let_def)

lemma dir_table_buf_wf: "table_wf (dir_table_buf (create_fat32 s))"
  by (simp add: create_fat32_def Let_def)

lemma create_table: "table_at (create_fat32 s) 2 = dir_table_buf (create_fat32 s)"
  by (simp add: create_fat32_root dir_table_buf_wf codec)

lemma init_table_nth:
  "init_directory_table d zero_table name c ! 0 =
     zero_entry\<lparr> de_name := copy_name name 0 (replicate 8 0),
       attribute := ATTR_SUBDIRECTORY, user_attribute := UATTR_NOT_EMPTY \<rparr>"
  "init_directory_table d zero_table name c ! 1 =
     zero_entry\<lparr> de_name := map (\<lambda>j. de_name (decode_dir_table (read_clusters d c 1) ! 0) ! j) [0..<8],
       attribute := ATTR_SUBDIRECTORY, user_attribute := UATTR_NOT_EMPTY,
       cluster_low := cluster_lo c, cluster_high := cluster_hi c \<rparr>"
  "2 \<le> i \<Longrightarrow> i < 64 \<Longrightarrow> init_directory_table d zero_table name c ! i = zero_entry"
  by (simp_all add: init_directory_table_def Let_def zero_table_def)

lemma init_table_ext:
  assumes "e \<in> set (init_directory_table d zero_table name c)"
  shows "de_ext e = replicate 3 0"
proof -
  obtain i where i: "i < 64" "e = init_directory_table d zero_table name c ! i"
    using assms by (auto simp: in_set_conv_nth init_directory_table_def Let_def zero_table_def)
  consider "i = 0" | "i = 1" | "2 \<le> i" by linarith
  then show ?thesis
    by cases (simp_all add: i(2) init_table_nth init_table_nth(2) [unfolded One_nat_def] i(1) zero_entry_def)
qed

lemma create_table_init:
  "\<exists>d. table_at (create_fat32 s) 2 = init_directory_table d zero_table root_name 2"
  unfolding create_table by (auto simp: create_fat32_def Let_def)

lemma create_free_count:
  "length (filter (\<lambda>i. cluster_map (create_fat32 s) ! i = 0) [0..<512]) = 509"
proof -
  let ?P = "\<lambda>i. cluster_map (create_fat32 s) ! i = 0"
  have "filter ?P [3..<3 + 509] = [3..<3 + 509]"
  proof (intro filter_True ballI)
    fix i :: nat assume "i \<in> set [3..<3 + 509]"
    then have "3 \<le> i" "i < 512" unfolding set_upt by simp_all
    then show "?P i" by (simp add: create_cluster_map)
  qed
  moreover have "filter ?P [0..<3] = []"
  proof (intro filter_False ballI)
    fix i :: nat assume "i \<in> set [0..<3]"
    then have "i = 0 \<or> i = 1 \<or> i = 2" by auto
    then show "\<not> ?P i" by (auto simp: create_cluster_map)
  qed
  moreover have "[0..<3 + 509] = [0..<3] @ [3..<3 + 509]"
    by (rule upt_add_eq_append) simp
  ultimately have "length (filter ?P [0..<3 + 509]) = 3 + 509 - 3"
    by (simp only: filter_append append_Nil length_upt)
  then show ?thesis by (simp only: numeral_plus_numeral add_num_simps diff_add_inverse)
qed

lemma create_fat32_fs_wf: "fs_wf (create_fat32 s)"
  using create_fat32_fat [of s] create_fat32_boot [of s]
  by (simp add: fs_wf_def create_cluster_map)

lemma fs_wf_not_empty: "fs_wf s \<Longrightarrow> \<not> is_empty_storage (storage s)"
  by (simp add: fs_wf_def is_empty_storage_def)

lemma remount:
  assumes "fs_wf s" shows "initialize_filesystem_fat32 (s\<lparr>cluster_map := stale\<rparr>) = s"
proof -
  have "decode_fat (read_clusters (storage s) 1 1) = cluster_map s"
    using assms by (simp add: fs_wf_def codec)
  with fs_wf_not_empty [OF assms] show ?thesis
    by (simp add: initialize_filesystem_fat32_def)
qed

text \<open>
A disk without the signature is formatted by mounting it, and the result is consistent;
  mounting a consistent disk again recovers the allocation table from the disk, whatever the cache
  held before, as after a reboot.
\<close>

theorem mount_recovers:
  "(is_empty_storage (storage s) \<longrightarrow> fs_wf (initialize_filesystem_fat32 s)) \<and>
   (fs_wf s \<longrightarrow> initialize_filesystem_fat32 (s\<lparr>cluster_map := stale\<rparr>) = s)"
  using remount by (auto simp: initialize_filesystem_fat32_def create_fat32_fs_wf)

definition blank_fs :: fat32 where
  "blank_fs = \<lparr> cluster_map = [], dir_table_buf = [], cluster_buf = [], storage = (\<lambda>_. 0) \<rparr>"

definition fresh_fs :: fat32 where
  "fresh_fs = create_fat32 blank_fs"

lemma blank_storage_empty: "is_empty_storage (storage blank_fs)"
proof -
  have "fs_signature ! 0 \<noteq> 0"
    by (simp add: fs_signature_def)
  moreover have "read_blocks (\<lambda>_. 0) 0 1 ! 0 = 0"
    by (simp add: read_blocks_load)
  ultimately have "read_blocks (\<lambda>_. 0) 0 1 \<noteq> fs_signature"
    by metis
  then show ?thesis
    by (simp add: is_empty_storage_def blank_fs_def image.rb_length)
qed

theorem mount_recovers_witness:
  "fs_wf (initialize_filesystem_fat32 blank_fs) \<and>
   initialize_filesystem_fat32 (fresh_fs\<lparr>cluster_map := []\<rparr>) = fresh_fs"
proof
  show "fs_wf (initialize_filesystem_fat32 blank_fs)"
    using mount_recovers [of blank_fs "[]"] blank_storage_empty by blast
  show "initialize_filesystem_fat32 (fresh_fs\<lparr>cluster_map := []\<rparr>) = fresh_fs"
    using mount_recovers [of fresh_fs "[]"] create_fat32_fs_wf [of blank_fs]
    unfolding fresh_fs_def by blast
qed

end
