(* ===== verification/Fat32_Write.thy ===== *)
theory Fat32_Write
  imports Fat32_Props
begin

text \<open>Creation of files and directories: outcomes, effect, and reading back.\<close>

section \<open>What a successful write did\<close>

definition required_clusters :: "FAT32DriverRequest \<Rightarrow> u8" where
  "required_clusters rq = clusters_needed (buffer_size rq) + (if buffer_size rq = 0 then 1 else 0)"

definition free_slots :: "FAT32DriverRequest \<Rightarrow> fat32 \<Rightarrow> u32 list" where
  "free_slots rq s = count_empty_fat_slots (cluster_map s) (required_clusters rq)"

definition after_data ::
  "(u32 \<Rightarrow> nat \<Rightarrow> 'm \<Rightarrow> u8 list) \<Rightarrow> 'm \<Rightarrow> FAT32DriverRequest \<Rightarrow> fat32 \<Rightarrow> fat32" where
  "after_data ld m rq s =
     (if buffer_size rq = 0 then write_folder rq (hd (free_slots rq s)) s
      else write_chain ld m (free_slots rq s) (rq_buf rq) s)"

definition entry_slot :: "FAT32DriverRequest \<Rightarrow> fat32 \<Rightarrow> nat" where
  "entry_slot rq s = (case write_scan rq 0 (table_at s (parent_cluster_number rq)) 0 of
     None \<Rightarrow> 0 | Some slot \<Rightarrow> unat slot)"

lemma not_less_required:
  "length xs \<le> unat (r :: u8) \<Longrightarrow> \<not> of_nat (length xs) < r \<longleftrightarrow> length xs = unat r"
  using unat_u8_lt [of r] by (auto simp: word_less_nat_alt)

text \<open>The conditions a write checks, in the order it checks them.\<close>

lemma write_fat32_eq:
  assumes "unat (parent_cluster_number rq) < 512"
  shows "write_fat32 ld m rq s =
    (if cluster_map s ! unat (parent_cluster_number rq) \<noteq> FAT32_FAT_END_OF_FILE then Inr (2, s)
     else case write_scan rq 0 (table_at s (parent_cluster_number rq)) 0 of
       None \<Rightarrow> Inr (1, s)
     | Some slot \<Rightarrow>
         if slot = 0 \<or> length (free_slots rq s) \<noteq> unat (required_clusters rq) then Inr (- 1, s)
         else if required_clusters rq = 0 then Inl Uninitialised
         else Inr (0, (after_data ld m rq s)\<lparr> storage :=
                write_clusters (encode_dir_table ((table_at s (parent_cluster_number rq))
                  [unat slot := new_entry rq (buffer_size rq = 0) (hd (free_slots rq s))]))
                  (parent_cluster_number rq) 1 (storage (after_data ld m rq s)) \<rparr>))"
  using assms not_less_required [OF count_empty_length, of "cluster_map s" "required_clusters rq"]
  unfolding write_fat32_def Let_def free_slots_def [symmetric] required_clusters_def [symmetric]
    after_data_def [symmetric]
  by (auto simp: free_slots_def split: option.splits)

lemma write_success:
  assumes "write_fat32 ld m rq s = Inr (0, s')"
  shows "unat (parent_cluster_number rq) < 512" (is ?p)
    and "cluster_map s ! unat (parent_cluster_number rq) = FAT32_FAT_END_OF_FILE" (is ?eof)
    and "\<forall>e \<in> set (table_at s (parent_cluster_number rq)). \<not> entry_matches rq e"
    and "entry_slot rq s < 64" "0 < entry_slot rq s"
    and "user_attribute (table_at s (parent_cluster_number rq) ! entry_slot rq s) \<noteq> UATTR_NOT_EMPTY"
    and "length (free_slots rq s) = unat (required_clusters rq)" "free_slots rq s \<noteq> []"
    and "s' = (after_data ld m rq s)\<lparr> storage :=
            write_clusters (encode_dir_table ((table_at s (parent_cluster_number rq))
              [entry_slot rq s := new_entry rq (buffer_size rq = 0) (hd (free_slots rq s))]))
              (parent_cluster_number rq) 1 (storage (after_data ld m rq s)) \<rparr>"
proof -
  show p: ?p
    using assms by (auto simp: write_fat32_def split: if_splits)
  show eof: ?eof
    using assms unfolding write_fat32_eq [OF p] by (auto split: if_splits)
  obtain slot where scan: "write_scan rq 0 (table_at s (parent_cluster_number rq)) 0 = Some slot"
    using assms eof unfolding write_fat32_eq [OF p] by (auto split: option.splits)
  then have es: "entry_slot rq s = unat slot" by (simp add: entry_slot_def)
  have rest: "slot \<noteq> 0" "length (free_slots rq s) = unat (required_clusters rq)"
    "required_clusters rq \<noteq> 0"
    "s' = (after_data ld m rq s)\<lparr> storage :=
            write_clusters (encode_dir_table ((table_at s (parent_cluster_number rq))
              [unat slot := new_entry rq (buffer_size rq = 0) (hd (free_slots rq s))]))
              (parent_cluster_number rq) 1 (storage (after_data ld m rq s)) \<rparr>"
    using assms eof scan unfolding write_fat32_eq [OF p] by (auto split: if_splits)
  show "\<forall>e \<in> set (table_at s (parent_cluster_number rq)). \<not> entry_matches rq e"
    using scan write_scan_None [of rq 0 "table_at s (parent_cluster_number rq)" 0] by auto
  show "entry_slot rq s < 64"
    "user_attribute (table_at s (parent_cluster_number rq) ! entry_slot rq s) \<noteq> UATTR_NOT_EMPTY"
    using write_scan_slot(2) [OF scan] rest(1) by (auto simp: es)
  show "0 < entry_slot rq s" "free_slots rq s \<noteq> []"
    using rest(1-3) by (auto simp: es unat_gt_0 unat_eq_zero)
  show "length (free_slots rq s) = unat (required_clusters rq)" by (rule rest)
  show "s' = (after_data ld m rq s)\<lparr> storage :=
            write_clusters (encode_dir_table ((table_at s (parent_cluster_number rq))
              [entry_slot rq s := new_entry rq (buffer_size rq = 0) (hd (free_slots rq s))]))
              (parent_cluster_number rq) 1 (storage (after_data ld m rq s)) \<rparr>"
    unfolding es by (rule rest)
qed

section \<open>The state after a successful write\<close>

lemma new_entry_wf [simp]: "entry_wf (new_entry rq b c)"
  by (simp add: new_entry_def entry_wf_def zero_entry_def)

lemma entry_cluster_new [simp]: "entry_cluster (new_entry rq b c) = c"
  by (simp add: new_entry_def)

lemma new_entry_fields [simp]:
  "length (rq_name rq) = 8 \<Longrightarrow> de_name (new_entry rq b c) = rq_name rq"
  "length (rq_ext rq) = 3 \<Longrightarrow> de_ext (new_entry rq b c) = rq_ext rq"
  "user_attribute (new_entry rq b c) = UATTR_NOT_EMPTY"
  "attribute (new_entry rq b c) = (if b then ATTR_SUBDIRECTORY else 0)"
  "filesize (new_entry rq b c) = buffer_size rq"
  by (simp_all add: new_entry_def map_nth [symmetric] del: upt.simps)
     (metis map_nth)+

text \<open>The table of a new directory: its own entry, its parent's, and 62 empty ones.\<close>

definition child_table :: "FAT32DriverRequest \<Rightarrow> u32 \<Rightarrow> fat32 \<Rightarrow> dir_table" where
  "child_table rq c s =
     (let t = init_directory_table (storage s) zero_table (rq_name rq) (parent_cluster_number rq)
      in t[0 := (t ! 0)\<lparr> cluster_low := cluster_lo c, cluster_high := cluster_hi c \<rparr>])"

lemma child_table_wf [simp]: "table_wf (child_table rq c s)"
proof -
  let ?t = "init_directory_table (storage s) zero_table (rq_name rq) (parent_cluster_number rq)"
  have "entry_wf (?t ! 0)" by (intro table_wf_nth) simp_all
  then show ?thesis
    unfolding child_table_def Let_def
    by (intro table_wf_update init_directory_table_wf table_wf_zero) (simp add: entry_wf_def)
qed

lemma write_folder_eq:
  "write_folder rq c s =
     s\<lparr> cluster_map := link_chain (cluster_map s) [c],
        storage := write_clusters (encode_fat (link_chain (cluster_map s) [c])) 1 1
          (write_clusters (encode_dir_table (child_table rq c s)) c 1 (storage s)) \<rparr>"
  by (simp add: write_folder_def child_table_def Let_def)

lemma folder_one_slot:
  assumes "buffer_size rq = 0" and "length (free_slots rq s) = unat (required_clusters rq)"
  shows "\<exists>c. free_slots rq s = [c]"
proof -
  have "required_clusters rq = 1"
    using assms(1) ceil_exact [of 0 11 2048] by (simp add: required_clusters_def clusters_needed_def)
  with assms(2) show ?thesis by (simp add: length_Suc_conv)
qed

lemma free_slots_facts:
  assumes "fs_wf s"
  shows "\<forall>c \<in> set (free_slots rq s). data_cluster c \<and> cluster_map s ! unat c = 0"
    and "distinct (free_slots rq s)"
  using free_slot_data [OF assms] count_empty_distinct by (auto simp: free_slots_def)

lemma after_data_facts:
  assumes wf: "fs_wf s" and ld: "\<And>p. length (ld p 2048 m) = 2048"
    and len: "length (free_slots rq s) = unat (required_clusters rq)"
  shows "cluster_map (after_data ld m rq s) = link_chain (cluster_map s) (free_slots rq s)" (is ?map)
    and "read_clusters (storage (after_data ld m rq s)) 1 1 =
         encode_fat (link_chain (cluster_map s) (free_slots rq s))" (is ?fat)
    and "read_blocks (storage (after_data ld m rq s)) 0 1 = fs_signature" (is ?boot)
    and "x \<notin> set (free_slots rq s) \<Longrightarrow> x \<noteq> 1 \<Longrightarrow> unat x < 2 ^ 21 \<Longrightarrow>
         read_clusters (storage (after_data ld m rq s)) x 1 = read_clusters (storage s) x 1"
proof -
  have l: "length (cluster_map s) = 512" by (rule fs_wf_length [OF wf])
  have dc: "\<forall>c \<in> set (free_slots rq s). data_cluster c"
    using free_slots_facts(1) [OF wf] by blast
  have disk: "read_clusters (storage s) 1 1 = encode_fat (cluster_map s)"
    "read_blocks (storage s) 0 1 = fs_signature"
    using wf by (simp_all add: fs_wf_def)
  have "?map \<and> ?fat \<and> ?boot \<and>
    (x \<notin> set (free_slots rq s) \<longrightarrow> x \<noteq> 1 \<longrightarrow> unat x < 2 ^ 21 \<longrightarrow>
      read_clusters (storage (after_data ld m rq s)) x 1 = read_clusters (storage s) x 1)"
  proof (cases "buffer_size rq = 0")
    case True
    then obtain c where c: "free_slots rq s = [c]"
      using folder_one_slot len by blast
    then have "data_cluster c" using dc by simp
    with True c l disk show ?thesis
      by (auto simp: after_data_def write_folder_eq boot_write_cluster read_write_other)
  next
    case False
    with l disk dc ld show ?thesis
      by (auto simp: after_data_def write_chain_fat write_chain_boot write_chain_frame)
  qed
  then show ?map ?fat ?boot
    "x \<notin> set (free_slots rq s) \<Longrightarrow> x \<noteq> 1 \<Longrightarrow> unat x < 2 ^ 21 \<Longrightarrow>
         read_clusters (storage (after_data ld m rq s)) x 1 = read_clusters (storage s) x 1"
    by blast+
qed

text \<open>
  What a caller can rely on after a successful write into a directory of the data area, beside
  \<open>write_success\<close>: the clusters allocated are \<open>free_slots rq s\<close> and the directory entry filled is
  number \<open>entry_slot rq s\<close>.
\<close>

lemma write_effect:
  assumes wf: "fs_wf s" and ld: "\<And>p. length (ld p 2048 m) = 2048"
    and p: "data_cluster (parent_cluster_number rq)"
    and w: "write_fat32 ld m rq s = Inr (0, s')"
  shows "parent_cluster_number rq \<notin> set (free_slots rq s)" (is ?par)
    and "cluster_map s' = link_chain (cluster_map s) (free_slots rq s)" (is ?map)
    and "is_chain (cluster_map s') (free_slots rq s)" (is ?chain)
    and "table_at s' (parent_cluster_number rq) = (table_at s (parent_cluster_number rq))
           [entry_slot rq s := new_entry rq (buffer_size rq = 0) (hd (free_slots rq s))]"
    and "fs_wf s'" (is ?wf)
    and "\<And>x. x \<noteq> 1 \<Longrightarrow> x \<noteq> parent_cluster_number rq \<Longrightarrow> unat x < 2 ^ 21 \<Longrightarrow>
       read_clusters (storage s') x 1 = read_clusters (storage (after_data ld m rq s)) x 1"
    and "\<And>x. x \<notin> set (free_slots rq s) \<Longrightarrow> x \<noteq> 1 \<Longrightarrow> x \<noteq> parent_cluster_number rq \<Longrightarrow> unat x < 2 ^ 21 \<Longrightarrow>
       read_clusters (storage s') x 1 = read_clusters (storage s) x 1"
proof -
  let ?p = "parent_cluster_number rq" and ?cs = "free_slots rq s"
  note ws = write_success [OF w]
  note ad = after_data_facts [of s ld m rq, OF wf ld ws(7)]
  note free = free_slots_facts [OF wf, of rq]
  show ?par using free(1) ws(2) by auto
  let ?t = "(table_at s ?p)[entry_slot rq s := new_entry rq (buffer_size rq = 0) (hd ?cs)]"
  have t: "table_wf ?t" by (intro table_wf_update) simp_all
  show map: ?map
    by (simp add: ws(9) ad(1))
  show ?chain
    unfolding map using free fs_wf_length [OF wf] ws(8)
    by (intro link_chain_is_chain) auto
  show "table_at s' ?p = ?t"
    using t p by (simp add: ws(9) codec)
  show fr: "read_clusters (storage s') x 1 = read_clusters (storage (after_data ld m rq s)) x 1"
    if "x \<noteq> 1" "x \<noteq> ?p" "unat x < 2 ^ 21" for x
    using that t p by (simp add: ws(9) read_write_other)
  then show "read_clusters (storage s') x 1 = read_clusters (storage s) x 1"
    if "x \<notin> set ?cs" "x \<noteq> 1" "x \<noteq> ?p" "unat x < 2 ^ 21" for x
    using that ad(4) by simp
  show ?wf
  proof -
    have "0 \<notin> unat ` set ?cs" "1 \<notin> unat ` set ?cs" "2 \<notin> unat ` set ?cs"
      using free(1) wf unfolding fs_wf_def by (auto simp: data_cluster_def)
    then show ?thesis
      using wf ad(2,3) p t
      unfolding fs_wf_def map by (simp add: link_chain_other ws(9) boot_write_cluster read_write_other)
  qed
qed

section \<open>Outcomes\<close>

lemma write_scan_used:
  "\<forall>e \<in> set es. user_attribute e = UATTR_NOT_EMPTY \<and> \<not> entry_matches rq e \<Longrightarrow>
     write_scan rq i es slot = Some slot"
  by (induction es arbitrary: i) (auto simp: Let_def)

lemma write_scan_zero:
  assumes "length t = 64"
  shows "write_scan rq 0 t 0 = Some 0 \<longleftrightarrow>
    (\<forall>e \<in> set t. \<not> entry_matches rq e) \<and> (\<forall>e \<in> set (tl t). user_attribute e = UATTR_NOT_EMPTY)"
proof -
  obtain e es where t: "t = e # es" "length es = 63"
    using assms by (cases t) auto
  have step: "write_scan rq 0 t 0 = (if entry_matches rq e then None else write_scan rq 1 es 0)"
    by (simp add: t Let_def)
  show ?thesis
    using write_scan_None [of rq 1 es 0] write_scan_full [of rq 1 es] write_scan_used [of es rq 1 0]
    unfolding step by (auto simp: t)
qed

lemma write_accepts:
  assumes "unat (parent_cluster_number rq) < 512" and "required_clusters rq \<noteq> 0"
    and "cluster_map s ! unat (parent_cluster_number rq) = FAT32_FAT_END_OF_FILE"
    and "\<forall>e \<in> set (table_at s (parent_cluster_number rq)). \<not> entry_matches rq e"
    and "e \<in> set (tl (table_at s (parent_cluster_number rq)))" "user_attribute e \<noteq> UATTR_NOT_EMPTY"
    and "unat (required_clusters rq) \<le> length (filter (\<lambda>i. cluster_map s ! i = 0) [0..<512])"
  shows "\<exists>s'. write_fat32 ld m rq s = Inr (0, s')"
proof -
  let ?t = "table_at s (parent_cluster_number rq)"
  obtain slot where slot: "write_scan rq 0 ?t 0 = Some slot"
    using assms(4) write_scan_None [of rq 0 ?t 0] by (cases "write_scan rq 0 ?t 0") auto
  then have "slot \<noteq> 0" using write_scan_zero [of ?t rq] assms(5,6) by auto
  moreover have "length (free_slots rq s) = unat (required_clusters rq)"
    using assms(7) by (simp add: free_slots_def count_empty_enough)
  ultimately show ?thesis
    using assms(1-3) slot by (simp add: write_fat32_eq)
qed

text \<open>On a freshly formatted disk a request with an extension is accepted.\<close>

lemma fresh_accepts:
  assumes "parent_cluster_number rq = 2" and "length (rq_ext rq) = 3" and "rq_ext rq \<noteq> replicate 3 0"
    and "required_clusters rq \<noteq> 0"
  shows "\<exists>s'. write_fat32 ld m rq (create_fat32 s) = Inr (0, s')"
proof -
  obtain d where d: "table_at (create_fat32 s) 2 = init_directory_table d zero_table root_name 2"
    using create_table_init by blast
  let ?t = "init_directory_table d zero_table root_name 2"
  have "\<not> entry_matches rq e" if "e \<in> set ?t" for e
    using init_table_ext [OF that] assms(2,3) by (simp add: entry_matches_def)
  moreover have "zero_entry \<in> set (tl ?t)"
  proof -
    have "length ?t = 64" using init_directory_table_wf [OF table_wf_zero] unfolding table_wf_def by blast
    then have "tl ?t ! 1 = zero_entry" "1 < length (tl ?t)"
      using init_table_nth(3) [of 2 d root_name 2] by (simp_all add: nth_tl numeral_2_eq_2)
    then show ?thesis by (metis nth_mem)
  qed
  ultimately show ?thesis
    using assms unat_u8_lt [of "required_clusters rq"] create_free_count [of s]
    by (intro write_accepts [where e = zero_entry])
       (auto simp: d create_cluster_map [THEN arg_cong [where f = "\<lambda>cm. cm ! 2"]] zero_entry_def simp del: upt.simps)
qed

lemma write_outcomes:
  "\<exists>s'. write_fat32 ld m rq s =
     (if 512 \<le> unat (parent_cluster_number rq) then Inl OutOfBounds
      else if cluster_map s ! unat (parent_cluster_number rq) \<noteq> FAT32_FAT_END_OF_FILE then Inr (2, s)
      else if \<exists>e \<in> set (table_at s (parent_cluster_number rq)). entry_matches rq e then Inr (1, s)
      else if (\<forall>e \<in> set (tl (table_at s (parent_cluster_number rq))). user_attribute e = UATTR_NOT_EMPTY)
           \<or> length (filter (\<lambda>i. cluster_map s ! i = 0) [0..<512]) < unat (required_clusters rq)
        then Inr (- 1, s)
      else if required_clusters rq = 0 then Inl Uninitialised
      else Inr (0, s'))"
proof (cases "512 \<le> unat (parent_cluster_number rq)")
  case False
  let ?t = "table_at s (parent_cluster_number rq)"
  have enough: "length (free_slots rq s) \<noteq> unat (required_clusters rq) \<longleftrightarrow>
      length (filter (\<lambda>i. cluster_map s ! i = 0) [0..<512]) < unat (required_clusters rq)"
    by (simp add: free_slots_def count_empty_enough not_le del: upt.simps)
  show ?thesis
  proof (cases "write_scan rq 0 ?t 0")
    case None
    then show ?thesis
      using False write_scan_None [of rq 0 ?t 0] by (auto simp: write_fat32_eq)
  next
    case (Some slot)
    then have "\<not> (\<exists>e \<in> set ?t. entry_matches rq e)"
      using write_scan_None [of rq 0 ?t 0] by auto
    moreover from this have "slot = 0 \<longleftrightarrow> (\<forall>e \<in> set (tl ?t). user_attribute e = UATTR_NOT_EMPTY)"
      using Some write_scan_zero [of ?t rq] by auto
    ultimately show ?thesis
      using False Some enough by (auto simp: write_fat32_eq simp del: upt.simps)
  qed
qed (simp add: write_fat32_def)

lemma write_returns:
  assumes "unat (parent_cluster_number rq) < 512" and "required_clusters rq \<noteq> 0"
  shows "\<exists>s'. write_fat32 ld m rq s = Inr
      (if cluster_map s ! unat (parent_cluster_number rq) \<noteq> FAT32_FAT_END_OF_FILE then (2, s)
       else if \<exists>e \<in> set (table_at s (parent_cluster_number rq)). entry_matches rq e then (1, s)
       else if (\<forall>e \<in> set (tl (table_at s (parent_cluster_number rq))). user_attribute e = UATTR_NOT_EMPTY)
            \<or> length (filter (\<lambda>i. cluster_map s ! i = 0) [0..<512]) < unat (required_clusters rq)
         then (- 1, s)
       else (0, s'))"
proof -
  obtain s' where "write_fat32 ld m rq s =
     (if 512 \<le> unat (parent_cluster_number rq) then Inl OutOfBounds
      else if cluster_map s ! unat (parent_cluster_number rq) \<noteq> FAT32_FAT_END_OF_FILE then Inr (2, s)
      else if \<exists>e \<in> set (table_at s (parent_cluster_number rq)). entry_matches rq e then Inr (1, s)
      else if (\<forall>e \<in> set (tl (table_at s (parent_cluster_number rq))). user_attribute e = UATTR_NOT_EMPTY)
           \<or> length (filter (\<lambda>i. cluster_map s ! i = 0) [0..<512]) < unat (required_clusters rq)
        then Inr (- 1, s)
      else if required_clusters rq = 0 then Inl Uninitialised
      else Inr (0, s'))"
    using write_outcomes [of ld m rq s] by (elim exE)
  with assms show ?thesis by (intro exI [where x = s']) (simp del: upt.simps upt_rec_numeral)
qed


definition note_txt :: "u32 \<Rightarrow> FAT32DriverRequest" where
  "note_txt sz = \<lparr> rq_buf = 0x1000, rq_name = map of_char ''note'' @ [0, 0, 0, 0],
     rq_ext = map of_char ''txt'', parent_cluster_number = 2, buffer_size = sz \<rparr>"

lemma note_txt_required: "required_clusters (note_txt 5000) = 3"
  using ceil_exact [of 5000 11 2048]
  by (simp add: required_clusters_def note_txt_def clusters_needed_def)

lemma note_txt_fresh: "\<exists>s'. write_fat32 ld m (note_txt 5000) fresh_fs = Inr (0, s')"
  unfolding fresh_fs_def using note_txt_required
  by (intro fresh_accepts) (auto simp: note_txt_def numeral_3_eq_3)


end
