(* ===== verification/Fat32_Files.thy ===== *)
theory Fat32_Files
  imports Fat32_Write
begin

text \<open>
  Files and directories as their users see them: what was written is what is read, a new directory
  has its two own entries and nothing else, and other files are not disturbed.
\<close>

section \<open>Searches in an updated table\<close>

lemma find_update_unique:
  "\<forall>e \<in> set t. \<not> P e \<Longrightarrow> i < length t \<Longrightarrow> P x \<Longrightarrow> find P (t[i := x]) = Some x"
  by (induction t arbitrary: i) (auto split: nat.splits)

lemma find_update_other:
  "find P t = Some e \<Longrightarrow> t ! i \<noteq> e \<Longrightarrow> \<not> P x \<Longrightarrow> find P (t[i := x]) = Some e"
  by (induction t arbitrary: i) (auto split: nat.splits if_splits)

lemma entry_matches_eq:
  assumes "entry_wf e" and "length (rq_name rq) = 8" and "length (rq_ext rq) = 3"
  shows "entry_matches rq e \<longleftrightarrow> de_name e = rq_name rq \<and> de_ext e = rq_ext rq"
  using assms by (simp add: entry_matches_def entry_wf_def)

lemma entry_matches_cong:
  "rq_name rq' = rq_name rq \<Longrightarrow> rq_ext rq' = rq_ext rq \<Longrightarrow> entry_matches rq' = entry_matches rq"
  by (auto simp: entry_matches_def)

section \<open>Sizes\<close>

text \<open>Up to 255 clusters the 8-bit count of the driver is the exact rounded-up quotient.\<close>

definition clusters_of :: "u32 \<Rightarrow> nat" where
  "clusters_of sz = (unat sz + 2047) div 2048"

lemma clusters_needed_exact:
  assumes "unat sz \<le> 255 * 2048"
  shows "clusters_needed sz = of_nat (clusters_of sz)" and "unat (clusters_needed sz) = clusters_of sz"
    and "clusters_of sz \<le> 255"
proof -
  show eq: "clusters_needed sz = of_nat (clusters_of sz)"
    unfolding clusters_needed_def clusters_of_def using assms ceil_exact [of sz 11 2048] by simp
  show le: "clusters_of sz \<le> 255"
    using assms unfolding clusters_of_def by linarith
  show "unat (clusters_needed sz) = clusters_of sz"
    unfolding eq using le by simp
qed

lemma size_le_clusters: "unat sz \<le> 2048 * clusters_of sz"
  unfolding clusters_of_def by linarith

lemma clusters_of_pos: "0 < unat sz \<Longrightarrow> 0 < clusters_of sz"
  unfolding clusters_of_def by linarith

lemma load_prefix: "n \<le> k \<Longrightarrow> load_bytes p n m = take n (load_bytes p k m)"
  by (rule nth_equalityI) simp_all

lemma buffer_enough:
  assumes "unat sz \<le> 255 * 2048" and "2048 * clusters_of sz \<le> unat (n :: u32)"
  shows "\<not> n div 2048 < ucast (clusters_needed sz)"
proof -
  have "clusters_of sz \<le> unat n div 2048" using assms(2) by simp
  then show ?thesis
    using clusters_needed_exact [OF assms(1)]
    by (simp add: word_less_nat_alt unat_div not_less)
qed

section \<open>Reading back\<close>

lemma write_file_data:
  assumes wf: "fs_wf s" and p: "data_cluster (parent_cluster_number rq)"
    and nz: "buffer_size rq \<noteq> 0" and w: "write_fat32 load_bytes m rq s = Inr (0, s')"
  shows "chain_bytes (storage s') (free_slots rq s) =
         load_bytes (rq_buf rq) (2048 * unat (required_clusters rq)) m"
proof -
  let ?cs = "free_slots rq s"
  note we = write_effect [OF wf length_load_bytes p w]
  note free = free_slots_facts [OF wf, of rq]
  have "map (\<lambda>c. read_clusters (storage s') c 1) ?cs =
        map (\<lambda>c. read_clusters (storage (write_chain load_bytes m ?cs (rq_buf rq) s)) c 1) ?cs"
  proof (intro map_cong refl)
    fix c assume "c \<in> set ?cs"
    then have "data_cluster c" "c \<noteq> parent_cluster_number rq" using we(1) free by auto
    with we(6) [of c] show "read_clusters (storage s') c 1 =
        read_clusters (storage (write_chain load_bytes m ?cs (rq_buf rq) s)) c 1"
      using nz by (simp add: after_data_def)
  qed
  also have "\<dots> = map (\<lambda>j. load_bytes (rq_buf rq + of_nat (2048 * j)) 2048 m) [0..<length ?cs]"
    using free fs_wf_length [OF wf] by (intro write_chain_data) auto
  finally show ?thesis
    using load_clusters [of "rq_buf rq" m "length ?cs"] write_success(7) [OF w] by (simp add: chain_bytes_def)
qed

lemma read_after_write:
  assumes wf: "fs_wf s" and p: "data_cluster (parent_cluster_number rq)"
    and name: "length (rq_name rq) = 8" "length (rq_ext rq) = 3"
    and sz: "0 < unat (buffer_size rq)" "unat (buffer_size rq) \<le> 255 * 2048"
    and w: "write_fat32 load_bytes m rq s = Inr (0, s')"
    and n: "2048 * clusters_of (buffer_size rq) \<le> unat n"
  shows "read store_bytes s' (rq\<lparr> rq_buf := q, buffer_size := n \<rparr>) m' =
    Some (Inr (0, store_bytes q (load_bytes (rq_buf rq) (2048 * clusters_of (buffer_size rq)) m) m'))"
proof -
  let ?p = "parent_cluster_number rq" and ?rq = "rq\<lparr> rq_buf := q, buffer_size := n \<rparr>"
  let ?cs = "free_slots rq s"
  note ws = write_success [OF w] and we = write_effect [OF wf length_load_bytes p w]
  let ?e = "new_entry rq False (hd ?cs)" and ?k = "clusters_of (buffer_size rq)"
  have nz: "buffer_size rq \<noteq> 0" using sz by auto
  have k: "length ?cs = ?k"
    using ws(7) clusters_needed_exact [OF sz(2)] nz by (simp add: required_clusters_def)
  have found: "find (entry_matches ?rq) (table_at s' ?p) = Some ?e"
    using ws(3,4) we(4) nz name entry_matches_cong [of ?rq rq]
      find_update_unique [of "table_at s ?p" "entry_matches rq" "entry_slot rq s" ?e]
    by (simp add: entry_matches_eq)
  have eof': "cluster_map s' ! unat ?p = FAT32_FAT_END_OF_FILE"
    using we(1,2) ws(2) by (simp add: link_chain_other unat_image_mem)
  have "read_chain store_bytes s' q (hd ?cs) 0 m' =
        Some (Inr (store_chain store_bytes (storage s') q ?cs 0 m'))"
    using read_chain_ends [of s' "hd ?cs" "tl ?cs"] we(3) ws(8) by simp
  also have "store_chain store_bytes (storage s') q ?cs 0 m' = store_bytes q (chain_bytes (storage s') ?cs) m'"
    using store_chain_flat [of 0 ?cs "storage s'" q m'] k clusters_needed_exact(3) [OF sz(2)] by simp
  also have "chain_bytes (storage s') ?cs = load_bytes (rq_buf rq) (2048 * ?k) m"
    using write_file_data [OF wf p nz w] ws(7) k by simp
  finally show ?thesis
    using found eof' p buffer_enough [OF sz(2) n] by (simp add: read_def not_le)
qed

text \<open>
  C2: Reading back a file of up to 255 clusters, with any buffer large enough for its clusters,
  returns 0 and puts into the buffer exactly the bytes that were at the writer's buffer; nothing
  outside the buffer's clusters changes.
\<close>

theorem write_read_roundtrip:
  assumes wf: "fs_wf s" and p: "data_cluster (parent_cluster_number rq)"
    and name: "length (rq_name rq) = 8" "length (rq_ext rq) = 3"
    and sz: "0 < unat (buffer_size rq)" "unat (buffer_size rq) \<le> 255 * 2048"
    and w: "write_fat32 load_bytes m rq s = Inr (0, s')"
    and n: "2048 * clusters_of (buffer_size rq) \<le> unat n"
  shows "\<exists>m''. read store_bytes s' (rq\<lparr> rq_buf := q, buffer_size := n \<rparr>) m' = Some (Inr (0, m'')) \<and>
    load_bytes q (unat (buffer_size rq)) m'' = load_bytes (rq_buf rq) (unat (buffer_size rq)) m \<and>
    (\<forall>a. 2048 * clusters_of (buffer_size rq) \<le> unat (a - q) \<longrightarrow> m'' a = m' a)"
proof -
  let ?bs = "load_bytes (rq_buf rq) (2048 * clusters_of (buffer_size rq)) m"
  have "load_bytes q (2048 * clusters_of (buffer_size rq)) (store_bytes q ?bs m') = ?bs"
    using load_store_same [of ?bs q m'] clusters_needed_exact(3) [OF sz(2)] by simp
  then have "load_bytes q (unat (buffer_size rq)) (store_bytes q ?bs m') =
             load_bytes (rq_buf rq) (unat (buffer_size rq)) m"
    using load_prefix [OF size_le_clusters] by metis
  with read_after_write [OF assms] show ?thesis
    by (auto simp: store_bytes_def)
qed

lemma note_txt_simps [simp]:
  "parent_cluster_number (note_txt n) = 2" "buffer_size (note_txt n) = n" "rq_buf (note_txt n) = 0x1000"
  "length (rq_name (note_txt n)) = 8" "length (rq_ext (note_txt n)) = 3" "data_cluster 2"
  by (simp_all add: note_txt_def data_cluster_def)

theorem write_read_roundtrip_witness:
  "\<exists>s' m''. write_fat32 load_bytes (\<lambda>a. ucast a) (note_txt 5000) fresh_fs = Inr (0, s') \<and>
     read store_bytes s' ((note_txt 5000)\<lparr> rq_buf := 0x90000, buffer_size := 8000 \<rparr>) (\<lambda>_. 0) = Some (Inr (0, m'')) \<and>
     load_bytes 0x90000 5000 m'' = load_bytes 0x1000 5000 (\<lambda>a. ucast a)"
proof -
  obtain s' where s': "write_fat32 load_bytes (\<lambda>a. ucast a) (note_txt 5000) fresh_fs = Inr (0, s')"
    using note_txt_fresh [of load_bytes "\<lambda>a. ucast a"] by (elim exE)
  have n: "2048 * clusters_of (buffer_size (note_txt 5000)) \<le> unat (8000 :: u32)"
    by (simp only: note_txt_simps clusters_of_def) simp
  have wf: "fs_wf fresh_fs" unfolding fresh_fs_def by (rule create_fat32_fs_wf)
  have sz: "unat (buffer_size (note_txt 5000)) = 5000" by simp
  obtain m'' where
    "read store_bytes s' ((note_txt 5000)\<lparr> rq_buf := 0x90000, buffer_size := 8000 \<rparr>) (\<lambda>_. 0) = Some (Inr (0, m''))"
    "load_bytes 0x90000 (unat (buffer_size (note_txt 5000))) m'' =
     load_bytes (rq_buf (note_txt 5000)) (unat (buffer_size (note_txt 5000))) (\<lambda>a. ucast a)"
    using write_read_roundtrip [OF wf _ _ _ _ _ s' n, of "0x90000" "\<lambda>_. 0"] unfolding sz by auto
  with s' show ?thesis unfolding sz by auto
qed

section \<open>Other files\<close>

lemma link_chain_keeps:
  assumes "is_chain cm ds" and "\<forall>c \<in> set cs. cm ! unat c = 0"
  shows "is_chain (link_chain cm cs) ds" and "set ds \<inter> set cs = {}"
proof -
  show dis: "set ds \<inter> set cs = {}"
    using is_chain_entry_nonzero [OF assms(1)] assms(2) by blast
  have "link_chain cm cs ! unat c = cm ! unat c" if "c \<in> set ds" for c
    using that dis by (intro link_chain_other) (auto simp: unat_image_mem)
  then show "is_chain (link_chain cm cs) ds"
    using assms(1) is_chain_cong by blast
qed

lemma store_chain_cong:
  "\<forall>c \<in> set cs. read_clusters d c 1 = read_clusters d' c 1 \<Longrightarrow>
     store_chain st d buf cs k m = store_chain st d' buf cs k m"
  by (induction cs arbitrary: k m) auto

text \<open>
  What a read depends on: the mark of the parent, the entry found, its chain, and the chain's data.
\<close>

lemma read_cong:
  assumes "cluster_map s' ! unat (parent_cluster_number rq) = cluster_map s ! unat (parent_cluster_number rq)"
    and "find (entry_matches rq) (table_at s (parent_cluster_number rq)) = Some e"
    and "find (entry_matches rq) (table_at s' (parent_cluster_number rq)) = Some e"
    and "is_chain (cluster_map s) (entry_cluster e # cs)" and "is_chain (cluster_map s') (entry_cluster e # cs)"
    and "\<forall>c \<in> set (entry_cluster e # cs). read_clusters (storage s') c 1 = read_clusters (storage s) c 1"
  shows "read st s' rq m = read st s rq m"
proof -
  have "store_chain st (storage s') (rq_buf rq) (entry_cluster e # cs) 0 m =
        store_chain st (storage s) (rq_buf rq) (entry_cluster e # cs) 0 m"
    by (rule store_chain_cong [OF assms(6)])
  then have "read_chain st s' (rq_buf rq) (entry_cluster e) 0 m =
             read_chain st s (rq_buf rq) (entry_cluster e) 0 m"
    by (simp only: read_chain_ends [OF assms(4)] read_chain_ends [OF assms(5)])
  with assms(1-3) show ?thesis
    by (simp add: read_def)
qed

text \<open>
  Creating a file or a directory does not disturb the others: a read of any file that is in use,
  whose chain is intact and does not hold the directory being written to, gives what it gave before.
\<close>

lemma write_keeps_files:
  assumes wf: "fs_wf s" and ld: "\<And>p. length (ld p 2048 m) = 2048"
    and p: "data_cluster (parent_cluster_number rq)" "length (rq_name rq) = 8" "length (rq_ext rq) = 3"
    and w: "write_fat32 ld m rq s = Inr (0, s')"
    and p2: "data_cluster (parent_cluster_number rq2)" "length (rq_name rq2) = 8" "length (rq_ext rq2) = 3"
    and used: "cluster_map s ! unat (parent_cluster_number rq2) \<noteq> 0"
    and e: "find (entry_matches rq2) (table_at s (parent_cluster_number rq2)) = Some e"
      "user_attribute e = UATTR_NOT_EMPTY"
    and chain: "is_chain (cluster_map s) (entry_cluster e # cs)"
      "parent_cluster_number rq \<notin> set (entry_cluster e # cs)"
  shows "read st s' rq2 mm = read st s rq2 mm"
proof -
  let ?p = "parent_cluster_number rq" and ?p2 = "parent_cluster_number rq2"
  let ?ns = "free_slots rq s" and ?i = "entry_slot rq s"
  note ws = write_success [OF w] and we = write_effect [of s ld m rq, OF wf ld p(1) w]
  note ns = free_slots_facts [OF wf, of rq]
  have p2ns: "?p2 \<notin> set ?ns" using used ns(1) by auto
  note keep = link_chain_keeps [OF chain(1), of ?ns]
  have mem: "e \<in> set (table_at s ?p2)" "entry_matches rq2 e"
    using e(1) by (auto simp: find_Some_iff)
  have "find (entry_matches rq2) (table_at s' ?p2) = Some e"
  proof (cases "?p2 = ?p")
    case False
    then have "read_clusters (storage s') ?p2 1 = read_clusters (storage s) ?p2 1"
      using we(7) [of ?p2] p2 p2ns by simp
    with e show ?thesis by simp
  next
    case True
    have "entry_wf e" using mem(1) table_wf_at unfolding table_wf_def by blast
    then have "\<not> (rq_name rq2 = rq_name rq \<and> rq_ext rq2 = rq_ext rq)"
      using mem True ws(3) entry_matches_cong [of rq2 rq] by auto
    then have "\<not> entry_matches rq2 (new_entry rq (buffer_size rq = 0) (hd ?ns))"
      using p p2 by (auto simp: entry_matches_eq)
    moreover have "table_at s ?p ! ?i \<noteq> e" using ws(6) e(2) by auto
    ultimately show ?thesis
      using find_update_other [of "entry_matches rq2" "table_at s ?p" e ?i] e(1) True we(4) by simp
  qed
  moreover have "\<forall>c \<in> set (entry_cluster e # cs). read_clusters (storage s') c 1 = read_clusters (storage s) c 1"
  proof
    fix c assume c: "c \<in> set (entry_cluster e # cs)"
    then have "data_cluster c" using is_chain_data [OF chain(1)] by blast
    moreover have "c \<notin> set ?ns" "c \<noteq> ?p" using c keep(2) ns(1) chain(2) by auto
    ultimately show "read_clusters (storage s') c 1 = read_clusters (storage s) c 1"
      using we(7) [of c] by simp
  qed
  moreover have "cluster_map s' ! unat ?p2 = cluster_map s ! unat ?p2"
    using p2ns by (simp add: we(2) link_chain_other unat_image_mem)
  ultimately show ?thesis
    using e(1) chain(1) keep(1) ns(1) we(2) by (intro read_cong) auto
qed

section \<open>Space\<close>

definition free_count :: "u32 list \<Rightarrow> nat" where
  "free_count cm = length (filter (\<lambda>i. cm ! i = 0) [0..<512])"

lemma free_count_card: "free_count cm = card {i. i < 512 \<and> cm ! i = 0}"
proof -
  have "free_count cm = card (set (filter (\<lambda>i. cm ! i = 0) [0..<512]))"
    unfolding free_count_def by (rule distinct_card [symmetric]) (rule distinct_filter [OF distinct_upt])
  also have "set (filter (\<lambda>i. cm ! i = 0) [0..<512]) = {i. i < 512 \<and> cm ! i = 0}"
    unfolding set_filter set_upt by auto
  finally show ?thesis .
qed

lemma card_unat_image: "distinct cs \<Longrightarrow> card (unat ` set (cs :: u32 list)) = length cs"
  by (simp add: card_image distinct_card inj_on_def word_unat_eq_iff)

lemma free_count_link:
  assumes chain: "is_chain (link_chain cm cs) cs" and free: "\<forall>c \<in> set cs. cm ! unat c = 0"
  shows "free_count (link_chain cm cs) + length cs = free_count cm"
proof -
  let ?F = "{i. i < 512 \<and> cm ! i = 0}"
  have "link_chain cm cs ! i = 0 \<longleftrightarrow> cm ! i = 0 \<and> i \<notin> unat ` set cs" if "i < 512" for i
    using that is_chain_entry_nonzero [OF chain] link_chain_other [of i cs cm] by (cases "i \<in> unat ` set cs") auto
  then have eq: "{i. i < 512 \<and> link_chain cm cs ! i = 0} = ?F - unat ` set cs"
    by auto
  have sub: "unat ` set cs \<subseteq> ?F"
    using free is_chain_data [OF chain] by auto
  have "card (?F - unat ` set cs) = card ?F - length cs"
    using sub card_unat_image [OF is_chain_distinct [OF chain]] by (simp add: card_Diff_subset)
  moreover have "length cs \<le> card ?F"
    using card_mono [OF _ sub] card_unat_image [OF is_chain_distinct [OF chain]] by simp
  ultimately show ?thesis
    unfolding free_count_card eq by simp
qed

lemma write_free_count:
  assumes "fs_wf s" and ld: "\<And>p. length (ld p 2048 m) = 2048"
    and "data_cluster (parent_cluster_number rq)" and "write_fat32 ld m rq s = Inr (0, s')"
  shows "free_count (cluster_map s') + unat (required_clusters rq) = free_count (cluster_map s)"
  using free_count_link [of "cluster_map s" "free_slots rq s"]
    write_effect(2,3) [of s ld m rq, OF assms(1) ld assms(3,4)]
    free_slots_facts(1) [OF assms(1), of rq] write_success(7) [OF assms(4)] by simp

text \<open>A second request into the same directory, with another extension.\<close>

definition todo_log :: FAT32DriverRequest where
  "todo_log = \<lparr> rq_buf = 0x2000, rq_name = map of_char ''todo'' @ [0, 0, 0, 0],
     rq_ext = map of_char ''log'', parent_cluster_number = 2, buffer_size = 100 \<rparr>"

lemma todo_log_simps [simp]:
  "parent_cluster_number todo_log = 2" "buffer_size todo_log = 100"
  "length (rq_name todo_log) = 8" "length (rq_ext todo_log) = 3"
  by (simp_all add: todo_log_def)

lemma todo_log_required: "required_clusters todo_log = 1"
  using ceil_exact [of 100 11 2048] by (simp add: required_clusters_def clusters_needed_def)

lemma fs_wf_fresh: "fs_wf fresh_fs"
  unfolding fresh_fs_def by (rule create_fat32_fs_wf)

lemma todo_log_accepted:
  assumes w: "write_fat32 load_bytes m (note_txt 5000) fresh_fs = Inr (0, s)"
  shows "\<exists>s'. write_fat32 load_bytes m' todo_log s = Inr (0, s')"
proof -
  obtain d where d: "table_at fresh_fs 2 = init_directory_table d zero_table root_name 2"
    using create_table_init unfolding fresh_fs_def by blast
  let ?k = "entry_slot (note_txt 5000) fresh_fs" and ?t = "init_directory_table d zero_table root_name 2"
  have p: "data_cluster (parent_cluster_number (note_txt 5000))" by simp
  note we = write_effect [OF fs_wf_fresh length_load_bytes p w] and ws = write_success [OF w]
  let ?e = "new_entry (note_txt 5000) (buffer_size (note_txt 5000) = 0) (hd (free_slots (note_txt 5000) fresh_fs))"
  have t: "table_at s 2 = ?t[?k := ?e]" using we(4) d by simp
  have len: "length ?t = 64" using init_directory_table_wf [OF table_wf_zero] unfolding table_wf_def by blast
  have ext: "de_ext e = replicate 3 0 \<or> de_ext e = map of_char ''txt''" if "e \<in> set (table_at s 2)" for e
    using that init_table_ext set_update_subset_insert [of ?t ?k ?e] unfolding t
    by (auto simp: note_txt_def new_entry_def upt_rec)
  have no: "\<not> entry_matches todo_log e" if "e \<in> set (table_at s 2)" for e
    using ext [OF that] by (auto simp: entry_matches_def todo_log_def numeral_3_eq_3)
  define j where "j = (if ?k = 2 then 3 else (2 :: nat))"
  have j: "tl (table_at s 2) ! (j - 1) = zero_entry" "j - 1 < length (tl (table_at s 2))"
    unfolding t using len init_table_nth(3) [of j d root_name 2] by (auto simp: j_def nth_tl)
  have "unat (required_clusters todo_log) \<le> length (filter (\<lambda>i. cluster_map s ! i = 0) [0..<512])"
    using write_free_count [OF fs_wf_fresh length_load_bytes p w] create_free_count [of blank_fs]
      note_txt_required todo_log_required unfolding free_count_def fresh_fs_def by (simp del: upt.simps)
  moreover have "cluster_map s ! 2 = FAT32_FAT_END_OF_FILE" using we(5) by (simp add: fs_wf_def)
  ultimately show ?thesis
    using no j nth_mem [OF j(2)] todo_log_required
    by (intro write_accepts [where e = zero_entry]) (auto simp: zero_entry_def)
qed

lemma new_entry_found:
  assumes "write_fat32 ld m rq s = Inr (0, s')" and "fs_wf s" and ld: "\<And>p. length (ld p 2048 m) = 2048"
    and "data_cluster (parent_cluster_number rq)" and "length (rq_name rq) = 8" and "length (rq_ext rq) = 3"
    and "rq_name rq' = rq_name rq" and "rq_ext rq' = rq_ext rq"
  shows "find (entry_matches rq') (table_at s' (parent_cluster_number rq)) =
         Some (new_entry rq (buffer_size rq = 0) (hd (free_slots rq s)))"
  using write_success(3,4) [OF assms(1)] write_effect(4) [of s ld m rq, OF assms(2) ld assms(4,1)]
    entry_matches_cong [OF assms(7,8)] assms(5,6)
    find_update_unique [of "table_at s (parent_cluster_number rq)" "entry_matches rq" "entry_slot rq s"]
  by (simp add: entry_matches_eq)

section \<open>Directories\<close>

lemma child_table_entries:
  "de_name (child_table rq c s ! 0) = copy_name (rq_name rq) 0 (replicate 8 0)"
  "entry_cluster (child_table rq c s ! 0) = c"
  "entry_cluster (child_table rq c s ! 1) = parent_cluster_number rq"
  "de_name (child_table rq c s ! 1) = de_name (table_at s (parent_cluster_number rq) ! 0)"
  "2 \<le> i \<Longrightarrow> i < 64 \<Longrightarrow> child_table rq c s ! i = zero_entry"
proof -
  let ?t = "init_directory_table (storage s) zero_table (rq_name rq) (parent_cluster_number rq)"
  have "length ?t = 64" using init_directory_table_wf [OF table_wf_zero] unfolding table_wf_def by blast
  then have "child_table rq c s ! 0 = (?t ! 0)\<lparr> cluster_low := cluster_lo c, cluster_high := cluster_hi c \<rparr>"
    "\<And>i. 0 < i \<Longrightarrow> child_table rq c s ! i = ?t ! i"
    by (simp_all add: child_table_def Let_def)
  moreover have "length (de_name (table_at s (parent_cluster_number rq) ! 0)) = 8"
    using table_wf_nth [OF table_wf_at, of 0] by (simp add: entry_wf_def)
  then have "map (\<lambda>j. de_name (table_at s (parent_cluster_number rq) ! 0) ! j) [0..<8] =
             de_name (table_at s (parent_cluster_number rq) ! 0)"
    by (metis map_nth)
  ultimately show "de_name (child_table rq c s ! 0) = copy_name (rq_name rq) 0 (replicate 8 0)"
    "entry_cluster (child_table rq c s ! 0) = c"
    "entry_cluster (child_table rq c s ! 1) = parent_cluster_number rq"
    "de_name (child_table rq c s ! 1) = de_name (table_at s (parent_cluster_number rq) ! 0)"
    "2 \<le> i \<Longrightarrow> i < 64 \<Longrightarrow> child_table rq c s ! i = zero_entry"
    by (simp_all add: init_table_nth init_table_nth(2) [unfolded One_nat_def] del: upt.simps)
qed

lemma write_folder_data:
  assumes wf: "fs_wf s" and ld: "\<And>p. length (ld p 2048 m) = 2048"
    and p: "data_cluster (parent_cluster_number rq)"
    and dir: "buffer_size rq = 0" and w: "write_fat32 ld m rq s = Inr (0, s')"
  shows "free_slots rq s = [hd (free_slots rq s)]"
    and "read_clusters (storage s') (hd (free_slots rq s)) 1 = encode_dir_table (child_table rq (hd (free_slots rq s)) s)"
proof -
  note ws = write_success [OF w] and we = write_effect [of s ld m rq, OF wf ld p w]
  show cs: "free_slots rq s = [hd (free_slots rq s)]"
    using folder_one_slot [OF dir ws(7)] by auto
  let ?c = "hd (free_slots rq s)"
  have "data_cluster ?c" "?c \<noteq> parent_cluster_number rq"
    using free_slots_facts(1) [OF wf, of rq] we(1) ws(8) by (auto dest: hd_in_set)
  then show "read_clusters (storage s') ?c 1 = encode_dir_table (child_table rq ?c s)"
    using we(6) [of ?c] dir fs_wf_length [OF wf]
    by (simp add: after_data_def write_folder_eq read_write_other)
qed

text \<open>
  C8: A successful request of size 0 creates a directory: listing it by name returns 0 and delivers
  a table whose first entry carries the name (up to its terminator) and its own cluster, whose second
  refers to the parent directory, and whose other 62 entries are empty; the new directory's cluster
  is marked as a chain's end, so it is accepted as a parent.
\<close>

theorem mkdir_then_list:
  assumes wf: "fs_wf s" and ld: "\<And>p. length (ld p 2048 m) = 2048"
    and p: "data_cluster (parent_cluster_number rq)"
    and name: "length (rq_name rq) = 8" "length (rq_ext rq) = 3"
    and dir: "buffer_size rq = 0" and w: "write_fat32 ld m rq s = Inr (0, s')" and n: "32 \<le> n"
  shows "\<exists>t c. read_directory st s' (rq\<lparr> rq_buf := q, buffer_size := n \<rparr>) m' = (0, st q (encode_dir_table t) m') \<and>
    table_at s' c = t \<and> data_cluster c \<and>
    cluster_map s ! unat c = 0 \<and> cluster_map s' ! unat c = FAT32_FAT_END_OF_FILE \<and>
    de_name (t ! 0) = copy_name (rq_name rq) 0 (replicate 8 0) \<and> entry_cluster (t ! 0) = c \<and>
    entry_cluster (t ! 1) = parent_cluster_number rq \<and>
    (\<forall>i. 2 \<le> i \<and> i < 64 \<longrightarrow> t ! i = zero_entry)"
proof -
  let ?c = "hd (free_slots rq s)" and ?rq = "rq\<lparr> rq_buf := q, buffer_size := n \<rparr>"
  note ws = write_success [OF w] and we = write_effect [of s ld m rq, OF wf ld p w]
  note data = write_folder_data [of s ld m rq, OF wf ld p dir w]
  have "find (\<lambda>e. user_attribute e = UATTR_NOT_EMPTY \<and> entry_matches ?rq e)
          (table_at s' (parent_cluster_number rq)) = Some (new_entry rq True ?c)"
    using find_update_unique [of "table_at s (parent_cluster_number rq)"
        "\<lambda>e. user_attribute e = UATTR_NOT_EMPTY \<and> entry_matches ?rq e" "entry_slot rq s"]
      ws(3,4) we(4) name dir entry_matches_cong [of ?rq rq]
    by (simp add: entry_matches_eq)
  then have "read_directory st s' ?rq m' = (0, st q (encode_dir_table (child_table rq ?c s)) m')"
    using n data(2) by (simp add: read_directory_def)
  moreover have "table_at s' ?c = child_table rq ?c s"
    using data(2) by (simp add: codec)
  moreover have "data_cluster ?c" "cluster_map s ! unat ?c = 0"
    using free_slots_facts(1) [OF wf, of rq] ws(8) by auto
  moreover have "cluster_map s' ! unat ?c = FAT32_FAT_END_OF_FILE"
    using we(3) data(1) by (metis is_chain.simps(2))
  ultimately show ?thesis
    using child_table_entries(1-3) [of rq ?c s] child_table_entries(5) [of _ rq ?c s] by blast
qed

definition docs_dir :: FAT32DriverRequest where
  "docs_dir = \<lparr> rq_buf = 0, rq_name = map of_char ''docs'' @ [0, 0, 0, 0],
     rq_ext = map of_char ''dir'', parent_cluster_number = 2, buffer_size = 0 \<rparr>"

theorem mkdir_then_list_witness:
  "\<exists>s' t c. write_fat32 load_bytes (\<lambda>_. 0) docs_dir fresh_fs = Inr (0, s') \<and>
     read_directory store_bytes s' (docs_dir\<lparr> rq_buf := 0x5000, buffer_size := 2048 \<rparr>) (\<lambda>_. 0) =
       (0, store_bytes 0x5000 (encode_dir_table t) (\<lambda>_. 0)) \<and>
     de_name (t ! 0) = map of_char ''docs'' @ [0, 0, 0, 0] \<and> entry_cluster (t ! 1) = 2 \<and> t ! 2 = zero_entry"
proof -
  have "required_clusters docs_dir = 1"
    using ceil_exact [of 0 11 2048] by (simp add: required_clusters_def clusters_needed_def docs_dir_def)
  then obtain s' where w: "write_fat32 load_bytes (\<lambda>_. 0) docs_dir fresh_fs = Inr (0, s')"
    using fresh_accepts [of docs_dir load_bytes "\<lambda>_. 0" blank_fs]
    by (auto simp: docs_dir_def fresh_fs_def numeral_3_eq_3)
  obtain t c where t: "read_directory store_bytes s' (docs_dir\<lparr> rq_buf := 0x5000, buffer_size := 2048 \<rparr>) (\<lambda>_. 0) =
        (0, store_bytes 0x5000 (encode_dir_table t) (\<lambda>_. 0))"
    "de_name (t ! 0) = copy_name (rq_name docs_dir) 0 (replicate 8 0)"
    "entry_cluster (t ! 1) = parent_cluster_number docs_dir" "\<forall>i. 2 \<le> i \<and> i < 64 \<longrightarrow> t ! i = zero_entry"
    using mkdir_then_list [OF fs_wf_fresh length_load_bytes _ _ _ _ w, of 2048 store_bytes "0x5000" "\<lambda>_. 0"]
    by (auto simp: docs_dir_def simp del: copy_name.simps)
  moreover have "copy_name (rq_name docs_dir) 0 (replicate 8 0) = map of_char ''docs'' @ [0, 0, 0, 0]"
    by code_simp
  moreover have "t ! 2 = zero_entry" using t(4) by simp
  ultimately show ?thesis using w by (auto simp: docs_dir_def)
qed

end
