(* ===== verification/Fat32_Delete.thy ===== *)
theory Fat32_Delete
  imports Fat32_Files
begin

text \<open>
  Deletion: every branch of the driver's \<open>delete\<close>, what it frees and clears, that it undoes a
  creation, and that other files are not disturbed.
\<close>

section \<open>The entry that is deleted\<close>

text \<open>The search starts at entry 2, so the entries of the directory itself and its parent stay.\<close>

definition victim :: "FAT32DriverRequest \<Rightarrow> fat32 \<Rightarrow> nat option" where
  "victim rq s = find (\<lambda>i. entry_matches rq (table_at s (parent_cluster_number rq) ! i)) [2..<64]"

definition deletable :: "fat32 \<Rightarrow> FAT32DirectoryEntry \<Rightarrow> bool" where
  "deletable s e \<longleftrightarrow> attribute e = ATTR_SUBDIRECTORY \<longrightarrow> folder_is_empty (table_at s (entry_cluster e))"

lemma folder_is_empty_eq:
  "folder_is_empty t \<longleftrightarrow> (\<forall>j. 2 \<le> j \<and> j < 64 \<longrightarrow> user_attribute (t ! j) \<noteq> UATTR_NOT_EMPTY)"
  unfolding folder_is_empty_def find_upt_None by blast

lemma delete_eq:
  assumes "unat (parent_cluster_number rq) < 512"
  shows "delete rq s =
    (if cluster_map s ! unat (parent_cluster_number rq) \<noteq> FAT32_FAT_END_OF_FILE then Some (Inr (2, s))
     else case victim rq s of
       None \<Rightarrow> Some (Inr (1, s))
     | Some i \<Rightarrow>
         if \<not> deletable s (table_at s (parent_cluster_number rq) ! i) then Some (Inr (2, s))
         else map_option (map_sum id (\<lambda>(cm, d). (0, s\<lparr> cluster_map := cm,
                storage := write_clusters (encode_fat cm) 1 1 d \<rparr>)))
              (delete_chain (entry_cluster (table_at s (parent_cluster_number rq) ! i)) (cluster_map s)
                (write_clusters (encode_dir_table ((table_at s (parent_cluster_number rq))[i := zero_entry]))
                  (parent_cluster_number rq) 1 (storage s))))"
  using assms unfolding delete_def victim_def deletable_def Let_def
  by (auto split: option.splits simp del: upt.simps)

section \<open>A deletion that succeeds\<close>

text \<open>The state after entry \<open>i\<close>, with chain \<open>cs\<close>, has been deleted.\<close>

definition deleted :: "FAT32DriverRequest \<Rightarrow> nat \<Rightarrow> u32 list \<Rightarrow> fat32 \<Rightarrow> fat32" where
  "deleted rq i cs s =
     s\<lparr> cluster_map := clear_chain cs (cluster_map s),
        storage := write_clusters (encode_fat (clear_chain cs (cluster_map s))) 1 1
          (wipe_chain cs (write_clusters
             (encode_dir_table ((table_at s (parent_cluster_number rq))[i := zero_entry]))
             (parent_cluster_number rq) 1 (storage s))) \<rparr>"

lemma delete_succeeds:
  assumes "fs_wf s" and "data_cluster (parent_cluster_number rq)"
    and "cluster_map s ! unat (parent_cluster_number rq) = FAT32_FAT_END_OF_FILE"
    and "victim rq s = Some i" and "deletable s (table_at s (parent_cluster_number rq) ! i)"
    and "is_chain (cluster_map s) cs" and "hd cs = entry_cluster (table_at s (parent_cluster_number rq) ! i)"
  shows "delete rq s = Some (Inr (0, deleted rq i cs s))"
proof -
  obtain cs' where "cs = entry_cluster (table_at s (parent_cluster_number rq) ! i) # cs'"
    using assms(6,7) by (cases cs) auto
  then show ?thesis
    using assms delete_chain_ends [of "cluster_map s" "hd cs" "tl cs"] fs_wf_length [OF assms(1)]
    by (simp add: delete_eq deleted_def)
qed

lemma deleted_effect:
  assumes wf: "fs_wf s" and p: "data_cluster (parent_cluster_number rq)" "parent_cluster_number rq \<notin> set cs"
    and chain: "is_chain (cluster_map s) cs" "2 \<notin> set cs"
  shows "cluster_map (deleted rq i cs s) = clear_chain cs (cluster_map s)" (is ?map)
    and "fs_wf (deleted rq i cs s)" (is ?wf)
    and "table_at (deleted rq i cs s) (parent_cluster_number rq) =
         (table_at s (parent_cluster_number rq))[i := zero_entry]"
    and "c \<in> set cs \<Longrightarrow> read_clusters (storage (deleted rq i cs s)) c 1 = replicate 2048 0"
    and "x \<notin> set cs \<Longrightarrow> x \<noteq> 1 \<Longrightarrow> x \<noteq> parent_cluster_number rq \<Longrightarrow> unat x < 2 ^ 21 \<Longrightarrow>
         read_clusters (storage (deleted rq i cs s)) x 1 = read_clusters (storage s) x 1"
proof -
  let ?t = "(table_at s (parent_cluster_number rq))[i := zero_entry]"
  have t: "table_wf ?t" by (intro table_wf_update) simp_all
  have dc: "\<forall>c \<in> set cs. data_cluster c" using is_chain_data [OF chain(1)] by blast
  then have one: "1 \<notin> set cs" by auto
  have l: "length (cluster_map s) = 512" by (rule fs_wf_length [OF wf])
  show ?map by (simp add: deleted_def)
  have same: "read_clusters (storage (deleted rq i cs s)) x 1 =
      read_clusters (wipe_chain cs (write_clusters (encode_dir_table ?t) (parent_cluster_number rq) 1 (storage s))) x 1"
    if "x \<noteq> 1" "unat x < 2 ^ 21" for x
    using that l by (simp add: deleted_def read_write_other)
  then show "c \<in> set cs \<Longrightarrow> read_clusters (storage (deleted rq i cs s)) c 1 = replicate 2048 0"
    using dc wipe_chain_zero [OF dc] by auto
  show "table_at (deleted rq i cs s) (parent_cluster_number rq) = ?t"
    using same [of "parent_cluster_number rq"] p t dc by (simp add: wipe_chain_frame codec)
  show "x \<notin> set cs \<Longrightarrow> x \<noteq> 1 \<Longrightarrow> x \<noteq> parent_cluster_number rq \<Longrightarrow> unat x < 2 ^ 21 \<Longrightarrow>
         read_clusters (storage (deleted rq i cs s)) x 1 = read_clusters (storage s) x 1"
    using same [of x] p t dc by (simp add: wipe_chain_frame read_write_other)
  have low: "0 \<notin> unat ` set cs" "1 \<notin> unat ` set cs" "2 \<notin> unat ` set cs"
    using dc chain(2) unat_image_mem [of 2 cs] by (auto simp: data_cluster_def)
  have "read_blocks (storage (deleted rq i cs s)) 0 1 = read_blocks (storage s) 0 1"
    using l t p dc by (simp add: deleted_def boot_write_cluster wipe_chain_boot)
  then show ?wf
    using wf low l unfolding fs_wf_def by (simp add: clear_chain_nth deleted_def)
qed

text \<open>
  The return code of a deletion, on every branch: 2 when the parent is not the last cluster of a
  chain, 1 when no entry from number 2 on has that name and extension, 2 when it is a directory that
  still has entries, and 0 otherwise, provided the entry's chain is intact.  In every case but the
  last nothing changes.
\<close>

theorem delete_outcome:
  assumes "fs_wf s" and "data_cluster (parent_cluster_number rq)"
    and "\<And>i. victim rq s = Some i \<Longrightarrow> \<exists>cs. is_chain (cluster_map s) cs \<and>
           hd cs = entry_cluster (table_at s (parent_cluster_number rq) ! i)"
  shows "\<exists>s'. delete rq s = Some (Inr
    (if cluster_map s ! unat (parent_cluster_number rq) \<noteq> FAT32_FAT_END_OF_FILE then (2, s)
     else if \<forall>i \<in> {2..<64}. \<not> entry_matches rq (table_at s (parent_cluster_number rq) ! i) then (1, s)
     else if \<exists>i. victim rq s = Some i \<and> attribute (table_at s (parent_cluster_number rq) ! i) = ATTR_SUBDIRECTORY \<and>
        (\<exists>j \<in> {2..<64}. user_attribute
           (table_at s (entry_cluster (table_at s (parent_cluster_number rq) ! i)) ! j) = UATTR_NOT_EMPTY)
       then (2, s)
     else (0, s')))"
proof -
  let ?t = "table_at s (parent_cluster_number rq)"
  have none: "victim rq s = None \<longleftrightarrow> (\<forall>i \<in> {2..<64}. \<not> entry_matches rq (?t ! i))"
    unfolding victim_def find_upt_None by auto
  have del: "\<not> deletable s e \<longleftrightarrow> attribute e = ATTR_SUBDIRECTORY \<and>
      (\<exists>j \<in> {2..<64}. user_attribute (table_at s (entry_cluster e) ! j) = UATTR_NOT_EMPTY)" for e
    unfolding deletable_def folder_is_empty_eq by (auto simp: Bex_def)
  show ?thesis
  proof (cases "victim rq s")
    case None
    then show ?thesis using assms(2) none by (simp add: delete_eq)
  next
    case (Some i)
    then obtain cs where cs: "is_chain (cluster_map s) cs" "hd cs = entry_cluster (?t ! i)"
      using assms(3) by blast
    show ?thesis
    proof (cases "cluster_map s ! unat (parent_cluster_number rq) = FAT32_FAT_END_OF_FILE \<and> deletable s (?t ! i)")
      case True
      then show ?thesis
        using delete_succeeds [OF assms(1,2) _ Some _ cs] none del [of "?t ! i"] Some
        by (simp del: bex_simps)
    next
      case False
      then show ?thesis
        using assms(2) none Some del [of "?t ! i"] by (auto simp: delete_eq)
    qed
  qed
qed

section \<open>What a deletion frees\<close>

lemma free_count_clear:
  assumes "is_chain cm cs" and "length cm = 512"
  shows "free_count (clear_chain cs cm) = free_count cm + length cs"
proof -
  let ?F = "{i. i < 512 \<and> cm ! i = 0}"
  have "\<forall>c \<in> set cs. unat c < 512 \<and> cm ! unat c \<noteq> 0"
    using is_chain_data [OF assms(1)] is_chain_entry_nonzero [OF assms(1)] by auto
  then have eq: "{i. i < 512 \<and> clear_chain cs cm ! i = 0} = ?F \<union> unat ` set cs" and "?F \<inter> unat ` set cs = {}"
    using assms(2) by (auto simp: clear_chain_nth)
  then show ?thesis
    using card_unat_image [OF is_chain_distinct [OF assms(1)]]
    unfolding free_count_card eq by (simp add: card_Un_disjoint)
qed

text \<open>
  C6: A successful deletion frees exactly the clusters of the entry's chain, returns their space,
  overwrites their data with zeros, clears exactly that entry of the parent's table and leaves the
  rest of the disk and the consistency of the driver's state alone.
\<close>

theorem delete_effect:
  assumes wf: "fs_wf s" and p: "data_cluster (parent_cluster_number rq)"
    "cluster_map s ! unat (parent_cluster_number rq) = FAT32_FAT_END_OF_FILE"
    and i: "victim rq s = Some i" "deletable s (table_at s (parent_cluster_number rq) ! i)"
    and chain: "is_chain (cluster_map s) cs" "hd cs = entry_cluster (table_at s (parent_cluster_number rq) ! i)"
    "parent_cluster_number rq \<notin> set cs" "2 \<notin> set cs"
  shows "\<exists>s'. delete rq s = Some (Inr (0, s')) \<and> fs_wf s' \<and>
    (\<forall>c. data_cluster c \<longrightarrow> cluster_map s' ! unat c = (if c \<in> set cs then 0 else cluster_map s ! unat c)) \<and>
    free_count (cluster_map s') = free_count (cluster_map s) + length cs \<and>
    (\<forall>c \<in> set cs. read_clusters (storage s') c 1 = replicate 2048 0) \<and>
    table_at s' (parent_cluster_number rq) = (table_at s (parent_cluster_number rq))[i := zero_entry] \<and>
    (\<forall>x. data_cluster x \<and> x \<notin> set cs \<and> x \<noteq> parent_cluster_number rq \<longrightarrow>
       read_clusters (storage s') x 1 = read_clusters (storage s) x 1)"
proof -
  note de = deleted_effect [OF wf p(1) chain(3,1,4)]
  have l: "length (cluster_map s) = 512" by (rule fs_wf_length [OF wf])
  have "free_count (cluster_map (deleted rq i cs s)) = free_count (cluster_map s) + length cs"
    using free_count_clear [OF chain(1) l] de(1) by simp
  moreover have "\<forall>c. data_cluster c \<longrightarrow> cluster_map (deleted rq i cs s) ! unat c =
      (if c \<in> set cs then 0 else cluster_map s ! unat c)"
    using l by (auto simp: de(1) clear_chain_nth unat_image_mem)
  ultimately show ?thesis
    using delete_succeeds [OF wf p i chain(1,2)] de by auto
qed

section \<open>Deletion undoes creation\<close>

lemma clear_link_chain:
  assumes "length cm = 512" and "\<forall>c \<in> set cs. cm ! unat c = 0" and "\<forall>c \<in> set cs. unat c < 512"
  shows "clear_chain cs (link_chain cm cs) = cm"
proof (rule nth_equalityI)
  show "length (clear_chain cs (link_chain cm cs)) = length cm" by simp
  fix i assume "i < length (clear_chain cs (link_chain cm cs))"
  with assms show "clear_chain cs (link_chain cm cs) ! i = cm ! i"
    by (auto simp: clear_chain_nth link_chain_other)
qed

text \<open>After a creation in a directory whose first two entries are in use, the new entry is the victim.\<close>

lemma victim_after_write:
  assumes wf: "fs_wf s" and ld: "\<And>p. length (ld p 2048 m) = 2048"
    and p: "data_cluster (parent_cluster_number rq)"
    and name: "length (rq_name rq) = 8" "length (rq_ext rq) = 3"
    and one: "user_attribute (table_at s (parent_cluster_number rq) ! 1) = UATTR_NOT_EMPTY"
    and w: "write_fat32 ld m rq s = Inr (0, s')"
  shows "victim rq s' = Some (entry_slot rq s)" and "2 \<le> entry_slot rq s"
proof -
  note ws = write_success [OF w] and we = write_effect [of s ld m rq, OF wf ld p w]
  have "entry_slot rq s \<noteq> 1" using ws(6) one by metis
  then show ge: "2 \<le> entry_slot rq s" using ws(5) by linarith
  have "entry_matches rq (table_at s' (parent_cluster_number rq) ! j) \<longleftrightarrow> j = entry_slot rq s" if "j < 64" for j
    using that ws(3,4) we(4) name by (cases "j = entry_slot rq s") (auto simp: entry_matches_eq)
  then show "victim rq s' = Some (entry_slot rq s)"
    using ge ws(4) unfolding victim_def find_upt_Some by auto
qed

text \<open>
  C7: In a directory whose entry 1 is in use, as it is in every directory that the code creates, deleting
  a file or directory right after creating it returns 0 and restores the allocation table; the parent's
  table differs from the original only in that the entry used is now all zero; and of the other
  clusters those that the creation used, which were free, now hold zeros, and the rest are unchanged.
\<close>

theorem write_delete_inverse:
  assumes wf: "fs_wf s" and ld: "\<And>p. length (ld p 2048 m) = 2048"
    and p: "data_cluster (parent_cluster_number rq)"
    and name: "length (rq_name rq) = 8" "length (rq_ext rq) = 3"
    and one: "user_attribute (table_at s (parent_cluster_number rq) ! 1) = UATTR_NOT_EMPTY"
    and w: "write_fat32 ld m rq s = Inr (0, s')"
  shows "\<exists>s''. delete rq s' = Some (Inr (0, s'')) \<and> fs_wf s'' \<and> cluster_map s'' = cluster_map s \<and>
    table_at s'' (parent_cluster_number rq) =
      (table_at s (parent_cluster_number rq))[entry_slot rq s := zero_entry] \<and>
    (\<forall>x. data_cluster x \<and> x \<noteq> parent_cluster_number rq \<longrightarrow>
       read_clusters (storage s'') x 1 =
         (if x \<in> set (free_slots rq s) then replicate 2048 0 else read_clusters (storage s) x 1)) \<and>
    (\<forall>x \<in> set (free_slots rq s). cluster_map s ! unat x = 0)"
proof -
  let ?p = "parent_cluster_number rq" and ?cs = "free_slots rq s" and ?i = "entry_slot rq s"
  note ws = write_success [OF w] and we = write_effect [of s ld m rq, OF wf ld p w]
  note free = free_slots_facts [OF wf, of rq]
  have v: "victim rq s' = Some ?i"
    by (rule victim_after_write(1) [of s ld m, OF wf ld p name one w])
  have e: "table_at s' ?p ! ?i = new_entry rq (buffer_size rq = 0) (hd ?cs)"
    using we(4) ws(4) by simp
  have two: "2 \<notin> set ?cs" using free(1) wf by (auto simp: fs_wf_def)
  have del: "deletable s' (table_at s' ?p ! ?i)"
  proof (cases "buffer_size rq = 0")
    case True
    then have "table_at s' (hd ?cs) = child_table rq (hd ?cs) s"
      using write_folder_data(2) [of s ld m rq, OF wf ld p True w] by (simp add: codec)
    with True show ?thesis
      unfolding e deletable_def folder_is_empty_eq by (auto simp: child_table_entries(5) zero_entry_def)
  qed (simp add: e deletable_def)
  have eof: "cluster_map s' ! unat ?p = FAT32_FAT_END_OF_FILE"
    using we(1,2) ws(2) by (simp add: link_chain_other unat_image_mem)
  have d: "delete rq s' = Some (Inr (0, deleted rq ?i ?cs s'))"
    by (rule delete_succeeds [OF we(5) p eof v del we(3)]) (simp only: e entry_cluster_new)
  note de = deleted_effect [OF we(5) p we(1,3) two]
  have "cluster_map (deleted rq ?i ?cs s') = cluster_map s"
    unfolding de(1) we(2) using free(1) fs_wf_length [OF wf] by (intro clear_link_chain) auto
  moreover have "table_at (deleted rq ?i ?cs s') ?p = (table_at s ?p)[?i := zero_entry]"
    unfolding de(3) we(4) by simp
  moreover have "read_clusters (storage (deleted rq ?i ?cs s')) x 1 =
      (if x \<in> set ?cs then replicate 2048 0 else read_clusters (storage s) x 1)"
    if "data_cluster x" "x \<noteq> ?p" for x
    using that de(4) [of x] de(5) [of x] we(7) [of x] by simp
  ultimately show ?thesis
    using d de(2) free(1) by (intro exI [where x = "deleted rq ?i ?cs s'"]) simp
qed

section \<open>Instances on a freshly formatted disk\<close>

lemma fresh_parent_entry: "user_attribute (table_at fresh_fs (parent_cluster_number (note_txt n)) ! 1) = UATTR_NOT_EMPTY"
proof -
  obtain d where "table_at fresh_fs 2 = init_directory_table d zero_table root_name 2"
    using create_table_init unfolding fresh_fs_def by blast
  then show ?thesis by (simp add: init_table_nth(2) [unfolded One_nat_def])
qed

text \<open>The state after one file was written satisfies what a deletion of it needs.\<close>

lemma note_txt_deletable:
  assumes w: "write_fat32 load_bytes m (note_txt 5000) fresh_fs = Inr (0, s)"
  shows "fs_wf s" and "data_cluster (parent_cluster_number (note_txt 5000))"
    and "cluster_map s ! unat (parent_cluster_number (note_txt 5000)) = FAT32_FAT_END_OF_FILE"
    and "victim (note_txt 5000) s = Some (entry_slot (note_txt 5000) fresh_fs)"
    and "deletable s (table_at s (parent_cluster_number (note_txt 5000)) ! entry_slot (note_txt 5000) fresh_fs)"
    and "is_chain (cluster_map s) (free_slots (note_txt 5000) fresh_fs)"
    and "hd (free_slots (note_txt 5000) fresh_fs) =
         entry_cluster (table_at s (parent_cluster_number (note_txt 5000)) ! entry_slot (note_txt 5000) fresh_fs)"
    and "parent_cluster_number (note_txt 5000) \<notin> set (free_slots (note_txt 5000) fresh_fs)"
proof -
  show p: "data_cluster (parent_cluster_number (note_txt 5000))" by simp
  note we = write_effect [OF fs_wf_fresh length_load_bytes p w] and ws = write_success [OF w]
  show "fs_wf s" by (rule we(5))
  then show "cluster_map s ! unat (parent_cluster_number (note_txt 5000)) = FAT32_FAT_END_OF_FILE"
    by (simp add: fs_wf_def)
  show "victim (note_txt 5000) s = Some (entry_slot (note_txt 5000) fresh_fs)"
    using victim_after_write(1) [OF fs_wf_fresh length_load_bytes p _ _ fresh_parent_entry w] by simp
  have e: "table_at s (parent_cluster_number (note_txt 5000)) ! entry_slot (note_txt 5000) fresh_fs =
      new_entry (note_txt 5000) False (hd (free_slots (note_txt 5000) fresh_fs))"
    unfolding we(4) using ws(4) by simp
  show "deletable s (table_at s (parent_cluster_number (note_txt 5000)) ! entry_slot (note_txt 5000) fresh_fs)"
    unfolding e by (simp add: deletable_def)
  show "hd (free_slots (note_txt 5000) fresh_fs) =
      entry_cluster (table_at s (parent_cluster_number (note_txt 5000)) ! entry_slot (note_txt 5000) fresh_fs)"
    unfolding e by (rule entry_cluster_new [symmetric])
  show "is_chain (cluster_map s) (free_slots (note_txt 5000) fresh_fs)" by (rule we(3))
  show "parent_cluster_number (note_txt 5000) \<notin> set (free_slots (note_txt 5000) fresh_fs)" by (rule we(1))
qed

theorem delete_outcome_witness:
  "\<exists>s s'. write_fat32 load_bytes (\<lambda>_. 7) (note_txt 5000) fresh_fs = Inr (0, s) \<and>
     delete (note_txt 5000) s = Some (Inr
    (if cluster_map s ! unat (parent_cluster_number (note_txt 5000)) \<noteq> FAT32_FAT_END_OF_FILE then (2, s)
     else if \<forall>i \<in> {2..<64}. \<not> entry_matches (note_txt 5000) (table_at s (parent_cluster_number (note_txt 5000)) ! i) then (1, s)
     else if \<exists>i. victim (note_txt 5000) s = Some i \<and>
        attribute (table_at s (parent_cluster_number (note_txt 5000)) ! i) = ATTR_SUBDIRECTORY \<and>
        (\<exists>j \<in> {2..<64}. user_attribute
           (table_at s (entry_cluster (table_at s (parent_cluster_number (note_txt 5000)) ! i)) ! j) = UATTR_NOT_EMPTY)
       then (2, s)
     else (0, s')))"
proof -
  obtain s where w: "write_fat32 load_bytes (\<lambda>_. 7) (note_txt 5000) fresh_fs = Inr (0, s)"
    using note_txt_fresh [of load_bytes "\<lambda>_. 7"] by (elim exE)
  note d = note_txt_deletable [OF w]
  show ?thesis
  proof (rule exI [where x = s], subst ex_simps(2), rule conjI [OF w], rule delete_outcome [OF d(1,2)])
    fix i assume "victim (note_txt 5000) s = Some i"
    then have "i = entry_slot (note_txt 5000) fresh_fs" using d(4) by simp
    then show "\<exists>cs. is_chain (cluster_map s) cs \<and>
        hd cs = entry_cluster (table_at s (parent_cluster_number (note_txt 5000)) ! i)"
      using d(6,7) by blast
  qed
qed

theorem delete_effect_witness:
  "\<exists>s s'. write_fat32 load_bytes (\<lambda>_. 7) (note_txt 5000) fresh_fs = Inr (0, s) \<and>
     delete (note_txt 5000) s = Some (Inr (0, s')) \<and>
     free_count (cluster_map s') = free_count (cluster_map s) + length (free_slots (note_txt 5000) fresh_fs)"
proof -
  obtain s where w: "write_fat32 load_bytes (\<lambda>_. 7) (note_txt 5000) fresh_fs = Inr (0, s)"
    using note_txt_fresh [of load_bytes "\<lambda>_. 7"] by (elim exE)
  note d = note_txt_deletable [OF w]
  have "2 \<notin> set (free_slots (note_txt 5000) fresh_fs)" using d(8) by simp
  from delete_effect [OF d this] w show ?thesis by blast
qed

theorem write_delete_inverse_witness:
  "\<exists>s s'. write_fat32 load_bytes (\<lambda>_. 7) (note_txt 5000) fresh_fs = Inr (0, s) \<and>
     delete (note_txt 5000) s = Some (Inr (0, s')) \<and> cluster_map s' = cluster_map fresh_fs"
proof -
  obtain s where w: "write_fat32 load_bytes (\<lambda>_. 7) (note_txt 5000) fresh_fs = Inr (0, s)"
    using note_txt_fresh [of load_bytes "\<lambda>_. 7"] by (elim exE)
  have p: "data_cluster (parent_cluster_number (note_txt 5000))" by simp
  from write_delete_inverse [OF fs_wf_fresh length_load_bytes p _ _ fresh_parent_entry w] w
  show ?thesis by auto
qed

section \<open>Names that match an unused entry\<close>

text \<open>
  A cleared directory entry has an all-zero name, and neither \<open>read\<close> nor \<open>delete\<close> looks at
  \<open>user_attribute\<close>.
\<close>

lemma read_chain_reserved:
  assumes "fs_wf s"
  shows "read_chain st s buf 0 k m = Some (Inl OutOfBounds)"
  using assms
  by (subst read_chain.simps, subst read_chain.simps) (simp add: fs_wf_def)

lemma delete_chain_reserved:
  assumes "fs_wf s"
  shows "delete_chain 0 (cluster_map s) d = Some (Inl OutOfBounds)"
proof -
  have "delete_chain CLUSTER_0_VALUE cm d' = Some (Inl OutOfBounds)" for cm d'
    by (subst delete_chain.simps) simp
  with assms show ?thesis
    by (subst delete_chain.simps) (simp add: fs_wf_def Let_def)
qed

text \<open>
  A request whose name and extension are all zero bytes reaches the first cleared entry, whose
  cluster number is 0: reading it follows the table from the boot sector's entry and indexes outside
  the table, and so does deleting it.
\<close>

theorem empty_name_out_of_bounds:
  assumes wf: "fs_wf s" and p: "unat (parent_cluster_number rq) < 512"
    "cluster_map s ! unat (parent_cluster_number rq) = FAT32_FAT_END_OF_FILE"
    and i: "find (entry_matches rq) (table_at s (parent_cluster_number rq)) = Some zero_entry"
      "victim rq s = Some i" "table_at s (parent_cluster_number rq) ! i = zero_entry"
  shows "read st s rq m = Some (Inl OutOfBounds) \<and> delete rq s = Some (Inl OutOfBounds)"
proof -
  have z: "entry_cluster zero_entry = 0" "attribute zero_entry = 0" "clusters_needed (filesize zero_entry) = 0"
    using ceil_exact [of 0 11 2048] by (simp_all add: zero_entry_def entry_cluster_def clusters_needed_def)
  then show ?thesis
    using assms read_chain_reserved [OF wf, of st] delete_chain_reserved [OF wf]
    by (simp add: read_def delete_eq deletable_def not_le)
qed

definition no_name :: FAT32DriverRequest where
  "no_name = \<lparr> rq_buf = 0, rq_name = replicate 8 0, rq_ext = replicate 3 0,
     parent_cluster_number = 2, buffer_size = 2048 \<rparr>"

lemma fresh_second_name: "de_name (table_at fresh_fs 2 ! 1) ! 0 = 114"
proof -
  let ?b = "takeWhile (\<lambda>c. c \<noteq> 0) root_name @ drop (length (takeWhile (\<lambda>c. c \<noteq> 0) root_name)) (replicate 512 0)"
  obtain d where t: "table_at fresh_fs 2 =
      init_directory_table (write_blocks ?b 8 1 d) zero_table root_name 2"
    unfolding fresh_fs_def create_table by (auto simp: create_fat32_def Let_def cluster_to_lba_def)
  have "read_clusters (write_blocks ?b 8 1 d) 2 1 ! 0 = ?b ! 0"
    using root_block_length
    by (simp add: cluster_defs read_blocks_load write_blocks_store store_bytes_def)
  moreover have "?b ! 0 = 114" by (simp add: root_name_def)
  ultimately show ?thesis
    unfolding t init_table_nth(2) by (simp add: decode_dir_table_def decode_entry_def)
qed

theorem empty_name_out_of_bounds_witness:
  "read store_bytes fresh_fs no_name (\<lambda>_. 0) = Some (Inl OutOfBounds) \<and>
   delete no_name fresh_fs = Some (Inl OutOfBounds)"
proof -
  obtain d where t: "table_at fresh_fs 2 = init_directory_table d zero_table root_name 2"
    using create_table_init unfolding fresh_fs_def by blast
  have nth: "table_at fresh_fs 2 ! i = zero_entry" if "2 \<le> i" "i < 64" for i
    using that unfolding t by (rule init_table_nth(3))
  have "de_name (table_at fresh_fs 2 ! 0) \<noteq> replicate 8 0"
    unfolding t init_table_nth(1) by (simp add: root_name_def) code_simp
  then have "\<not> entry_matches no_name (table_at fresh_fs 2 ! i)" if "i < 2" for i
    using that fresh_second_name table_wf_nth [OF table_wf_at, of i fresh_fs 2]
    by (auto simp: entry_matches_eq no_name_def less_2_cases_iff)
  moreover have z: "entry_matches no_name zero_entry"
    by (simp add: entry_matches_eq no_name_def) (simp add: zero_entry_def)
  ultimately have m: "entry_matches no_name (table_at fresh_fs 2 ! i) \<longleftrightarrow> 2 \<le> i" if "i < 64" for i
    using that nth [of i] by (cases "i < 2") auto
  have v: "victim no_name fresh_fs = Some 2"
    unfolding victim_def find_upt_Some using m by (simp add: no_name_def)
  have f: "find (entry_matches no_name) (table_at fresh_fs 2) = Some zero_entry"
    unfolding find_Some_iff using m z nth [of 2] by (intro exI [where x = 2]) auto
  show ?thesis
    using empty_name_out_of_bounds [OF fs_wf_fresh _ _ _ v] f nth [of 2] fs_wf_fresh
    by (simp add: no_name_def fs_wf_def)
qed

end
