(* ===== verification/Fat32_Tree.thy ===== *)
theory Fat32_Tree
  imports Fat32_Delete
begin

text \<open>
  The directory tree as a whole.  \<open>fs_inv D s\<close> says that the clusters \<open>D\<close> are the directories of
  the disk, that every entry in use in one of them owns an intact chain which no other entry shares,
  and that names are unique within a directory.  It holds after formatting, every creation and
  deletion with a valid request keeps it, and under it no request faults or runs forever.
\<close>

section \<open>The invariant\<close>

abbreviation in_use :: "FAT32DirectoryEntry \<Rightarrow> bool" where
  "in_use e \<equiv> user_attribute e = UATTR_NOT_EMPTY"

definition dir_ok :: "fat32 \<Rightarrow> u32 \<Rightarrow> bool" where
  "dir_ok s d \<longleftrightarrow> data_cluster d \<and> cluster_map s ! unat d = FAT32_FAT_END_OF_FILE \<and>
     in_use (table_at s d ! 1) \<and>
     attribute (table_at s d ! 0) = ATTR_SUBDIRECTORY \<and> attribute (table_at s d ! 1) = ATTR_SUBDIRECTORY \<and>
     (\<forall>i \<in> {2..<64}. in_use (table_at s d ! i) \<or> table_at s d ! i = zero_entry) \<and>
     (\<forall>i \<in> {2..<64}. \<forall>j \<in> {2..<64}. in_use (table_at s d ! i) \<and> in_use (table_at s d ! j) \<and>
        de_name (table_at s d ! i) = de_name (table_at s d ! j) \<and>
        de_ext (table_at s d ! i) = de_ext (table_at s d ! j) \<longrightarrow> i = j)"

definition live :: "u32 set \<Rightarrow> fat32 \<Rightarrow> (u32 \<times> nat) set" where
  "live D s = {(d, i). d \<in> D \<and> 2 \<le> i \<and> i < 64 \<and> in_use (table_at s d ! i)}"

definition owns :: "fat32 \<Rightarrow> u32 \<times> nat \<Rightarrow> u32 list \<Rightarrow> bool" where
  "owns s di cs \<longleftrightarrow> is_chain (cluster_map s) cs \<and> hd cs = entry_cluster (table_at s (fst di) ! snd di)"

definition entry_ok :: "u32 set \<Rightarrow> fat32 \<Rightarrow> u32 \<times> nat \<Rightarrow> bool" where
  "entry_ok D s di \<longleftrightarrow> (\<exists>cs. owns s di cs \<and>
     (if attribute (table_at s (fst di) ! snd di) = ATTR_SUBDIRECTORY
      then cs = [hd cs] \<and> hd cs \<in> D \<and> hd cs \<noteq> 2 else set cs \<inter> D = {}))"

definition fs_inv :: "u32 set \<Rightarrow> fat32 \<Rightarrow> bool" where
  "fs_inv D s \<longleftrightarrow> fs_wf s \<and> 2 \<in> D \<and> (\<forall>d \<in> D. dir_ok s d) \<and> (\<forall>di \<in> live D s. entry_ok D s di) \<and>
     (\<forall>a \<in> live D s. \<forall>b \<in> live D s. a \<noteq> b \<longrightarrow>
        (\<forall>cs ds. owns s a cs \<and> owns s b ds \<longrightarrow> set cs \<inter> set ds = {}))"

lemma fs_invD:
  assumes "fs_inv D s"
  shows "fs_wf s" and "2 \<in> D" and "d \<in> D \<Longrightarrow> dir_ok s d" and "di \<in> live D s \<Longrightarrow> entry_ok D s di"
    and "a \<in> live D s \<Longrightarrow> b \<in> live D s \<Longrightarrow> a \<noteq> b \<Longrightarrow> owns s a cs \<Longrightarrow> owns s b ds \<Longrightarrow> set cs \<inter> set ds = {}"
  using assms unfolding fs_inv_def by blast+

lemma dir_okD:
  assumes "dir_ok s d"
  shows "data_cluster d" and "cluster_map s ! unat d = FAT32_FAT_END_OF_FILE" and "in_use (table_at s d ! 1)"
    and "2 \<le> i \<Longrightarrow> i < 64 \<Longrightarrow> \<not> in_use (table_at s d ! i) \<Longrightarrow> table_at s d ! i = zero_entry"
    and "i \<in> {2..<64} \<Longrightarrow> j \<in> {2..<64} \<Longrightarrow> in_use (table_at s d ! i) \<Longrightarrow> in_use (table_at s d ! j) \<Longrightarrow>
         de_name (table_at s d ! i) = de_name (table_at s d ! j) \<Longrightarrow>
         de_ext (table_at s d ! i) = de_ext (table_at s d ! j) \<Longrightarrow> i = j"
    and "attribute (table_at s d ! 0) = ATTR_SUBDIRECTORY" and "attribute (table_at s d ! 1) = ATTR_SUBDIRECTORY"
  using assms unfolding dir_ok_def by (auto simp del: atLeastLessThan_iff) auto

lemma owns_unique: "owns s di cs \<Longrightarrow> owns s di ds \<Longrightarrow> cs = ds"
  unfolding owns_def by (cases cs; cases ds) (auto dest: is_chain_unique)

text \<open>
  The entry found under a non-empty name is in use, so it has a chain.  A valid request names a
  directory of the tree and has a name.
\<close>

definition valid_request :: "u32 set \<Rightarrow> FAT32DriverRequest \<Rightarrow> bool" where
  "valid_request D rq \<longleftrightarrow> parent_cluster_number rq \<in> D \<and> length (rq_name rq) = 8 \<and> length (rq_ext rq) = 3 \<and>
     \<not> (rq_name rq = replicate 8 0 \<and> rq_ext rq = replicate 3 0)"

lemma valid_requestD:
  assumes "valid_request D rq"
  shows "parent_cluster_number rq \<in> D" and "length (rq_name rq) = 8" and "length (rq_ext rq) = 3"
    and "\<not> entry_matches rq zero_entry"
  using assms unfolding valid_request_def by (simp_all add: entry_matches_eq) (auto simp: zero_entry_def)

lemma victim_live:
  assumes inv: "fs_inv D s" and rq: "valid_request D rq" and v: "victim rq s = Some i"
  shows "(parent_cluster_number rq, i) \<in> live D s" and "2 \<le> i" and "i < 64"
    and "entry_matches rq (table_at s (parent_cluster_number rq) ! i)"
proof -
  show i: "2 \<le> i" "i < 64" "entry_matches rq (table_at s (parent_cluster_number rq) ! i)"
    using v unfolding victim_def find_upt_Some by auto
  then have "in_use (table_at s (parent_cluster_number rq) ! i)"
    using dir_okD(4) [OF fs_invD(3) [OF inv valid_requestD(1) [OF rq]]] valid_requestD(4) [OF rq] by metis
  with i show "(parent_cluster_number rq, i) \<in> live D s"
    using valid_requestD(1) [OF rq] by (simp add: live_def)
qed

section \<open>Formatting establishes it\<close>

lemma fs_inv_format: "fs_inv {2} (create_fat32 s)"
proof -
  obtain d where t: "table_at (create_fat32 s) 2 = init_directory_table d zero_table root_name 2"
    using create_table_init by blast
  have z: "table_at (create_fat32 s) 2 ! i = zero_entry" if "2 \<le> i" "i < 64" for i
    unfolding t using that by (rule init_table_nth(3))
  have nu: "\<not> in_use zero_entry" by (simp add: zero_entry_def)
  have "live {2} (create_fat32 s) = {}"
    using z nu by (auto simp: live_def)
  moreover have "dir_ok (create_fat32 s) 2"
    using z nu unfolding dir_ok_def
    by (auto simp: t create_cluster_map [THEN arg_cong [where f = "\<lambda>cm. cm ! 2"]]
        init_table_nth(1) init_table_nth(2) [unfolded One_nat_def] data_cluster_def)
  ultimately show ?thesis
    using create_fat32_fs_wf by (simp add: fs_inv_def)
qed

section \<open>Creation keeps it\<close>

definition dirs_after_write :: "u32 set \<Rightarrow> FAT32DriverRequest \<Rightarrow> fat32 \<Rightarrow> u32 set" where
  "dirs_after_write D rq s = (if buffer_size rq = 0 then insert (hd (free_slots rq s)) D else D)"

text \<open>The facts about a successful creation in the tree that the invariant's parts need.\<close>

lemma write_in_tree:
  assumes inv: "fs_inv D s" and ld: "\<And>p. length (ld p 2048 m) = 2048"
    and rq: "valid_request D rq" and w: "write_fat32 ld m rq s = Inr (0, s')"
  shows "2 \<le> entry_slot rq s" and "entry_slot rq s < 64" (is ?lt)
    and "d \<in> D \<Longrightarrow> d \<notin> set (free_slots rq s)"
    and "d \<in> D \<Longrightarrow> cluster_map s' ! unat d = cluster_map s ! unat d"
    and "d \<in> D \<Longrightarrow> i < 64 \<Longrightarrow> table_at s' d ! i = (if (d, i) = (parent_cluster_number rq, entry_slot rq s)
           then new_entry rq (buffer_size rq = 0) (hd (free_slots rq s)) else table_at s d ! i)"
    and "d \<in> D \<Longrightarrow> (d, i) \<in> live D s \<Longrightarrow> (d, i) \<noteq> (parent_cluster_number rq, entry_slot rq s)"
    and "is_chain (cluster_map s) cs \<Longrightarrow> is_chain (cluster_map s') cs \<and> set cs \<inter> set (free_slots rq s) = {}"
proof -
  let ?p = "parent_cluster_number rq"
  note wf = fs_invD(1) [OF inv] and P = valid_requestD(1) [OF rq]
  have p: "data_cluster ?p" by (rule dir_okD(1) [OF fs_invD(3) [OF inv P]])
  note ws = write_success [OF w] and we = write_effect [of s ld m rq, OF wf ld p w]
  note free = free_slots_facts(1) [OF wf, of rq]
  show "2 \<le> entry_slot rq s"
    using ws(5,6) dir_okD(3) [OF fs_invD(3) [OF inv P]] by (cases "entry_slot rq s = 1") auto
  show ?lt by (rule ws(4))
  show nf: "d \<notin> set (free_slots rq s)" if "d \<in> D" for d
    using free dir_okD(2) [OF fs_invD(3) [OF inv that]] by auto
  then show "d \<in> D \<Longrightarrow> cluster_map s' ! unat d = cluster_map s ! unat d"
    unfolding we(2) by (simp add: link_chain_other unat_image_mem)
  show "table_at s' d ! i = (if (d, i) = (?p, entry_slot rq s)
      then new_entry rq (buffer_size rq = 0) (hd (free_slots rq s)) else table_at s d ! i)" if "d \<in> D" "i < 64"
  proof (cases "d = ?p")
    case True
    with we(4) that(2) show ?thesis by (simp add: nth_list_update)
  next
    case False
    then have "read_clusters (storage s') d 1 = read_clusters (storage s) d 1"
      using we(7) [of d] nf [OF that(1)] dir_okD(1) [OF fs_invD(3) [OF inv that(1)]] by simp
    with False show ?thesis by simp
  qed
  show "d \<in> D \<Longrightarrow> (d, i) \<in> live D s \<Longrightarrow> (d, i) \<noteq> (?p, entry_slot rq s)"
    using ws(6) by (auto simp: live_def)
  show "is_chain (cluster_map s) cs \<Longrightarrow> is_chain (cluster_map s') cs \<and> set cs \<inter> set (free_slots rq s) = {}"
    unfolding we(2) using link_chain_keeps [of "cluster_map s" cs "free_slots rq s"] free by blast
qed

lemma write_new_dir:
  assumes inv: "fs_inv D s" and ld: "\<And>p. length (ld p 2048 m) = 2048"
    and rq: "valid_request D rq" and w: "write_fat32 ld m rq s = Inr (0, s')" and dir: "buffer_size rq = 0"
  shows "free_slots rq s = [hd (free_slots rq s)]" and "dir_ok s' (hd (free_slots rq s))"
    and "2 \<le> i \<Longrightarrow> i < 64 \<Longrightarrow> \<not> in_use (table_at s' (hd (free_slots rq s)) ! i)"
proof -
  let ?c = "hd (free_slots rq s)"
  note wf = fs_invD(1) [OF inv]
  have p: "data_cluster (parent_cluster_number rq)"
    by (rule dir_okD(1) [OF fs_invD(3) [OF inv valid_requestD(1) [OF rq]]])
  note data = write_folder_data [of s ld m rq, OF wf ld p dir w] and we = write_effect [of s ld m rq, OF wf ld p w]
  show "free_slots rq s = [?c]" by (rule data(1))
  have t: "table_at s' ?c = child_table rq ?c s" using data(2) by (simp add: codec)
  have z: "child_table rq ?c s ! i = zero_entry" if "2 \<le> i" "i < 64" for i
    using that by (rule child_table_entries(5))
  have nu: "\<not> in_use zero_entry" by (simp add: zero_entry_def)
  show "2 \<le> i \<Longrightarrow> i < 64 \<Longrightarrow> \<not> in_use (table_at s' ?c ! i)"
    unfolding t using z nu by simp
  have "length (init_directory_table (storage s) zero_table (rq_name rq) (parent_cluster_number rq)) = 64"
    using init_directory_table_wf [OF table_wf_zero] unfolding table_wf_def by blast
  then have "in_use (child_table rq ?c s ! 1)" "attribute (child_table rq ?c s ! 0) = ATTR_SUBDIRECTORY"
    "attribute (child_table rq ?c s ! 1) = ATTR_SUBDIRECTORY"
    by (simp_all add: child_table_def Let_def init_table_nth(1) init_table_nth(2) [unfolded One_nat_def])
  moreover have "is_chain (cluster_map s') [?c]" using we(3) data(1) by simp
  ultimately show "dir_ok s' ?c"
    unfolding dir_ok_def t using z nu by auto
qed

lemma live_after_write:
  assumes inv: "fs_inv D s" and ld: "\<And>p. length (ld p 2048 m) = 2048"
    and rq: "valid_request D rq" and w: "write_fat32 ld m rq s = Inr (0, s')"
  shows "live (dirs_after_write D rq s) s' = insert (parent_cluster_number rq, entry_slot rq s) (live D s)"
proof -
  note wt = write_in_tree [of D s ld m rq, OF inv ld rq w]
  have "(d, i) \<in> live (dirs_after_write D rq s) s' \<longleftrightarrow> (d, i) \<in> live D s'" for d i
    using write_new_dir(3) [of D s ld m rq, OF inv ld rq w, of i] by (auto simp: dirs_after_write_def live_def)
  moreover have "(d, i) \<in> live D s' \<longleftrightarrow>
      (d, i) = (parent_cluster_number rq, entry_slot rq s) \<or> (d, i) \<in> live D s" for d i
    using wt(1,2) wt(5) [of d i] valid_requestD(1) [OF rq] by (auto simp: live_def split: if_splits)
  ultimately show ?thesis by auto
qed

lemma dir_ok_after_write:
  assumes inv: "fs_inv D s" and ld: "\<And>p. length (ld p 2048 m) = 2048"
    and rq: "valid_request D rq" and w: "write_fat32 ld m rq s = Inr (0, s')" and d: "d \<in> D"
  shows "dir_ok s' d"
proof -
  let ?p = "parent_cluster_number rq" and ?k = "entry_slot rq s"
  note wt = write_in_tree [of D s ld m rq, OF inv ld rq w] and ok = fs_invD(3) [OF inv d]
  note t = wt(5) [OF d] and name = valid_requestD(2,3) [OF rq]
  have fresh: "\<not> (de_name (table_at s ?p ! i) = rq_name rq \<and> de_ext (table_at s ?p ! i) = rq_ext rq)" if "i < 64" for i
    using write_success(3) [OF w] that name table_wf_nth [OF table_wf_at that, of s ?p]
    by (auto simp: entry_matches_eq [symmetric] entry_matches_def)
  have uniq: "i = j" if "i \<in> {2..<64}" "j \<in> {2..<64}" "in_use (table_at s' d ! i)" "in_use (table_at s' d ! j)"
    "de_name (table_at s' d ! i) = de_name (table_at s' d ! j)"
    "de_ext (table_at s' d ! i) = de_ext (table_at s' d ! j)" for i j
  proof -
    let ?new = "\<lambda>i. (d, i) = (?p, ?k)"
    consider "?new i" "?new j" | "?new i" "\<not> ?new j" | "\<not> ?new i" "?new j" | "\<not> ?new i" "\<not> ?new j" by blast
    then show ?thesis
    proof cases
      case 1
      then show ?thesis by simp
    next
      case 2
      with that t [of i] t [of j] fresh [of j] name show ?thesis by auto
    next
      case 3
      with that t [of i] t [of j] fresh [of i] name show ?thesis by auto
    next
      case 4
      with that t [of i] t [of j] dir_okD(5) [OF ok, of i j] show ?thesis by auto
    qed
  qed
  have "in_use (table_at s' d ! i) \<or> table_at s' d ! i = zero_entry" if "i \<in> {2..<64}" for i
    using t [of i] dir_okD(4) [OF ok, of i] that by auto
  moreover have "in_use (table_at s' d ! 1)" "attribute (table_at s' d ! 0) = ATTR_SUBDIRECTORY"
    "attribute (table_at s' d ! 1) = ATTR_SUBDIRECTORY"
    using t [of 0] t [of 1] dir_okD(3,6,7) [OF ok] wt(1) by auto
  ultimately show ?thesis
    using dir_okD(1) [OF ok] trans [OF wt(4) [OF d] dir_okD(2) [OF ok]] uniq unfolding dir_ok_def by blast
qed

lemma owns_after_write:
  assumes inv: "fs_inv D s" and ld: "\<And>p. length (ld p 2048 m) = 2048"
    and rq: "valid_request D rq" and w: "write_fat32 ld m rq s = Inr (0, s')"
  shows "di \<in> live D s \<Longrightarrow> owns s di cs \<Longrightarrow> owns s' di cs"
    and "owns s' (parent_cluster_number rq, entry_slot rq s) (free_slots rq s)"
proof -
  note wt = write_in_tree [of D s ld m rq, OF inv ld rq w]
  show "di \<in> live D s \<Longrightarrow> owns s di cs \<Longrightarrow> owns s' di cs"
    using wt(5) [of "fst di" "snd di"] wt(6) [of "fst di" "snd di"] wt(7) [of cs]
    by (auto simp: owns_def live_def)
  have p: "data_cluster (parent_cluster_number rq)"
    by (rule dir_okD(1) [OF fs_invD(3) [OF inv valid_requestD(1) [OF rq]]])
  show "owns s' (parent_cluster_number rq, entry_slot rq s) (free_slots rq s)"
    using wt(5) [OF valid_requestD(1) [OF rq] wt(2)] write_effect(3) [of s ld m rq, OF fs_invD(1) [OF inv] ld p w]
    by (simp add: owns_def)
qed

lemma fs_inv_write:
  assumes inv: "fs_inv D s" and ld: "\<And>p. length (ld p 2048 m) = 2048"
    and rq: "valid_request D rq" and w: "write_fat32 ld m rq s = Inr (0, s')"
  shows "fs_inv (dirs_after_write D rq s) s'"
proof -
  let ?D = "dirs_after_write D rq s" and ?n = "(parent_cluster_number rq, entry_slot rq s)" and ?cs = "free_slots rq s"
  note wt = write_in_tree [of D s ld m rq, OF inv ld rq w] and ow = owns_after_write [of D s ld m rq, OF inv ld rq w]
  note live = live_after_write [of D s ld m rq, OF inv ld rq w]
  have p: "data_cluster (parent_cluster_number rq)"
    by (rule dir_okD(1) [OF fs_invD(3) [OF inv valid_requestD(1) [OF rq]]])
  have cs: "?cs \<noteq> []" "\<forall>d \<in> D. d \<notin> set ?cs" using write_success(8) [OF w] wt(3) by auto
  have old: "\<exists>ds. owns s di ds \<and> owns s' di ds \<and> set ds \<inter> set ?cs = {}" if di: "di \<in> live D s" for di
  proof -
    obtain ds where "owns s di ds" using fs_invD(4) [OF inv di] by (auto simp: entry_ok_def)
    then show ?thesis using ow(1) [OF di] wt(7) [of ds] by (auto simp: owns_def)
  qed
  have same: "table_at s' (fst di) ! snd di = table_at s (fst di) ! snd di" if "di \<in> live D s" for di
    using that wt(5) [of "fst di" "snd di"] wt(6) [of "fst di" "snd di"] by (auto simp: live_def)
  have sub: "?D \<subseteq> D \<union> set ?cs" using cs by (auto simp: dirs_after_write_def)
  have "entry_ok ?D s' di" if di': "di \<in> live D s" for di
  proof -
    obtain ds where ds: "owns s di ds" "if attribute (table_at s (fst di) ! snd di) = ATTR_SUBDIRECTORY
        then ds = [hd ds] \<and> hd ds \<in> D \<and> hd ds \<noteq> 2 else set ds \<inter> D = {}"
      using fs_invD(4) [OF inv di'] unfolding entry_ok_def by blast
    then have "owns s' di ds" "set ds \<inter> set ?cs = {}"
      using old [OF di'] owns_unique by blast+
    moreover have "D \<subseteq> ?D" by (auto simp: dirs_after_write_def)
    ultimately show ?thesis
      unfolding entry_ok_def same [OF di'] using ds(2) sub
      by (intro exI [where x = ds]) (auto split: if_splits)
  qed
  moreover have "entry_ok ?D s' ?n"
  proof (cases "buffer_size rq = 0")
    case True
    then have "?cs = [hd ?cs]" "hd ?cs \<noteq> 2"
      using write_new_dir(1) [of D s ld m rq, OF inv ld rq w True] cs fs_invD(2) [OF inv] by (auto dest: hd_in_set)
    with True show ?thesis
      unfolding entry_ok_def using ow(2) wt(5) [OF valid_requestD(1) [OF rq] wt(2)]
      by (intro exI [where x = ?cs]) (simp add: dirs_after_write_def)
  next
    case False
    then show ?thesis
      unfolding entry_ok_def using ow(2) wt(5) [OF valid_requestD(1) [OF rq] wt(2)] cs(2)
      by (intro exI [where x = ?cs]) (auto simp: dirs_after_write_def)
  qed
  moreover have "set xs \<inter> set ys = {}"
    if ab: "a \<in> insert ?n (live D s)" "b \<in> insert ?n (live D s)" "a \<noteq> b" "owns s' a xs" "owns s' b ys" for a b xs ys
  proof -
    have n: "zs = ?cs" if "owns s' ?n zs" for zs using owns_unique [OF that ow(2)] .
    have l: "\<exists>ds. owns s di ds \<and> zs = ds \<and> set ds \<inter> set ?cs = {}" if "di \<in> live D s" "owns s' di zs" for di zs
      using old [OF that(1)] owns_unique [OF that(2)] by blast
    consider "a = ?n" "b \<in> live D s" | "b = ?n" "a \<in> live D s" | "a \<in> live D s" "b \<in> live D s"
      using ab(1-3) by blast
    then show ?thesis
    proof cases
      case 1
      with n [of xs] l [of b ys] ab(4,5) show ?thesis by auto
    next
      case 2
      with n [of ys] l [of a xs] ab(4,5) show ?thesis by auto
    next
      case 3
      with l [of a xs] l [of b ys] ab(3-5) fs_invD(5) [OF inv] show ?thesis by blast
    qed
  qed
  moreover have "dir_ok s' d" if "d \<in> ?D" for d
    using that dir_ok_after_write [of D s ld m rq, OF inv ld rq w]
      write_new_dir(2) [of D s ld m rq, OF inv ld rq w]
    by (auto simp: dirs_after_write_def split: if_splits)
  moreover have "fs_wf s'" by (rule write_effect(5) [of s ld m rq, OF fs_invD(1) [OF inv] ld p w])
  moreover have "2 \<in> ?D" using fs_invD(2) [OF inv] by (simp add: dirs_after_write_def)
  ultimately show ?thesis
    unfolding fs_inv_def live by blast
qed

section \<open>Deletion keeps it\<close>

text \<open>In the tree a valid deletion always returns, and when it returns 0 it deleted one entry's chain.\<close>

lemma delete_returns:
  assumes inv: "fs_inv D s" and rq: "valid_request D rq"
  shows "\<exists>r s'. delete rq s = Some (Inr (r, s')) \<and> r \<in> {0, 1, 2} \<and> (r \<noteq> 0 \<longrightarrow> s' = s)"
proof -
  let ?p = "parent_cluster_number rq"
  have ok: "dir_ok s ?p" by (rule fs_invD(3) [OF inv valid_requestD(1) [OF rq]])
  show ?thesis
  proof (cases "victim rq s")
    case None
    then show ?thesis using dir_okD(1,2) [OF ok] by (simp add: delete_eq)
  next
    case (Some i)
    obtain cs where "owns s (?p, i) cs"
      using fs_invD(4) [OF inv victim_live(1) [OF inv rq Some]] unfolding entry_ok_def by blast
    then have "deletable s (table_at s ?p ! i) \<Longrightarrow> delete rq s = Some (Inr (0, deleted rq i cs s))"
      using delete_succeeds [OF fs_invD(1) [OF inv] dir_okD(1,2) [OF ok] Some] by (simp add: owns_def)
    moreover have "\<not> deletable s (table_at s ?p ! i) \<Longrightarrow> delete rq s = Some (Inr (2, s))"
      using dir_okD(1,2) [OF ok] Some by (simp add: delete_eq)
    ultimately show ?thesis by (cases "deletable s (table_at s ?p ! i)") auto
  qed
qed

text \<open>
  \<open>removes D s rq i cs\<close>: the request takes entry \<open>i\<close> of its parent out of the tree, with the chain
  \<open>cs\<close>, which holds at most one directory of the tree, an empty one.
\<close>

definition removes :: "u32 set \<Rightarrow> fat32 \<Rightarrow> FAT32DriverRequest \<Rightarrow> nat \<Rightarrow> u32 list \<Rightarrow> bool" where
  "removes D s rq i cs \<longleftrightarrow> victim rq s = Some i \<and> owns s (parent_cluster_number rq, i) cs \<and>
     parent_cluster_number rq \<notin> set cs \<and> 2 \<notin> set cs \<and> D - set cs = D - {hd cs} \<and>
     (\<forall>d \<in> D \<inter> set cs. \<forall>j \<in> {2..<64}. \<not> in_use (table_at s d ! j))"

lemma delete_in_tree:
  assumes inv: "fs_inv D s" and rq: "valid_request D rq" and del: "delete rq s = Some (Inr (0, s'))"
  shows "\<exists>i cs. removes D s rq i cs \<and> s' = deleted rq i cs s"
proof -
  let ?p = "parent_cluster_number rq"
  have ok: "dir_ok s ?p" by (rule fs_invD(3) [OF inv valid_requestD(1) [OF rq]])
  obtain i where i: "victim rq s = Some i" "deletable s (table_at s ?p ! i)"
    using del dir_okD(1,2) [OF ok] by (auto simp: delete_eq split: option.splits if_splits)
  note vl = victim_live [OF inv rq i(1)]
  let ?dir = "attribute (table_at s ?p ! i) = ATTR_SUBDIRECTORY"
  obtain cs where cs: "owns s (?p, i) cs"
    "if ?dir then cs = [hd cs] \<and> hd cs \<in> D \<and> hd cs \<noteq> 2 else set cs \<inter> D = {}"
    using fs_invD(4) [OF inv vl(1)] unfolding entry_ok_def by auto
  have set: "set cs \<inter> D \<subseteq> {hd cs}" "2 \<notin> set cs" "hd cs \<in> set cs"
  proof -
    have "?dir \<Longrightarrow> set cs = {hd cs} \<and> hd cs \<noteq> 2" using cs(2) by (metis list.set(1) list.simps(15))
    then show "set cs \<inter> D \<subseteq> {hd cs}" "2 \<notin> set cs" using cs(2) fs_invD(2) [OF inv] by (cases ?dir; auto)+
    show "hd cs \<in> set cs" using cs(1) by (cases cs) (auto simp: owns_def)
  qed
  have empty: "\<forall>d \<in> D \<inter> set cs. \<forall>j \<in> {2..<64}. \<not> in_use (table_at s d ! j)"
  proof (intro ballI)
    fix j :: nat and d :: u32 assume d: "d \<in> D \<inter> set cs" "j \<in> {2..<64}"
    then have "?dir" "d = hd cs" using cs(2) set(1) by (auto split: if_splits)
    then have "folder_is_empty (table_at s d)" using cs(1) i(2) by (simp add: owns_def deletable_def)
    with d(2) show "\<not> in_use (table_at s d ! j)" unfolding folder_is_empty_eq by auto
  qed
  moreover have "?p \<notin> set cs"
    using empty vl valid_requestD(1) [OF rq] by (auto simp: live_def)
  moreover have "D - set cs = D - {hd cs}" using set by auto
  moreover have "s' = deleted rq i cs s"
    using delete_succeeds [OF fs_invD(1) [OF inv] dir_okD(1,2) [OF ok] i] cs(1) del by (simp add: owns_def)
  ultimately show ?thesis unfolding removes_def using i cs(1) set by blast
qed

text \<open>What is left of the tree after a removal.\<close>

lemma removed_tables:
  assumes inv: "fs_inv D s" and rq: "valid_request D rq" and rem: "removes D s rq i cs"
  shows "fs_wf (deleted rq i cs s)"
    and "d \<notin> set cs \<Longrightarrow> data_cluster d \<Longrightarrow> cluster_map (deleted rq i cs s) ! unat d = cluster_map s ! unat d"
    and "d \<in> D - set cs \<Longrightarrow> j < 64 \<Longrightarrow> table_at (deleted rq i cs s) d ! j =
          (if (d, j) = (parent_cluster_number rq, i) then zero_entry else table_at s d ! j)"
    and "x \<notin> set cs \<Longrightarrow> x \<noteq> parent_cluster_number rq \<Longrightarrow> data_cluster x \<Longrightarrow>
          read_clusters (storage (deleted rq i cs s)) x 1 = read_clusters (storage s) x 1"
    and "table_at (deleted rq i cs s) (parent_cluster_number rq) = (table_at s (parent_cluster_number rq))[i := zero_entry]"
proof -
  let ?p = "parent_cluster_number rq" and ?s = "deleted rq i cs s"
  have p: "data_cluster ?p" by (rule dir_okD(1) [OF fs_invD(3) [OF inv valid_requestD(1) [OF rq]]])
  have cs: "is_chain (cluster_map s) cs" "?p \<notin> set cs" "2 \<notin> set cs"
    using rem by (auto simp: removes_def owns_def)
  note de = deleted_effect [OF fs_invD(1) [OF inv] p cs(2,1,3), where i = i]
  show "fs_wf ?s" by (rule de(2))
  show "d \<notin> set cs \<Longrightarrow> data_cluster d \<Longrightarrow> cluster_map ?s ! unat d = cluster_map s ! unat d"
    using fs_wf_length [OF fs_invD(1) [OF inv]] by (simp add: de(1) clear_chain_nth unat_image_mem)
  show fr: "read_clusters (storage ?s) x 1 = read_clusters (storage s) x 1"
    if "x \<notin> set cs" "x \<noteq> ?p" "data_cluster x" for x
    using de(5) [of x] that by simp
  show par: "table_at ?s ?p = (table_at s ?p)[i := zero_entry]" by (rule de(3))
  show "table_at ?s d ! j = (if (d, j) = (?p, i) then zero_entry else table_at s d ! j)" if "d \<in> D - set cs" "j < 64"
    using that fr [of d] par dir_okD(1) [OF fs_invD(3) [OF inv, of d]]
    by (cases "d = ?p") (auto simp: nth_list_update)
qed

lemma live_after_delete:
  assumes inv: "fs_inv D s" and rq: "valid_request D rq" and rem: "removes D s rq i cs"
  shows "(d, j) \<in> live D s \<Longrightarrow> d \<in> D - set cs"
    and "live (D - set cs) (deleted rq i cs s) = live D s - {(parent_cluster_number rq, i)}"
proof -
  show inD: "d \<in> D - set cs" if "(d, j) \<in> live D s" for d j
    using that rem by (auto simp: live_def removes_def)
  have "(d, j) \<in> live (D - set cs) (deleted rq i cs s) \<longleftrightarrow>
      (d, j) \<in> live D s \<and> (d, j) \<noteq> (parent_cluster_number rq, i)" for d j
    using inD [of d j] removed_tables(3) [OF inv rq rem, of d j]
    by (cases "d \<in> D - set cs \<and> j < 64") (auto simp: live_def zero_entry_def split: if_splits)
  then show "live (D - set cs) (deleted rq i cs s) = live D s - {(parent_cluster_number rq, i)}" by auto
qed

lemma removes_disjoint:
  assumes inv: "fs_inv D s" and rq: "valid_request D rq" and rem: "removes D s rq i cs"
    and di: "di \<in> live D s" "di \<noteq> (parent_cluster_number rq, i)" and "owns s di ds"
  shows "set ds \<inter> set cs = {}"
  using fs_invD(5) [OF inv di(1) _ di(2) assms(6)] victim_live(1) [OF inv rq] rem by (auto simp: removes_def)

lemma owns_after_delete:
  assumes inv: "fs_inv D s" and rq: "valid_request D rq" and rem: "removes D s rq i cs"
    and di: "di \<in> live D s" "di \<noteq> (parent_cluster_number rq, i)"
  shows "owns (deleted rq i cs s) di ds \<longleftrightarrow> owns s di ds"
proof -
  have keep: "owns (deleted rq i cs s) di ds" if o: "owns s di ds" for ds
  proof -
    have "set ds \<inter> set cs = {}" by (rule removes_disjoint [OF inv rq rem di o])
    then have "is_chain (cluster_map (deleted rq i cs s)) ds"
      using o is_chain_cong [of ds "cluster_map (deleted rq i cs s)" "cluster_map s"]
        removed_tables(2) [OF inv rq rem] is_chain_data
      unfolding owns_def by (metis disjoint_iff)
    moreover have "fst di \<in> D - set cs" "snd di < 64"
      using di(1) live_after_delete(1) [OF inv rq rem, of "fst di" "snd di"] by (auto simp: live_def)
    ultimately show ?thesis
      using o removed_tables(3) [OF inv rq rem, of "fst di" "snd di"] di(2) by (auto simp: owns_def split: if_splits)
  qed
  obtain ds' where "owns s di ds'" using fs_invD(4) [OF inv di(1)] unfolding entry_ok_def by blast
  with keep owns_unique show ?thesis by blast
qed

lemma dir_ok_after_delete:
  assumes inv: "fs_inv D s" and rq: "valid_request D rq" and rem: "removes D s rq i cs" and d: "d \<in> D - set cs"
  shows "dir_ok (deleted rq i cs s) d"
proof -
  let ?s = "deleted rq i cs s"
  note tab = removed_tables(3) [OF inv rq rem d]
  have ok: "dir_ok s d" using fs_invD(3) [OF inv] d by blast
  have i: "2 \<le> i" using victim_live(2) [OF inv rq] rem by (auto simp: removes_def)
  have nu: "\<not> in_use zero_entry" by (simp add: zero_entry_def)
  have "cluster_map ?s ! unat d = FAT32_FAT_END_OF_FILE"
    using removed_tables(2) [OF inv rq rem, of d] d dir_okD(1,2) [OF ok] by simp
  moreover have "in_use (table_at ?s d ! 1)" "attribute (table_at ?s d ! 0) = ATTR_SUBDIRECTORY"
    "attribute (table_at ?s d ! 1) = ATTR_SUBDIRECTORY"
    using tab [of 0] tab [of 1] i dir_okD(3,6,7) [OF ok] by auto
  moreover have "in_use (table_at ?s d ! j) \<or> table_at ?s d ! j = zero_entry" if "j \<in> {2..<64}" for j
    using tab [of j] dir_okD(4) [OF ok, of j] that by auto
  moreover have "a = b" if "a \<in> {2..<64}" "b \<in> {2..<64}" "in_use (table_at ?s d ! a)" "in_use (table_at ?s d ! b)"
    "de_name (table_at ?s d ! a) = de_name (table_at ?s d ! b)"
    "de_ext (table_at ?s d ! a) = de_ext (table_at ?s d ! b)" for a b
    using that tab [of a] tab [of b] nu dir_okD(5) [OF ok, of a b] by (simp split: if_splits)
  ultimately show ?thesis
    using dir_okD(1) [OF ok] unfolding dir_ok_def by blast
qed

lemma entry_ok_after_delete:
  assumes inv: "fs_inv D s" and rq: "valid_request D rq" and rem: "removes D s rq i cs"
    and di: "di \<in> live D s" "di \<noteq> (parent_cluster_number rq, i)"
  shows "entry_ok (D - set cs) (deleted rq i cs s) di"
proof -
  obtain ds where ds: "owns s di ds" "if attribute (table_at s (fst di) ! snd di) = ATTR_SUBDIRECTORY
      then ds = [hd ds] \<and> hd ds \<in> D \<and> hd ds \<noteq> 2 else set ds \<inter> D = {}"
    using fs_invD(4) [OF inv di(1)] unfolding entry_ok_def by auto
  have dis: "set ds \<inter> set cs = {}" by (rule removes_disjoint [OF inv rq rem di ds(1)])
  have "hd ds \<in> set ds" using ds(1) by (cases ds) (auto simp: owns_def)
  moreover have "table_at (deleted rq i cs s) (fst di) ! snd di = table_at s (fst di) ! snd di"
    using removed_tables(3) [OF inv rq rem, of "fst di" "snd di"] di
      live_after_delete(1) [OF inv rq rem, of "fst di" "snd di"] by (auto simp: live_def split: if_splits)
  ultimately show ?thesis
    unfolding entry_ok_def using owns_after_delete [OF inv rq rem di] ds dis
    by (intro exI [where x = ds]) (auto split: if_splits)
qed

definition dirs_after_delete :: "u32 set \<Rightarrow> FAT32DriverRequest \<Rightarrow> fat32 \<Rightarrow> u32 set" where
  "dirs_after_delete D rq s = (case victim rq s of None \<Rightarrow> D
     | Some i \<Rightarrow> D - {entry_cluster (table_at s (parent_cluster_number rq) ! i)})"

lemma fs_inv_delete:
  assumes inv: "fs_inv D s" and rq: "valid_request D rq" and del: "delete rq s = Some (Inr (0, s'))"
  shows "fs_inv (dirs_after_delete D rq s) s'"
proof -
  obtain i cs where rem: "removes D s rq i cs" and s': "s' = deleted rq i cs s"
    using delete_in_tree [OF inv rq del] by blast
  have D: "dirs_after_delete D rq s = D - set cs"
    using rem by (simp add: dirs_after_delete_def removes_def owns_def)
  note live = live_after_delete(2) [OF inv rq rem]
  have "set xs \<inter> set ys = {}"
    if "a \<in> live (D - set cs) s'" "b \<in> live (D - set cs) s'" "a \<noteq> b" "owns s' a xs" "owns s' b ys" for a b xs ys
    using that fs_invD(5) [OF inv _ _ that(3)] owns_after_delete [OF inv rq rem] unfolding live s' by blast
  moreover have "2 \<in> D - set cs" using fs_invD(2) [OF inv] rem unfolding removes_def by blast
  ultimately show ?thesis
    unfolding D fs_inv_def
    using removed_tables(1) [OF inv rq rem] dir_ok_after_delete [OF inv rq rem]
      entry_ok_after_delete [OF inv rq rem] live s' by blast
qed

section \<open>Reading in the tree\<close>

lemma read_entry:
  assumes inv: "fs_inv D s" and rq: "valid_request D rq"
    and e: "find (entry_matches rq) (table_at s (parent_cluster_number rq)) = Some e"
      "attribute e \<noteq> ATTR_SUBDIRECTORY"
  shows "\<exists>i cs. e = table_at s (parent_cluster_number rq) ! i \<and> (parent_cluster_number rq, i) \<in> live D s \<and>
    owns s (parent_cluster_number rq, i) cs \<and> set cs \<inter> D = {} \<and> cs = entry_cluster e # tl cs"
proof -
  let ?p = "parent_cluster_number rq"
  have ok: "dir_ok s ?p" by (rule fs_invD(3) [OF inv valid_requestD(1) [OF rq]])
  obtain i where i: "i < 64" "e = table_at s ?p ! i" "entry_matches rq e"
    using e(1) by (auto simp: find_Some_iff)
  have "i \<noteq> 0" using dir_okD(6) [OF ok] e(2) i(2) by metis
  moreover have "i \<noteq> 1" using dir_okD(7) [OF ok] e(2) i(2) by metis
  ultimately have "2 \<le> i" by linarith
  moreover have "in_use e" using dir_okD(4) [OF ok, of i] i \<open>2 \<le> i\<close> valid_requestD(4) [OF rq] by metis
  ultimately have l: "(?p, i) \<in> live D s"
    using i valid_requestD(1) [OF rq] by (simp add: live_def)
  then obtain cs where "owns s (?p, i) cs" "set cs \<inter> D = {}"
    using fs_invD(4) [OF inv l] e(2) i(2) unfolding entry_ok_def by auto
  moreover from this(1) have "cs = entry_cluster e # tl cs"
    using i(2) by (cases cs) (auto simp: owns_def)
  ultimately show ?thesis using l i(2) by blast
qed

lemma read_returns:
  assumes inv: "fs_inv D s" and rq: "valid_request D rq"
  shows "\<exists>m'. read st s rq m = Some (Inr
    (case find (entry_matches rq) (table_at s (parent_cluster_number rq)) of None \<Rightarrow> (2, m)
     | Some e \<Rightarrow> if attribute e = ATTR_SUBDIRECTORY then (1, m)
         else if buffer_size rq div 2048 < ucast (clusters_needed (filesize e)) then (- 1, m)
         else (0, m')))"
proof -
  let ?p = "parent_cluster_number rq"
  have ok: "dir_ok s ?p" by (rule fs_invD(3) [OF inv valid_requestD(1) [OF rq]])
  show ?thesis
  proof (cases "find (entry_matches rq) (table_at s ?p)")
    case None
    then show ?thesis using dir_okD(1,2) [OF ok] by (simp add: read_def)
  next
    case (Some e)
    show ?thesis
    proof (cases "attribute e = ATTR_SUBDIRECTORY")
      case False
      then obtain i cs where "owns s (?p, i) cs" "cs = entry_cluster e # tl cs"
        using read_entry [OF inv rq Some] by blast
      then have "read_chain st s (rq_buf rq) (entry_cluster e) 0 m =
          Some (Inr (store_chain st (storage s) (rq_buf rq) cs 0 m))"
        using read_chain_ends [of s "entry_cluster e" "tl cs"] by (simp add: owns_def)
      then show ?thesis using Some False dir_okD(1,2) [OF ok] by (simp add: read_def)
    qed (use Some dir_okD(1,2) [OF ok] in \<open>simp add: read_def\<close>)
  qed
qed

lemma read_success_entry:
  assumes "fs_inv D s" and "valid_request D rq" and "read st s rq m = Some (Inr (0, m'))"
  obtains e where "find (entry_matches rq) (table_at s (parent_cluster_number rq)) = Some e"
    "attribute e \<noteq> ATTR_SUBDIRECTORY"
  using assms(3) dir_okD(1,2) [OF fs_invD(3) [OF assms(1) valid_requestD(1) [OF assms(2)]]]
  by (auto simp: read_def split: option.splits if_splits)

section \<open>Other files, in the tree\<close>

lemma write_isolates:
  assumes inv: "fs_inv D s" and rq: "valid_request D rq" "valid_request D rq2"
    and w: "write_fat32 load_bytes m rq s = Inr (0, s')"
    and r: "read st s rq2 mm = Some (Inr (0, m'))"
  shows "read st s' rq2 mm = Some (Inr (0, m'))"
proof -
  obtain e where e: "find (entry_matches rq2) (table_at s (parent_cluster_number rq2)) = Some e"
    "attribute e \<noteq> ATTR_SUBDIRECTORY"
    using read_success_entry [OF inv rq(2) r] by blast
  obtain i cs where i: "e = table_at s (parent_cluster_number rq2) ! i" "(parent_cluster_number rq2, i) \<in> live D s"
      "owns s (parent_cluster_number rq2, i) cs" "set cs \<inter> D = {}" "cs = entry_cluster e # tl cs"
    using read_entry [OF inv rq(2) e] by blast
  have ok: "dir_ok s (parent_cluster_number rq)" "dir_ok s (parent_cluster_number rq2)"
    using fs_invD(3) [OF inv] valid_requestD(1) rq by blast+
  have "read st s' rq2 mm = read st s rq2 mm"
  proof (rule write_keeps_files [OF fs_invD(1) [OF inv] length_load_bytes dir_okD(1) [OF ok(1)] _ _ w
        dir_okD(1) [OF ok(2)] _ _ _ e(1)])
    show "is_chain (cluster_map s) (entry_cluster e # tl cs)" using i(3,5) by (simp add: owns_def)
    show "parent_cluster_number rq \<notin> set (entry_cluster e # tl cs)"
      using i(4,5) valid_requestD(1) [OF rq(1)] by auto
    show "in_use e" using i(1,2) by (simp add: live_def)
    show "cluster_map s ! unat (parent_cluster_number rq2) \<noteq> 0" using dir_okD(2) [OF ok(2)] by simp
  qed (use valid_requestD(2,3) rq in blast)+
  with r show ?thesis by simp
qed

lemma delete_isolates:
  assumes inv: "fs_inv D s" and rq: "valid_request D rq" "valid_request D rq2"
    and other: "parent_cluster_number rq2 \<noteq> parent_cluster_number rq \<or> rq_name rq2 \<noteq> rq_name rq \<or> rq_ext rq2 \<noteq> rq_ext rq"
    and del: "delete rq s = Some (Inr (0, s'))"
    and r: "read st s rq2 mm = Some (Inr (0, m'))"
  shows "read st s' rq2 mm = Some (Inr (0, m'))"
proof -
  let ?p = "parent_cluster_number rq" and ?p2 = "parent_cluster_number rq2"
  obtain e where e: "find (entry_matches rq2) (table_at s ?p2) = Some e" "attribute e \<noteq> ATTR_SUBDIRECTORY"
    using read_success_entry [OF inv rq(2) r] by blast
  obtain i cs where i: "e = table_at s ?p2 ! i" "(?p2, i) \<in> live D s" "owns s (?p2, i) cs" "set cs \<inter> D = {}"
      "cs = entry_cluster e # tl cs"
    using read_entry [OF inv rq(2) e] by blast
  obtain j ds where rem: "removes D s rq j ds" and s': "s' = deleted rq j ds s"
    using delete_in_tree [OF inv rq(1) del] by blast
  note vl = victim_live [OF inv rq(1), of j] and rt = removed_tables [OF inv rq(1) rem, folded s']
  have j: "victim rq s = Some j" using rem by (simp add: removes_def)
  have p2: "data_cluster ?p2" "?p2 \<notin> set ds"
    using dir_okD(1) fs_invD(3) [OF inv valid_requestD(1) [OF rq(2)]] live_after_delete(1) [OF inv rq(1) rem i(2)] by auto
  have neq: "\<not> (?p2 = ?p \<and> table_at s ?p ! j = e)"
  proof
    assume a: "?p2 = ?p \<and> table_at s ?p ! j = e"
    then have "entry_wf e" "entry_matches rq e" using vl(3,4) [OF j] table_wf_nth [OF table_wf_at, of j s ?p] by auto
    moreover have "entry_matches rq2 e" using e(1) by (auto simp: find_Some_iff)
    ultimately have "rq_name rq2 = rq_name rq \<and> rq_ext rq2 = rq_ext rq"
      using valid_requestD(2,3) [OF rq(1)] valid_requestD(2,3) [OF rq(2)] by (simp add: entry_matches_eq)
    with other a show False by blast
  qed
  then have ne: "(?p2, i) \<noteq> (?p, j)" using i(1) by auto
  have dis: "set cs \<inter> set ds = {}" by (rule removes_disjoint [OF inv rq(1) rem i(2) ne i(3)])
  have chain: "is_chain (cluster_map s) cs" "is_chain (cluster_map s') cs"
    using i(3) owns_after_delete [OF inv rq(1) rem i(2) ne, folded s'] by (auto simp: owns_def)
  have "find (entry_matches rq2) (table_at s' ?p2) = Some e"
    using find_update_other [of "entry_matches rq2" "table_at s ?p" e j zero_entry] e(1) neq rt(4) [of ?p2] rt(5) p2
      valid_requestD(4) [OF rq(2)] by (cases "?p2 = ?p") simp_all
  moreover have "read_clusters (storage s') c 1 = read_clusters (storage s) c 1" if "c \<in> set cs" for c
    using rt(4) [of c] that dis i(4) valid_requestD(1) [OF rq(1)] is_chain_data [OF chain(1) that] by blast
  ultimately have "read st s' rq2 mm = read st s rq2 mm"
    using e(1) chain rt(2) [OF p2(2,1)] by (intro read_cong [where e = e and cs = "tl cs"]) (simp_all add: i(5) [symmetric])
  with r show ?thesis by simp
qed

section \<open>Runs of the filesystem\<close>

text \<open>
  The states a mounted disk can be in: freshly formatted, after a creation or deletion with a valid
  request (whatever it returned), and after a remount, which loses the cached table.
\<close>

inductive fs_reachable :: "u32 set \<Rightarrow> fat32 \<Rightarrow> bool" where
  format: "fs_reachable {ROOT_CLUSTER_NUMBER} (create_fat32 s)"
| create: "fs_reachable D s \<Longrightarrow> valid_request D rq \<Longrightarrow> write_fat32 load_bytes m rq s = Inr (r, s') \<Longrightarrow>
    fs_reachable (if r = 0 then dirs_after_write D rq s else D) s'"
| remove: "fs_reachable D s \<Longrightarrow> valid_request D rq \<Longrightarrow> delete rq s = Some (Inr (r, s')) \<Longrightarrow>
    fs_reachable (if r = 0 then dirs_after_delete D rq s else D) s'"
| mount: "fs_reachable D s \<Longrightarrow> fs_reachable D (initialize_filesystem_fat32 (s\<lparr> cluster_map := stale \<rparr>))"

inductive_cases fs_reachableE: "fs_reachable D s"

lemma write_failure_unchanged:
  assumes "write_fat32 ld m rq s = Inr (r, s')" and "r \<noteq> 0" shows "s' = s"
proof -
  have p: "unat (parent_cluster_number rq) < 512"
    using assms(1) by (auto simp: write_fat32_def split: if_splits)
  show ?thesis
    using assms unfolding write_fat32_eq [OF p] by (auto split: if_splits option.splits)
qed

lemma reachable_inv: "fs_reachable D s \<Longrightarrow> fs_inv D s"
proof (induction rule: fs_reachable.induct)
  case (format s)
  then show ?case by (rule fs_inv_format)
next
  case (create D s rq m r s')
  then show ?case
    using fs_inv_write [of D s load_bytes m rq s', OF _ length_load_bytes] write_failure_unchanged [of load_bytes m rq s r s'] by auto
next
  case (remove D s rq r s')
  then show ?case
    using fs_inv_delete [of D s rq s'] delete_returns [of D s rq] by auto
next
  case (mount D s stale)
  then show ?case using remount [OF fs_invD(1)] by simp
qed

text \<open>
  C1: The directory tree stays sound.  In every state reached from a formatted disk by creations,
  deletions and remounts with valid requests: the cached table and the disk agree; every directory is
  a one-cluster chain with its own two entries; every entry in use from number 2 on owns an intact
  chain, a directory's being a known directory and a file's holding none; no two entries share a
  cluster; and names are unique within a directory.
\<close>

theorem tree_invariant: "fs_reachable D s \<Longrightarrow> fs_inv D s"
  by (rule reachable_inv)


text \<open>
  C3: In such a state files are isolated: if a valid read of a file succeeds, it succeeds with the
  same result after any successful creation, and after any successful deletion of a different path.
\<close>

theorem tree_isolation:
  assumes "fs_reachable D s" and "valid_request D rq" and "valid_request D rq2"
    and "read st s rq2 m = Some (Inr (0, m'))"
  shows "(write_fat32 load_bytes mm rq s = Inr (0, s') \<longrightarrow> read st s' rq2 m = Some (Inr (0, m'))) \<and>
    (delete rq s = Some (Inr (0, s'')) \<and>
      (parent_cluster_number rq2, rq_name rq2, rq_ext rq2) \<noteq> (parent_cluster_number rq, rq_name rq, rq_ext rq) \<longrightarrow>
      read st s'' rq2 m = Some (Inr (0, m')))"
  using write_isolates [OF reachable_inv [OF assms(1)] assms(2,3) _ assms(4)]
    delete_isolates [OF reachable_inv [OF assms(1)] assms(2,3) _ _ assms(4)] by blast

section \<open>Instances\<close>

lemma note_txt_valid: "valid_request {2} (note_txt n)" and todo_log_valid: "valid_request {2} todo_log"
  by (simp_all add: valid_request_def note_txt_def todo_log_def numeral_3_eq_3)

lemma note_txt_reachable:
  assumes "write_fat32 load_bytes m (note_txt 5000) fresh_fs = Inr (0, s)"
  shows "fs_reachable {2} s"
proof -
  have "fs_reachable {2} fresh_fs" unfolding fresh_fs_def by (rule format)
  from create [OF this note_txt_valid assms] show ?thesis by (simp add: dirs_after_write_def)
qed

theorem tree_invariant_witness:
  "\<exists>s. write_fat32 load_bytes (\<lambda>_. 7) (note_txt 5000) fresh_fs = Inr (0, s) \<and> fs_inv {2} s"
  using note_txt_fresh [of load_bytes "\<lambda>_. 7"] tree_invariant [OF note_txt_reachable] by blast


theorem tree_isolation_witness:
  "\<exists>s s' m'. write_fat32 load_bytes (\<lambda>_. 7) (note_txt 5000) fresh_fs = Inr (0, s) \<and>
     write_fat32 load_bytes (\<lambda>_. 9) todo_log s = Inr (0, s') \<and>
     read store_bytes s' ((note_txt 5000)\<lparr> rq_buf := 0x90000, buffer_size := 8000 \<rparr>) (\<lambda>_. 0) = Some (Inr (0, m'))"
proof -
  obtain s where w: "write_fat32 load_bytes (\<lambda>_. 7) (note_txt 5000) fresh_fs = Inr (0, s)"
    using note_txt_fresh [of load_bytes "\<lambda>_. 7"] by (elim exE)
  obtain s' where w': "write_fat32 load_bytes (\<lambda>_. 9) todo_log s = Inr (0, s')"
    using todo_log_accepted [OF w, of "\<lambda>_. 9"] by (elim exE)
  let ?rq = "(note_txt 5000)\<lparr> rq_buf := 0x90000, buffer_size := 8000 \<rparr>"
  have n: "2048 * clusters_of (buffer_size (note_txt 5000)) \<le> unat (8000 :: u32)"
    by (simp only: note_txt_simps clusters_of_def) simp
  have "\<exists>m'. read store_bytes s ?rq (\<lambda>_. 0) = Some (Inr (0, m'))"
    using read_after_write [OF fs_wf_fresh _ _ _ _ _ w n, of "0x90000" "\<lambda>_. 0"] by simp
  then obtain m' where r: "read store_bytes s ?rq (\<lambda>_. 0) = Some (Inr (0, m'))" by (elim exE)
  have v: "valid_request {2} ?rq" using note_txt_valid [of 5000] by (simp add: valid_request_def)
  have "read store_bytes s' ?rq (\<lambda>_. 0) = Some (Inr (0, m'))"
    using tree_isolation [OF note_txt_reachable [OF w] todo_log_valid v r] w' by blast
  with w w' show ?thesis by blast
qed

end
