(* ===== verification/Fat32_Limits.thy ===== *)
theory Fat32_Limits
  imports Fat32_Tree
begin

text \<open>
  Where the driver's behaviour differs from what its interface suggests: sizes from 256 clusters on,
  the root directory's own entry, and cluster 1 as a directory.
\<close>

section \<open>Large files\<close>

lemma required_wraps:
  assumes "buffer_size rq \<noteq> 0" and "unat (buffer_size rq) < 2 ^ 24"
  shows "unat (required_clusters rq) = clusters_of (buffer_size rq) mod 256"
proof -
  have "clusters_needed (buffer_size rq) = of_nat (clusters_of (buffer_size rq))"
    unfolding clusters_needed_def clusters_of_def using assms ceil_exact [of "buffer_size rq" 11 2048] by simp
  then show ?thesis using assms by (simp add: required_clusters_def unat_of_nat)
qed

text \<open>
  The number of clusters is counted in 8 bits: a successful write of a file of less than 16 MiB
  takes its number of clusters modulo 256 out of the free space, yet records the full size in the
  directory entry.
\<close>

theorem large_write_truncates:
  assumes "fs_wf s" and "data_cluster (parent_cluster_number rq)" and "buffer_size rq \<noteq> 0"
    and "unat (buffer_size rq) < 2 ^ 24" and "length (rq_name rq) = 8" and "length (rq_ext rq) = 3"
    and "write_fat32 load_bytes m rq s = Inr (0, s')"
  shows "free_count (cluster_map s') + clusters_of (buffer_size rq) mod 256 = free_count (cluster_map s) \<and>
    map_option filesize (find (entry_matches rq) (table_at s' (parent_cluster_number rq))) = Some (buffer_size rq)"
  using write_free_count [OF assms(1) length_load_bytes assms(2,7)] required_wraps [OF assms(3,4)]
    new_entry_found [OF assms(7,1) length_load_bytes assms(2,5,6), of rq] by simp

theorem large_write_truncates_witness:
  "\<exists>s'. write_fat32 load_bytes (\<lambda>_. 7) (note_txt 614400) fresh_fs = Inr (0, s') \<and>
     free_count (cluster_map s') + 44 = free_count (cluster_map fresh_fs)"
proof -
  have sz: "buffer_size (note_txt 614400) \<noteq> 0" "unat (buffer_size (note_txt 614400)) < 2 ^ 24"
    and k: "clusters_of (buffer_size (note_txt 614400)) mod 256 = 44"
    by (simp_all add: clusters_of_def)
  have "required_clusters (note_txt 614400) \<noteq> 0"
    using required_wraps [OF sz] k by auto
  then obtain s' where w: "write_fat32 load_bytes (\<lambda>_. 7) (note_txt 614400) fresh_fs = Inr (0, s')"
    using fresh_accepts [of "note_txt 614400" load_bytes "\<lambda>_. 7" blank_fs]
    by (auto simp: fresh_fs_def) (auto simp: note_txt_def numeral_3_eq_3)
  from large_write_truncates [OF fs_wf_fresh _ sz _ _ w] w k show ?thesis by auto
qed

text \<open>
  When the number of clusters is a positive multiple of 256, a write that passes the earlier
  checks takes its first cluster from a variable-length array of length zero, an uninitialised value.
\<close>

theorem large_write_uninitialised:
  assumes "unat (parent_cluster_number rq) < 512" and "buffer_size rq \<noteq> 0" and "unat (buffer_size rq) < 2 ^ 24"
    and "clusters_of (buffer_size rq) mod 256 = 0"
    and "cluster_map s ! unat (parent_cluster_number rq) = FAT32_FAT_END_OF_FILE"
    and "\<forall>e \<in> set (table_at s (parent_cluster_number rq)). \<not> entry_matches rq e"
    and "e \<in> set (tl (table_at s (parent_cluster_number rq)))" and "user_attribute e \<noteq> UATTR_NOT_EMPTY"
  shows "write_fat32 ld m rq s = Inl Uninitialised"
proof -
  let ?t = "table_at s (parent_cluster_number rq)"
  have r: "required_clusters rq = 0"
    using required_wraps [OF assms(2,3)] assms(4) by (simp add: unat_eq_zero)
  then have "free_slots rq s = []"
    using count_empty_length [of "cluster_map s" 0] by (simp add: free_slots_def)
  moreover obtain slot where "write_scan rq 0 ?t 0 = Some slot"
    using assms(6) write_scan_None [of rq 0 ?t 0] by (cases "write_scan rq 0 ?t 0") auto
  moreover from this have "slot \<noteq> 0" using write_scan_zero [of ?t rq] assms(7,8) by auto
  ultimately show ?thesis using assms(1,5) r by (simp add: write_fat32_eq)
qed

lemma fresh_root_table:
  "\<exists>d. table_at fresh_fs 2 = init_directory_table d zero_table root_name 2 \<and>
     zero_entry \<in> set (tl (table_at fresh_fs 2))"
proof -
  obtain d where d: "table_at fresh_fs 2 = init_directory_table d zero_table root_name 2"
    using create_table_init unfolding fresh_fs_def by blast
  moreover have "tl (table_at fresh_fs 2) ! 1 = zero_entry"
    unfolding d using init_table_nth(3) [of 2 d root_name 2] init_directory_table_wf [OF table_wf_zero, of d root_name 2]
    by (simp add: table_wf_def nth_tl numeral_2_eq_2)
  then have "zero_entry \<in> set (tl (table_at fresh_fs 2))"
    using nth_mem [of 1 "tl (table_at fresh_fs 2)"] by simp
  ultimately show ?thesis by blast
qed

theorem large_write_uninitialised_witness:
  "write_fat32 load_bytes (\<lambda>_. 7) (note_txt 524288) fresh_fs = Inl Uninitialised"
proof -
  obtain d where d: "table_at fresh_fs 2 = init_directory_table d zero_table root_name 2"
    "zero_entry \<in> set (tl (table_at fresh_fs 2))"
    using fresh_root_table by blast
  have "\<forall>e \<in> set (table_at fresh_fs 2). \<not> entry_matches (note_txt 524288) e"
    unfolding d(1) using init_table_ext [of _ d root_name 2]
    by (auto simp: entry_matches_def note_txt_def numeral_3_eq_3)
  then show ?thesis
    using large_write_uninitialised [of "note_txt 524288" fresh_fs zero_entry load_bytes "\<lambda>_. 7"] d(2) fs_wf_fresh
    by (simp add: clusters_of_def fs_wf_def zero_entry_def)
qed

section \<open>The root directory's own entry\<close>

definition root_request :: "u32 \<Rightarrow> FAT32DriverRequest" where
  "root_request b = \<lparr> rq_buf = b, rq_name = map of_char ''root'' @ [0, 0, 0, 0], rq_ext = [0, 0, 0],
     parent_cluster_number = 2, buffer_size = 2048 \<rparr>"

text \<open>
  Formatting never stores the root directory's own cluster number in its first entry, so
  listing the directory \<open>root\<close> of the root directory returns 0 and delivers the cluster of the boot
  sector instead of the root's table.
\<close>

theorem root_entry_names_boot_cluster:
  "read_directory st (create_fat32 s) (root_request b) m =
     (0, st b (read_clusters (storage (create_fat32 s)) 0 1) m)"
proof -
  obtain d where t: "table_at (create_fat32 s) 2 = init_directory_table d zero_table root_name 2"
    using create_table_init by blast
  let ?t = "init_directory_table d zero_table root_name 2"
  have "copy_name root_name 0 (replicate 8 0) = map of_char ''root'' @ [0, 0, 0, 0]"
    by code_simp
  then have e: "?t ! 0 = zero_entry\<lparr> de_name := map of_char ''root'' @ [0, 0, 0, 0],
      attribute := ATTR_SUBDIRECTORY, user_attribute := UATTR_NOT_EMPTY \<rparr>"
    by (simp only: init_table_nth(1))
  have "entry_matches (root_request b) (?t ! 0)"
    unfolding e by (simp add: entry_matches_def root_request_def zero_entry_def numeral_3_eq_3)
  moreover have "?t = ?t ! 0 # tl ?t"
    using init_directory_table_wf [OF table_wf_zero, of d root_name 2] by (cases ?t) (auto simp: table_wf_def)
  then have "find P ?t = (if P (?t ! 0) then Some (?t ! 0) else find P (tl ?t))" for P
    by (metis find.simps(2))
  ultimately have "find (\<lambda>e. user_attribute e = UATTR_NOT_EMPTY \<and> entry_matches (root_request b) e) ?t = Some (?t ! 0)"
    by (simp add: e)
  moreover have "entry_cluster (?t ! 0) = 0" "attribute (?t ! 0) = ATTR_SUBDIRECTORY"
    unfolding e by (simp_all add: entry_cluster_def zero_entry_def)
  ultimately show ?thesis
    using t by (simp add: read_directory_def root_request_def)
qed

end
