(* ===== verification/Process_Load.thy ===== *)
theory Process_Load
  imports Process_Props Fat32_Limits
begin

text \<open>
  Loading an executable: the filesystem driver's stores, made through the page directory of the new
  process, put the file's bytes into the frame that backs the load address.
\<close>

section \<open>Stores within one page\<close>

lemma mod_plus_small: "a mod m + n < m \<Longrightarrow> (a + n) mod m = a mod m + (n :: nat)"
  by (metis mod_add_left_eq mod_less)

lemma within_page:
  assumes "unat p mod 2 ^ 22 + n < 2 ^ 22"
  shows "unat (p + of_nat n :: u32) = unat p + n" and "page_index (p + of_nat n) = page_index p"
    and "(p + of_nat n) AND 0x3FFFFF = (p AND 0x3FFFFF) + of_nat n"
proof -
  have "unat p = 4194304 * (unat p div 4194304) + unat p mod 4194304" by simp
  moreover have "unat p div 4194304 \<le> 1023" using page_index_less [of p] by (simp add: page_index_eq)
  moreover have "unat p mod 4194304 + n < 4194304" using assms by simp
  ultimately have "unat p + n < 4294967296" by linarith
  then have "unat p + n < 2 ^ 32" by simp
  moreover from this have "unat (of_nat n :: u32) = n" by (intro unat_of_nat_less) simp
  ultimately show u: "unat (p + of_nat n) = unat p + n" by (simp add: unat_add_lem [THEN iffD1])
  show "page_index (p + of_nat n) = page_index p"
    unfolding page_index_eq u using assms div_add1_eq [of "unat p" n "2 ^ 22"] by simp
  have "unat ((p + of_nat n) AND 0x3FFFFF) = unat p mod 2 ^ 22 + n"
    using u mod_plus_small [OF assms] by (simp add: offset_mask take_bit_eq_mod unat_mod)
  moreover have "unat (p AND 0x3FFFFF) = unat p mod 2 ^ 22" by (simp add: offset_mask take_bit_eq_mod unat_mod)
  ultimately have "unat ((p + of_nat n) AND 0x3FFFFF) = unat ((p AND 0x3FFFFF) + of_nat n)"
    using \<open>unat (of_nat n :: u32) = n\<close> assms by (simp add: unat_word_ariths)
  then show "(p + of_nat n) AND 0x3FFFFF = (p AND 0x3FFFFF) + of_nat n" by (simp only: word_unat_eq_iff)
qed

lemma translate_sum:
  "translate pd va = (let e = pd ! page_index va in
     if present_bit (flag e) then Some (push_bit 22 (ucast (lower_address e)) + (va AND 0x3FFFFF)) else None)"
proof -
  have "push_bit 22 w OR (x AND 0x3FFFFF) = push_bit 22 w + (x AND 0x3FFFFF)" for w x :: u32
    unfolding offset_mask by (rule disjunctive_add [symmetric]) (auto simp: bit_simps)
  then show ?thesis by (simp add: translate_def Let_def)
qed

lemma translate_add:
  assumes "translate pd p = Some a" and "unat p mod 2 ^ 22 + n < 2 ^ 22"
  shows "translate pd (p + of_nat n) = Some (a + of_nat n)"
  using assms(1) unfolding translate_sum Let_def within_page(2,3) [OF assms(2)]
  by (auto simp: add.assoc split: if_splits)

lemma paged_store_page:
  assumes "translate pd p = Some a" and "unat p mod 2 ^ 22 + length bs \<le> 2 ^ 22"
  shows "paged_store pd p bs (Some m) = Some (store_bytes a bs m)"
  using assms
proof (induction bs arbitrary: p a m)
  case (Cons b bs)
  have "paged_store pd (p + 1) bs (Some (m(a := b))) = Some (store_bytes (a + 1) bs (m(a := b)))"
  proof (cases bs)
    case (Cons c cs)
    have off: "unat p mod 2 ^ 22 + 1 < 2 ^ 22" using Cons.prems(2) \<open>bs = c # cs\<close> by simp
    have "unat (p + 1) mod 2 ^ 22 = unat p mod 2 ^ 22 + 1"
      using within_page(1) [OF off] off by (simp add: mod_Suc)
    then show ?thesis
      using translate_add [OF Cons.prems(1) off] Cons.prems(2) by (intro Cons.IH) simp_all
  qed simp
  moreover have "store_bytes a (b # bs) m = store_bytes (a + 1) bs (m(a := b))"
  proof -
    have "m(a := b) = store_bytes a [b] m" using store_snoc [of "[]" a b m] by simp
    moreover have "length [b] + length bs \<le> 2 ^ 32" using Cons.prems(2) by simp
    ultimately show ?thesis using store_append [of "[b]" bs a m] by simp
  qed
  ultimately show ?case using Cons.prems(1) by simp
qed simp

lemma paged_store_chain:
  assumes "translate pd buf = Some a" and "unat buf mod 2 ^ 22 + 2048 * (k + length cs) \<le> 2 ^ 22"
  shows "store_chain (paged_store pd) d buf cs (of_nat k) (Some m) = Some (store_chain store_bytes d a cs (of_nat k) m)"
  using assms(2)
proof (induction cs arbitrary: k m)
  case (Cons c cs)
  have off: "unat buf mod 2 ^ 22 + 2048 * k < 2 ^ 22" using Cons.prems by simp
  have "unat (buf + of_nat (2048 * k)) mod 2 ^ 22 = unat buf mod 2 ^ 22 + 2048 * k"
    unfolding within_page(1) [OF off] by (rule mod_plus_small [OF off])
  then have "paged_store pd (buf + of_nat (2048 * k)) (read_clusters d c 1) (Some m) =
      Some (store_bytes (a + of_nat (2048 * k)) (read_clusters d c 1) m)"
    using translate_add [OF assms(1) off] Cons.prems by (intro paged_store_page) simp_all
  moreover have "store_chain (paged_store pd) d buf cs (of_nat (Suc k)) (Some m') =
      Some (store_chain store_bytes d a cs (of_nat (Suc k)) m')" for m'
    using Cons.prems by (intro Cons.IH) simp
  moreover have "of_nat k * 2048 = (of_nat (2048 * k) :: u32)" "of_nat k + 1 = (of_nat (Suc k) :: u32)"
    by (simp_all only: of_nat_mult of_nat_numeral of_nat_Suc mult.commute add.commute)
  ultimately show ?case by (simp only: store_chain.simps)
qed simp

section \<open>The code page of a new process\<close>

lemma alloc_pg_entry:
  assumes "paging_inv s" and "pd_valid d" and "d' \<noteq> d \<or> j \<noteq> page_index va"
  shows "get_pd (alloc_pg d va s) d' ! j = get_pd s d' ! j"
proof -
  have wf: "dirs_wf (s\<lparr> page_frame_map := x \<rparr>)" for x using paging_invD(2) [OF assms(1)] by (simp add: dirs_wf_def)
  show ?thesis
    using put_entry_nth [OF wf assms(2) page_index_less] assms(3) by (auto simp: alloc_pg_def allocated_def split: option.split)
qed

lemma claimed_code_page:
  assumes inv: "paging_inv pg" and i: "i < 32" and f: "lowest_free pg = Some f"
    and ne: "page_index (rq_buf rq) \<noteq> page_index USER_STACK"
  shows "\<exists>a. user_translate (get_pd (claimed_pg rq i pg) (UserPD i)) (rq_buf rq) = Some a \<and>
    translate (get_pd (claimed_pg rq i pg) (UserPD i)) (rq_buf rq) = Some a"
proof -
  let ?pg1 = "paging_use_page_directory (user_pd_addr pg i) (put_directory i True (zero_directory[0x300 := kernel_pde]) pg)"
  have v: "pd_valid (UserPD i)" using i by simp
  have inv1: "paging_inv ?pg1"
    using put_directory_inv [OF inv i] new_directory_entries(1,2) by (simp add: use_keeps)
  have f1: "lowest_free ?pg1 = Some f" using f by (simp add: lowest_free_def paging_use_page_directory_def put_directory_def)
  have "alloc_pg (UserPD i) (rq_buf rq) ?pg1 = allocated f (UserPD i) (rq_buf rq) ?pg1"
    using f1 count_positive [OF paging_invD(3) [OF inv1] f1] by (simp add: alloc_pg_def)
  then obtain a where a: "user_translate (get_pd (alloc_pg (UserPD i) (rq_buf rq) ?pg1) (UserPD i)) (rq_buf rq) = Some a"
    using allocated_translate [OF inv1 v, of f "rq_buf rq"] by (simp only:)
  have "get_pd (claimed_pg rq i pg) (UserPD i) ! page_index (rq_buf rq) =
      get_pd (alloc_pg (UserPD i) (rq_buf rq) ?pg1) (UserPD i) ! page_index (rq_buf rq)"
    unfolding claimed_pg_def using ne by (intro alloc_pg_entry [OF pool.allocate_inv [OF inv1 v] v]) simp
  with a show ?thesis by (auto simp: user_translate_def translate_def simp del: get_pd.simps split: if_splits)
qed

lemma read_paged:
  assumes "unat (parent_cluster_number rq) < 512" "cluster_map s ! unat (parent_cluster_number rq) = FAT32_FAT_END_OF_FILE"
    and "find (entry_matches rq) (table_at s (parent_cluster_number rq)) = Some e" "attribute e \<noteq> ATTR_SUBDIRECTORY"
    and "\<not> buffer_size rq div 2048 < ucast (clusters_needed (filesize e))"
    and chain: "is_chain (cluster_map s) cs" "hd cs = entry_cluster e"
    and a: "translate pd (rq_buf rq) = Some a" "unat (rq_buf rq) mod 2 ^ 22 + 2048 * length cs \<le> 2 ^ 22"
  shows "read (paged_store pd) s rq (Some m) = Some (Inr (0, Some (store_bytes a (chain_bytes (storage s) cs) m)))"
proof -
  have cs: "cs = entry_cluster e # tl cs" using chain by (cases cs) auto
  have "read_chain (paged_store pd) s (rq_buf rq) (entry_cluster e) 0 (Some m) =
      Some (Inr (store_chain (paged_store pd) (storage s) (rq_buf rq) cs (of_nat 0) (Some m)))"
    using read_chain_ends [of s "entry_cluster e" "tl cs"] chain(1) cs by simp
  also have "store_chain (paged_store pd) (storage s) (rq_buf rq) cs (of_nat 0) (Some m) =
      Some (store_chain store_bytes (storage s) a cs (of_nat 0) m)"
    by (rule paged_store_chain [OF a(1)]) (use a(2) in simp)
  also have "store_chain store_bytes (storage s) a cs (of_nat 0) m = store_bytes a (chain_bytes (storage s) cs) m"
    using store_chain_flat [of 0 cs "storage s" a m] a(2) by simp
  finally show ?thesis using assms(1-5) by (simp add: read_def not_le)
qed

text \<open>The process that a successful creation leaves, and the state around it.\<close>

lemma create_loads_state:
  assumes inv: "proc_inv k" and ok: "admits rq k"
    and par: "unat (parent_cluster_number rq) < 512" "cluster_map (filesystem k) ! unat (parent_cluster_number rq) = FAT32_FAT_END_OF_FILE"
    and e: "find (entry_matches rq) (table_at (filesystem k) (parent_cluster_number rq)) = Some e" "attribute e \<noteq> ATTR_SUBDIRECTORY"
    and buf: "\<not> buffer_size rq div 2048 < ucast (clusters_needed (filesize e))"
    and chain: "is_chain (cluster_map (filesystem k)) cs" "hd cs = entry_cluster e"
    and fits: "unat (rq_buf rq) mod 2 ^ 22 + 2048 * length cs \<le> 2 ^ 22" "page_index (rq_buf rq) \<noteq> page_index USER_STACK"
    and f: "lowest_free (paging_state k) = Some f"
  obtains p i a m where "process_create_user_process rq k = Some (Inr (0, upd_pcb p (init_pcb rq p) (loaded rq p i m k)))"
    "process_list_get_inactive_index k = Some p" "p < 16" "\<not> process_list_used k ! p" "i < 32" "\<not> page_directory_used (paging_state k) ! i"
    "user_translate (get_pd (claimed_pg rq i (paging_state k)) (UserPD i)) (rq_buf rq) = Some a"
    "load_bytes a (2048 * length cs) m = chain_bytes (storage (filesystem k)) cs"
proof -
  let ?bs = "chain_bytes (storage (filesystem k)) cs"
  obtain p i where p: "p < 16" "\<not> process_list_used k ! p" "process_list_get_inactive_index k = Some p"
    and i: "i < 32" "\<not> page_directory_used (paging_state k) ! i"
    and eq: "process_create_user_process rq k =
      map_option (\<lambda>r. and_then r (\<lambda>(code, k2).
        let k3 = k2\<lparr> paging_state := paging_use_page_directory (cr3 (paging_state k) + KERNEL_VIRTUAL_ADDRESS_BASE) (paging_state k2) \<rparr>
        in if code \<noteq> 0 then Inr (PROCESS_CREATE_FAIL_FS_READ_FAILURE, k3)
           else Inr (PROCESS_CREATE_SUCCESS, upd_pcb p (init_pcb rq p) k3)))
      (map_option (\<lambda>r. and_then r (\<lambda>(code, m). case m of None \<Rightarrow> Inl PageFault
          | Some m' \<Rightarrow> Inr (code, (claimed rq p i k)\<lparr> phys := m' \<rparr>)))
        (read (paged_store (get_pd (claimed_pg rq i (paging_state k)) (UserPD i))) (filesystem k) rq (Some (phys k))))"
    by (rule create_admitted [OF inv ok])
  obtain a where a: "user_translate (get_pd (claimed_pg rq i (paging_state k)) (UserPD i)) (rq_buf rq) = Some a"
      "translate (get_pd (claimed_pg rq i (paging_state k)) (UserPD i)) (rq_buf rq) = Some a"
    using claimed_code_page [OF proc_invD(1) [OF inv] i(1) f fits(2)] by blast
  have pg: "paging_state (claimed rq p i k) = claimed_pg rq i (paging_state k)" by (simp add: claimed_def)
  have "process_create_user_process rq k = Some (Inr (0, upd_pcb p (init_pcb rq p) (loaded rq p i (store_bytes a ?bs (phys k)) k)))"
    unfolding eq read_paged [OF par e buf chain a(2) fits(1)] by (simp add: loaded_def pg Let_def del: get_pd.simps)
  moreover have "load_bytes a (2048 * length cs) (store_bytes a ?bs (phys k)) = ?bs"
    using load_store_same [of ?bs a "phys k"] fits(1) by simp
  ultimately show thesis using that p i a(1) by blast
qed

lemma create_loads:
  assumes inv: "proc_inv k" and ok: "admits rq k"
    and par: "unat (parent_cluster_number rq) < 512" "cluster_map (filesystem k) ! unat (parent_cluster_number rq) = FAT32_FAT_END_OF_FILE"
    and e: "find (entry_matches rq) (table_at (filesystem k) (parent_cluster_number rq)) = Some e" "attribute e \<noteq> ATTR_SUBDIRECTORY"
    and buf: "\<not> buffer_size rq div 2048 < ucast (clusters_needed (filesize e))"
    and chain: "is_chain (cluster_map (filesystem k)) cs" "hd cs = entry_cluster e"
    and fits: "unat (rq_buf rq) mod 2 ^ 22 + 2048 * length cs \<le> 2 ^ 22" "page_index (rq_buf rq) \<noteq> page_index USER_STACK"
    and f: "lowest_free (paging_state k) = Some f"
  shows "\<exists>k' p i a. process_create_user_process rq k = Some (Inr (0, k')) \<and> process_list_get_inactive_index k = Some p \<and>
    i < 32 \<and> pcb_dir k' p = user_pd_addr (paging_state k') i \<and>
    user_translate (get_pd (paging_state k') (UserPD i)) (rq_buf rq) = Some a \<and>
    load_bytes a (2048 * length cs) (phys k') = chain_bytes (storage (filesystem k)) cs"
proof -
  obtain p i a m where c: "process_create_user_process rq k = Some (Inr (0, upd_pcb p (init_pcb rq p) (loaded rq p i m k)))"
    "process_list_get_inactive_index k = Some p" "p < 16" "i < 32"
    "user_translate (get_pd (claimed_pg rq i (paging_state k)) (UserPD i)) (rq_buf rq) = Some a"
    "load_bytes a (2048 * length cs) m = chain_bytes (storage (filesystem k)) cs"
    using create_loads_state [OF assms] by metis
  let ?k = "upd_pcb p (init_pcb rq p) (loaded rq p i m k)"
  have l: "length (process_list k) = 16" using proc_invD(2) [OF inv] by (simp add: table_ok_def)
  have "get_pd (paging_state ?k) (UserPD i) = get_pd (claimed_pg rq i (paging_state k)) (UserPD i)"
    by (simp add: upd_pcb_def loaded_def paging_use_page_directory_def)
  moreover have "pcb_dir ?k p = user_pd_addr (paging_state ?k) i"
    using c(3) l claimed_pg_facts(5) [OF proc_invD(1) [OF inv] c(4), where rq = rq]
    by (simp add: pcb_dir_def upd_pcb_def loaded_def init_pcb_def claimed_def claimed_pcb_def claim_pcb_def
        user_pd_addr_cong [of "paging_use_page_directory x y" y for x y] paging_use_page_directory_def)
       (simp add: user_pd_addr_def fun_eq_iff)
  moreover have "phys ?k = m" by (simp add: upd_pcb_def loaded_def)
  ultimately show ?thesis
    using c by (intro exI [where x = ?k] exI [where x = p] exI [where x = i] exI [where x = a]) (simp only: simp_thms)
qed

text \<open>
  C20: Creating a process from an intact file that fits into the page of its load address, while a
  frame is free, succeeds; in the new process's address space the load address is mapped for the
  user, and the physical memory behind it holds exactly the file's clusters.
\<close>

theorem create_loads_executable:
  assumes inv: "proc_inv k" and ok: "admits rq k"
    and par: "unat (parent_cluster_number rq) < 512" "cluster_map (filesystem k) ! unat (parent_cluster_number rq) = FAT32_FAT_END_OF_FILE"
    and e: "find (entry_matches rq) (table_at (filesystem k) (parent_cluster_number rq)) = Some e" "attribute e \<noteq> ATTR_SUBDIRECTORY"
    and buf: "\<not> buffer_size rq div 2048 < ucast (clusters_needed (filesize e))"
    and chain: "is_chain (cluster_map (filesystem k)) cs" "hd cs = entry_cluster e"
    and fits: "unat (rq_buf rq) mod 2 ^ 22 + 2048 * length cs \<le> 2 ^ 22" "page_index (rq_buf rq) \<noteq> page_index USER_STACK"
    and f: "lowest_free (paging_state k) = Some f"
  shows "\<exists>k' p i a. process_create_user_process rq k = Some (Inr (0, k')) \<and> process_list_get_inactive_index k = Some p \<and>
    i < 32 \<and> pcb_dir k' p = user_pd_addr (paging_state k') i \<and>
    user_translate (get_pd (paging_state k') (UserPD i)) (rq_buf rq) = Some a \<and>
    load_bytes a (2048 * length cs) (phys k') = chain_bytes (storage (filesystem k)) cs"
  by (rule create_loads [OF assms])

section \<open>A kernel with one file\<close>

definition demo_fs :: fat32 where
  "demo_fs = (case write_fat32 load_bytes (\<lambda>_. 7) (note_txt 5000) fresh_fs of Inr (_, s) \<Rightarrow> s | _ \<Rightarrow> fresh_fs)"

definition demo_kernel :: kernel where
  "demo_kernel = initial_kernel boot_paging demo_fs (\<lambda>_. 0)"

definition exec_note :: FAT32DriverRequest where
  "exec_note = (note_txt 5000)\<lparr> rq_buf := 0, buffer_size := 8000 \<rparr>"

lemma demo_written: "write_fat32 load_bytes (\<lambda>_. 7) (note_txt 5000) fresh_fs = Inr (0, demo_fs)"
proof -
  obtain s where "write_fat32 load_bytes (\<lambda>_. 7) (note_txt 5000) fresh_fs = Inr (0, s)"
    using note_txt_fresh [of load_bytes "\<lambda>_. 7"] by (elim exE)
  then show ?thesis by (simp add: demo_fs_def)
qed

lemma initial_proc_inv:
  assumes "paging_inv pg" and "\<forall>i < 32. \<not> page_directory_used pg ! i"
  shows "proc_inv (initial_kernel pg f m)"
proof -
  have "pcb_wf zero_pcb" by (simp add: pcb_wf_def zero_pcb_def count_used_def)
  then have "table_ok (initial_kernel pg f m)" by (simp add: table_ok_def initial_kernel_def count_used_def)
  moreover have "dirs_ok (initial_kernel pg f m)" using assms(2) by (simp add: dirs_ok_def initial_kernel_def)
  ultimately show ?thesis using assms(1) by (simp add: proc_inv_def) (simp add: initial_kernel_def)
qed

lemma demo_inv: "proc_inv demo_kernel"
  unfolding demo_kernel_def by (rule initial_proc_inv [OF boot_inv]) (simp add: boot_paging_def initial_paging_def)

lemma demo_admits: "admits exec_note demo_kernel"
proof -
  have a: "unat (4202304 :: u32) < 2 ^ 24" and b: "(4194304 :: u32) = 2 ^ 22" by simp_all
  have "ceil_div (4202304 :: u32) 4194304 = 2" unfolding ceil_div_exact [OF a _ b, simplified] by simp
  then have "page_frames_needed 8000 = 2" by (simp add: page_frames_needed_def)
  moreover have "paging_allocate_check 2 boot_paging"
    using allocate_check_eq [of 2 boot_paging] by (simp add: boot_paging_def initial_paging_def)
  ultimately show ?thesis by (simp add: admits_def exec_note_def demo_kernel_def initial_kernel_def)
qed

lemma demo_file:
  "unat (parent_cluster_number exec_note) < 512"
  "cluster_map (filesystem demo_kernel) ! unat (parent_cluster_number exec_note) = FAT32_FAT_END_OF_FILE"
  "find (entry_matches exec_note) (table_at (filesystem demo_kernel) (parent_cluster_number exec_note)) =
     Some (new_entry (note_txt 5000) False (hd (free_slots (note_txt 5000) fresh_fs)))"
  "\<not> buffer_size exec_note div 2048 < ucast (clusters_needed (5000 :: u32))"
  "is_chain (cluster_map (filesystem demo_kernel)) (free_slots (note_txt 5000) fresh_fs)"
  "length (free_slots (note_txt 5000) fresh_fs) = 3"
proof -
  have p: "data_cluster (parent_cluster_number (note_txt 5000))" by simp
  note we = write_effect [OF fs_wf_fresh length_load_bytes p demo_written]
  have k: "filesystem demo_kernel = demo_fs" by (simp add: demo_kernel_def initial_kernel_def)
  show "unat (parent_cluster_number exec_note) < 512" by (simp add: exec_note_def)
  show "cluster_map (filesystem demo_kernel) ! unat (parent_cluster_number exec_note) = FAT32_FAT_END_OF_FILE"
    using we(5) by (simp add: k exec_note_def fs_wf_def)
  show "find (entry_matches exec_note) (table_at (filesystem demo_kernel) (parent_cluster_number exec_note)) =
     Some (new_entry (note_txt 5000) False (hd (free_slots (note_txt 5000) fresh_fs)))"
    using new_entry_found [OF demo_written fs_wf_fresh length_load_bytes p, of exec_note] by (simp add: k exec_note_def)
  have "\<not> (8000 :: u32) div 2048 < ucast (clusters_needed (5000 :: u32))"
    by (rule buffer_enough) (simp_all add: clusters_of_def)
  then show "\<not> buffer_size exec_note div 2048 < ucast (clusters_needed (5000 :: u32))" by (simp add: exec_note_def)
  show "is_chain (cluster_map (filesystem demo_kernel)) (free_slots (note_txt 5000) fresh_fs)" using we(3) by (simp add: k)
  show "length (free_slots (note_txt 5000) fresh_fs) = 3"
    using write_success(7) [OF demo_written] note_txt_required by simp
qed

lemma demo_page: "unat (rq_buf exec_note) mod 2 ^ 22 + 2048 * length (free_slots (note_txt 5000) fresh_fs) \<le> 2 ^ 22"
  "page_index (rq_buf exec_note) \<noteq> page_index USER_STACK" "lowest_free (paging_state demo_kernel) = Some 1"
  using boot_lowest by (simp_all add: demo_file(6) exec_note_def page_index_eq demo_kernel_def initial_kernel_def)

lemma demo_create:
  "\<exists>k'. process_create_user_process exec_note demo_kernel = Some (Inr (0, k'))"
  using create_loads [OF demo_inv demo_admits demo_file(1-3) _ _ demo_file(5) _ demo_page] demo_file(4) by auto

theorem create_loads_executable_witness:
  "\<exists>k' a. process_create_user_process exec_note demo_kernel = Some (Inr (0, k')) \<and>
     load_bytes a 6144 (phys k') = chain_bytes (storage demo_fs) (free_slots (note_txt 5000) fresh_fs)"
proof -
  have "filesystem demo_kernel = demo_fs" by (simp add: demo_kernel_def initial_kernel_def)
  then show ?thesis
    using create_loads_executable [OF demo_inv demo_admits demo_file(1-3) _ _ demo_file(5) _ demo_page] demo_file(4,6)
    by auto
qed

theorem create_refusals_witness:
  "process_create_user_process (exec_note\<lparr> rq_buf := 0xC0000000 \<rparr>) demo_kernel = Some (Inr (2, demo_kernel))"
  using create_refusals [OF demo_inv, of "exec_note\<lparr> rq_buf := 0xC0000000 \<rparr>"]
  by (simp add: demo_kernel_def initial_kernel_def)

theorem create_success_witness:
  "\<exists>k'. process_create_user_process exec_note demo_kernel = Some (Inr (0, k')) \<and>
     active_process_count k' = active_process_count demo_kernel + 1 \<and> proc_inv k'"
proof -
  obtain k' where k': "process_create_user_process exec_note demo_kernel = Some (Inr (0, k'))"
    using demo_create by (elim exE)
  have r: "cr3 (paging_state demo_kernel) = pd_addr (paging_state demo_kernel) KernelPD - KERNEL_VIRTUAL_ADDRESS_BASE"
    by (simp add: demo_kernel_def initial_kernel_def boot_paging_def initial_paging_def pd_addr_def)
  from create_success [OF demo_inv k' r] k' show ?thesis by auto
qed

lemma demo_created:
  assumes "process_create_user_process exec_note demo_kernel = Some (Inr (0, k'))"
  shows "proc_inv k'" and "process_list_used k' ! 0"
proof -
  obtain p i code m where p: "p < 16" "\<not> process_list_used demo_kernel ! p" "process_list_get_inactive_index demo_kernel = Some p"
    and i: "i < 32" "\<not> page_directory_used (paging_state demo_kernel) ! i"
    and "read (paged_store (get_pd (claimed_pg exec_note i (paging_state demo_kernel)) (UserPD i))) (filesystem demo_kernel)
           exec_note (Some (phys demo_kernel)) = Some (Inr (code, Some m))"
    and e: "(0 :: int, k') = (if code \<noteq> 0 then (4, loaded exec_note p i m demo_kernel)
      else (0, upd_pcb p (init_pcb exec_note p) (loaded exec_note p i m demo_kernel)))"
    by (rule create_result [OF demo_inv demo_admits assms])
  from e have k': "k' = upd_pcb p (init_pcb exec_note p) (loaded exec_note p i m demo_kernel)" by (simp split: if_splits)
  show "proc_inv k'" unfolding k' by (rule loaded_inv(2) [OF demo_inv p(1,2) i])
  have "p = 0"
    using p(3) unfolding process_list_get_inactive_index_def find_upt_Some
    by (auto simp: demo_kernel_def initial_kernel_def)
  then show "process_list_used k' ! 0"
    by (simp add: k' upd_pcb_def loaded_def claimed_def demo_kernel_def initial_kernel_def)
qed

theorem destroy_effect_witness:
  "\<exists>k' k''. process_create_user_process exec_note demo_kernel = Some (Inr (0, k')) \<and>
     process_destroy (\<lambda>_. user_flag) (of_nat 0) k' = Inr (True, k'') \<and> proc_inv k'' \<and>
     active_process_count k'' = active_process_count k' - 1"
proof -
  obtain k' where k': "process_create_user_process exec_note demo_kernel = Some (Inr (0, k'))"
    using demo_create by (elim exE)
  have "(0 :: nat) < 16" by simp
  from destroy_effect [OF demo_created(1) [OF k'] this demo_created(2) [OF k'], of "\<lambda>_. user_flag"] k'
  show ?thesis by blast
qed

theorem destroy_idle_blocks_creation_witness:
  "\<exists>k'. process_destroy (\<lambda>_. zero_flag) (of_nat 5) demo_kernel = Inr (True, k') \<and> active_process_count k' = 0xFFFFFFFF \<and>
     process_create_user_process exec_note k' = Some (Inr (1, k'))"
  by (rule destroy_idle_blocks_creation) (simp_all add: demo_kernel_def initial_kernel_def)

text \<open>A request whose parent cluster is free on a fresh disk: the read returns 2.\<close>

theorem create_read_failure_leaks_witness:
  "\<exists>k'. process_create_user_process (exec_note\<lparr> parent_cluster_number := 3 \<rparr>) (initial_kernel boot_paging fresh_fs (\<lambda>_. 0)) =
       Some (Inr (4, k')) \<and> active_process_count k' = 1"
proof -
  let ?rq = "exec_note\<lparr> parent_cluster_number := 3 \<rparr>" and ?k = "initial_kernel boot_paging fresh_fs (\<lambda>_. 0)"
  have inv: "proc_inv ?k" by (rule initial_proc_inv [OF boot_inv]) (simp add: boot_paging_def initial_paging_def)
  have ok: "admits ?rq ?k" using demo_admits by (simp add: admits_def demo_kernel_def initial_kernel_def)
  obtain p i where eq: "process_create_user_process ?rq ?k =
      map_option (\<lambda>r. and_then r (\<lambda>(code, k2).
        let k3 = k2\<lparr> paging_state := paging_use_page_directory (cr3 (paging_state ?k) + KERNEL_VIRTUAL_ADDRESS_BASE) (paging_state k2) \<rparr>
        in if code \<noteq> 0 then Inr (PROCESS_CREATE_FAIL_FS_READ_FAILURE, k3)
           else Inr (PROCESS_CREATE_SUCCESS, upd_pcb p (init_pcb ?rq p) k3)))
      (map_option (\<lambda>r. and_then r (\<lambda>(code, m). case m of None \<Rightarrow> Inl PageFault
          | Some m' \<Rightarrow> Inr (code, (claimed ?rq p i ?k)\<lparr> phys := m' \<rparr>)))
        (read (paged_store (get_pd (claimed_pg ?rq i (paging_state ?k)) (UserPD i))) (filesystem ?k) ?rq (Some (phys ?k))))"
    by (rule create_admitted [OF inv ok])
  have "cluster_map (filesystem ?k) ! 3 \<noteq> FAT32_FAT_END_OF_FILE"
    by (simp add: initial_kernel_def fresh_fs_def create_fat32_def Let_def)
  then have "read (paged_store (get_pd (claimed_pg ?rq i (paging_state ?k)) (UserPD i))) (filesystem ?k) ?rq (Some (phys ?k)) =
      Some (Inr (2, Some (phys ?k)))"
    unfolding read_def by simp
  then obtain k' where k': "process_create_user_process ?rq ?k = Some (Inr (4, k'))"
    unfolding eq by (simp add: Let_def)
  have "active_process_count ?k = 0" by (simp add: initial_kernel_def)
  with create_read_failure_leaks [OF inv k'] k' show ?thesis by auto
qed

end
