(* ===== verification/Scheduler.thy ===== *)
theory Scheduler
  imports Process_Load
begin

text \<open>
  The scheduler, \<open>src/src/scheduler.c\<close>, and the timer branch of \<open>main_interrupt_handler\<close>
  (\<open>src/src/interrupt.c\<close>).  The switch ends in \<open>process_context_switch\<close>, assembly that loads the
  registers of a context and never returns; the model returns that context.  The search for the next
  process is a loop without a bound, modelled by a partial function: \<open>None\<close> means that it does not
  end.
\<close>

section \<open>Operations\<close>

record InterruptStack =
  is_error_code :: u32
  is_eip :: u32
  is_cs :: u32
  is_eflags :: u32

record InterruptFrame =
  frame_cpu :: CPURegister
  int_number :: u32
  int_stack :: InterruptStack

definition scheduler_save_context_to_current_running_pcb :: "Context \<Rightarrow> kernel \<Rightarrow> fault + kernel" where
  "scheduler_save_context_to_current_running_pcb ctx k =
     (case process_get_current_running_pcb_pointer k of
        None \<Rightarrow> Inr k
      | Some p \<Rightarrow>
          if PROCESS_COUNT_MAX \<le> p then Inl OutOfBounds
          else Inr (upd_pcb p (\<lambda>b. b\<lparr> pstate := PROCESS_STATE_READY,
                 pcontext := (pcontext b)\<lparr> cpu := cpu ctx, eip := eip ctx, eflags := eflags ctx \<rparr> \<rparr>) k))"

partial_function (option) next_process :: "bool list \<Rightarrow> u32 \<Rightarrow> u32 option" where
  "next_process used index =
     (let i = (index + 1) mod of_nat PROCESS_COUNT_MAX
      in if used ! unat i then Some i else next_process used i)"

definition scheduler_switch_to_next_process :: "kernel \<Rightarrow> (Context \<times> kernel) option" where
  "scheduler_switch_to_next_process k =
     (let index = (if current_running_pid k = NO_PROCESS_RUNNING then 0 else current_running_pid k)
      in map_option (\<lambda>i.
           let ctx = pcontext (process_list k ! unat i);
               k1 = upd_pcb (unat i) (\<lambda>b. b\<lparr> pstate := PROCESS_STATE_RUNNING \<rparr>) k
           in (ctx, k1\<lparr> current_running_pid := i,
                 paging_state := paging_use_page_directory (page_directory_virtual_addr ctx) (paging_state k1) \<rparr>))
         (next_process (process_list_used k) index))"

text \<open>
  The timer branch on the process table; its acknowledgement to the interrupt controller is in
  \<open>main_interrupt_handler\<close>.  The context the branch builds has no page directory: the designated
  initialiser leaves it null.
\<close>

definition frame_context :: "InterruptFrame \<Rightarrow> Context" where
  "frame_context f = \<lparr> cpu = frame_cpu f, eip = is_eip (int_stack f), eflags = is_eflags (int_stack f),
     page_directory_virtual_addr = 0 \<rparr>"

definition timer_interrupt :: "InterruptFrame \<Rightarrow> kernel \<Rightarrow> (fault + Context \<times> kernel) option" where
  "timer_interrupt f k =
     (case scheduler_save_context_to_current_running_pcb (frame_context f) k of
        Inl e \<Rightarrow> Some (Inl e)
      | Inr k1 \<Rightarrow> map_option Inr (scheduler_switch_to_next_process k1))"

section \<open>Round robin\<close>

text \<open>
  The interface of a fair choice over a table of \<open>N\<close> slots: \<open>succ i\<close> is the nearest ready slot after
  \<open>i\<close> in cyclic order.  The distance to a ready slot shrinks with every choice that is not the slot
  itself, so each ready slot is chosen within \<open>N\<close> choices.
\<close>

locale round_robin =
  fixes N :: nat and ready :: "nat \<Rightarrow> bool" and succ :: "nat \<Rightarrow> nat"
  assumes succ_ready: "i < N \<Longrightarrow> p < N \<Longrightarrow> ready p \<Longrightarrow> ready (succ i)"
    and succ_nearest: "i < N \<Longrightarrow> p < N \<Longrightarrow> ready p \<Longrightarrow>
      \<exists>d. 0 < d \<and> d \<le> N \<and> succ i = (i + d) mod N \<and> (\<forall>e. 0 < e \<and> e < d \<longrightarrow> \<not> ready ((i + e) mod N))"
begin

lemma succ_less: "i < N \<Longrightarrow> p < N \<Longrightarrow> ready p \<Longrightarrow> succ i < N"
  using succ_nearest by fastforce

lemma closer:
  assumes "i < N" "p < N" "ready p" and m: "0 < m" "p = (i + m) mod N" and ne: "succ i \<noteq> p"
  shows "\<exists>m' < m. 0 < m' \<and> p = (succ i + m') mod N"
proof -
  obtain d where d: "0 < d" "succ i = (i + d) mod N" "\<forall>e. 0 < e \<and> e < d \<longrightarrow> \<not> ready ((i + e) mod N)"
    using succ_nearest [OF assms(1-3)] by blast
  have "\<not> m < d" using d(3) m assms(3) by blast
  moreover have "d \<noteq> m" using ne d(2) m(2) by blast
  ultimately have lt: "d < m" by simp
  have "(succ i + (m - d)) mod N = (i + d + (m - d)) mod N" unfolding d(2) by (simp add: mod_add_left_eq)
  then show ?thesis using lt d(1) m(2) by (intro exI [where x = "m - d"]) simp
qed

lemma fair_aux:
  assumes "i < N" "p < N" "ready p" "0 < m" "p = (i + m) mod N"
  shows "\<exists>n. 0 < n \<and> n \<le> m \<and> (succ ^^ n) i = p"
  using assms
proof (induction m arbitrary: i rule: less_induct)
  case (less m)
  show ?case
  proof (cases "succ i = p")
    case True
    then show ?thesis using less.prems(4) by (intro exI [where x = 1]) simp
  next
    case False
    then obtain m' where m': "m' < m" "0 < m'" "p = (succ i + m') mod N" using closer less.prems by blast
    obtain n where "0 < n" "n \<le> m'" "(succ ^^ n) (succ i) = p"
      using less.IH [OF m'(1) succ_less less.prems(2,3) m'(2,3)] less.prems(1-3) by blast
    then show ?thesis using m'(1) by (intro exI [where x = "Suc n"]) (simp add: funpow_swap1)
  qed
qed

lemma fair:
  assumes "i < N" "p < N" "ready p"
  shows "\<exists>n. 0 < n \<and> n \<le> N \<and> (succ ^^ n) i = p"
proof -
  let ?m = "if i < p then p - i else p + N - i"
  have "0 < ?m" "?m \<le> N" "p = (i + ?m) mod N" using assms by auto
  then obtain n where "0 < n" "n \<le> ?m" "(succ ^^ n) i = p" using fair_aux [OF assms] by blast
  then show ?thesis using \<open>?m \<le> N\<close> by (intro exI [where x = n]) simp
qed

end

section \<open>The search\<close>

definition slot_after :: "nat \<Rightarrow> nat \<Rightarrow> u32" where
  "slot_after i d = of_nat ((i + d) mod 16)"

lemma slot_after_unat [simp]: "unat (slot_after i d) = (i + d) mod 16"
  by (simp add: slot_after_def unat_of_nat_less)

lemma slot_step: "(slot_after i d + 1) mod of_nat PROCESS_COUNT_MAX = slot_after i (Suc d)"
proof -
  have "slot_after i d + 1 = of_nat ((i + d) mod 16 + 1)" by (simp add: slot_after_def)
  moreover have "(i + d) mod 16 + 1 < 2 ^ LENGTH(32)" using mod_less_divisor [of 16 "i + d"] by simp
  ultimately have "unat (slot_after i d + 1) = (i + d) mod 16 + 1" by (metis unat_of_nat_less)
  then have "unat ((slot_after i d + 1) mod of_nat PROCESS_COUNT_MAX) = unat (slot_after i (Suc d))"
    by (simp add: unat_mod mod_Suc_eq)
  then show ?thesis by (simp only: word_unat_eq_iff)
qed

text \<open>The loop started at a slot finds the nearest used slot after it, and ends only if there is one.\<close>

lemma next_process_found:
  assumes "used ! ((i + Suc d) mod 16)" "\<forall>e. 0 < e \<and> e < Suc d \<longrightarrow> \<not> used ! ((i + e) mod 16)"
  shows "next_process used (slot_after i 0) = Some (slot_after i (Suc d))"
proof -
  have "next_process used (slot_after i c) = Some (slot_after i (Suc d))" if "c \<le> d" for c
    using that
  proof (induction "d - c" arbitrary: c)
    case 0
    then have "c = d" by simp
    then show ?case using assms(1) by (subst next_process.simps) (simp add: slot_step Let_def del: of_nat_numeral)
  next
    case (Suc n)
    then have "c < d" by simp
    then have "\<not> used ! ((i + Suc c) mod 16)" using assms(2) by (metis Suc_less_eq zero_less_Suc)
    moreover have "next_process used (slot_after i (Suc c)) = Some (slot_after i (Suc d))" using Suc \<open>c < d\<close> by simp
    ultimately show ?case by (subst next_process.simps) (simp add: slot_step Let_def del: of_nat_numeral)
  qed
  then show ?thesis by blast
qed

lemma next_process_sound:
  assumes "next_process used idx = Some j"
  shows "used ! unat j \<and> unat j < 16"
proof (rule next_process.raw_induct [OF _ assms, of "\<lambda>used idx j. used ! unat j \<and> unat j < 16"], goal_cases)
  case (1 f used idx j)
  have "unat ((idx + 1) mod 16) < 16" by (simp add: unat_mod)
  with 1 show ?case by (auto simp: Let_def split: if_splits)
qed

lemma slot_after_0: "i < 16 \<Longrightarrow> slot_after i 0 = of_nat i"
  by (simp add: slot_after_def)

lemma nearest_used:
  assumes "p < 16" "used ! p" "i < 16"
  obtains d where "0 < d" "d \<le> 16" "used ! ((i + d) mod 16)" "\<forall>e. 0 < e \<and> e < d \<longrightarrow> \<not> used ! ((i + e) mod 16)"
proof -
  let ?P = "\<lambda>d. 0 < d \<and> used ! ((i + d) mod 16)"
  have "?P (if i < p then p - i else p + 16 - i)" using assms by auto
  then have L: "?P (Least ?P)" and "Least ?P \<le> (if i < p then p - i else p + 16 - i)"
    by (rule LeastI, rule Least_le)
  moreover have "(if i < p then p - i else p + 16 - i) \<le> 16" using assms by auto
  ultimately show ?thesis using not_less_Least [of _ ?P] by (intro that [of "Least ?P"]) (auto simp del: One_nat_def)
qed

definition slot_succ :: "bool list \<Rightarrow> nat \<Rightarrow> nat" where
  "slot_succ used i = unat (the (next_process used (of_nat i)))"

lemma slot_succ_nearest:
  assumes "i < 16" "p < 16" "used ! p"
  shows "\<exists>d. 0 < d \<and> d \<le> 16 \<and> next_process used (of_nat i) = Some (of_nat ((i + d) mod 16)) \<and>
    slot_succ used i = (i + d) mod 16 \<and> used ! ((i + d) mod 16) \<and> (\<forall>e. 0 < e \<and> e < d \<longrightarrow> \<not> used ! ((i + e) mod 16))"
proof -
  obtain d where d: "0 < d" "d \<le> 16" "used ! ((i + d) mod 16)" "\<forall>e. 0 < e \<and> e < d \<longrightarrow> \<not> used ! ((i + e) mod 16)"
    by (rule nearest_used [OF assms(2,3,1)])
  then obtain c where c: "d = Suc c" by (cases d) auto
  have "next_process used (of_nat i) = Some (slot_after i d)"
    using next_process_found [of used i c] d slot_after_0 [OF assms(1)] by (simp add: c)
  then show ?thesis using d by (intro exI [where x = d]) (simp add: slot_succ_def slot_after_def)
qed

interpretation rr: round_robin 16 "\<lambda>p. used ! p" "slot_succ used" for used
proof unfold_locales
  fix i p :: nat assume a: "i < 16" "p < 16" "used ! p"
  show "used ! slot_succ used i" using slot_succ_nearest [OF a] by auto
  show "\<exists>d. 0 < d \<and> d \<le> 16 \<and> slot_succ used i = (i + d) mod 16 \<and> (\<forall>e. 0 < e \<and> e < d \<longrightarrow> \<not> used ! ((i + e) mod 16))"
    using slot_succ_nearest [OF a] by blast
qed

section \<open>Timer interrupts\<close>

definition sched_ok :: "kernel \<Rightarrow> bool" where
  "sched_ok k \<longleftrightarrow> length (process_list k) = 16 \<and> length (process_list_used k) = 16 \<and>
     (current_running_pid k = NO_PROCESS_RUNNING \<or> unat (current_running_pid k) < 16)"

definition start_slot :: "kernel \<Rightarrow> nat" where
  "start_slot k = (if current_running_pid k = NO_PROCESS_RUNNING then 0 else unat (current_running_pid k))"

definition save_slot :: "InterruptFrame \<Rightarrow> kernel \<Rightarrow> kernel" where
  "save_slot f k = (if current_running_pid k = NO_PROCESS_RUNNING then k
     else upd_pcb (unat (current_running_pid k)) (\<lambda>b. b\<lparr> pstate := PROCESS_STATE_READY,
       pcontext := (pcontext b)\<lparr> cpu := frame_cpu f, eip := is_eip (int_stack f), eflags := is_eflags (int_stack f) \<rparr> \<rparr>) k)"

definition enter_slot :: "nat \<Rightarrow> kernel \<Rightarrow> kernel" where
  "enter_slot q k = (upd_pcb q (\<lambda>b. b\<lparr> pstate := PROCESS_STATE_RUNNING \<rparr>) k)
     \<lparr> current_running_pid := of_nat q,
       paging_state := paging_use_page_directory (pcb_dir k q) (paging_state k) \<rparr>"

lemma start_slot_less: "sched_ok k \<Longrightarrow> start_slot k < 16"
  by (auto simp: sched_ok_def start_slot_def)

lemma save_slot_eq:
  "sched_ok k \<Longrightarrow> scheduler_save_context_to_current_running_pcb (frame_context f) k = Inr (save_slot f k)"
  by (auto simp: scheduler_save_context_to_current_running_pcb_def process_get_current_running_pcb_pointer_def
      sched_ok_def save_slot_def frame_context_def)

lemma save_slot_fields [simp]:
  "process_list_used (save_slot f k) = process_list_used k" "current_running_pid (save_slot f k) = current_running_pid k"
  "paging_state (save_slot f k) = paging_state k" "length (process_list (save_slot f k)) = length (process_list k)"
  by (simp_all add: save_slot_def upd_pcb_def)

lemma enter_slot_fields [simp]:
  "process_list_used (enter_slot q k) = process_list_used k" "current_running_pid (enter_slot q k) = of_nat q"
  "length (process_list (enter_slot q k)) = length (process_list k)"
  by (simp_all add: enter_slot_def upd_pcb_def)

lemma slot_not_none: "p < 16 \<Longrightarrow> of_nat p \<noteq> NO_PROCESS_RUNNING"
  by (auto simp: word_unat_eq_iff)

lemma enter_slot_context [simp]: "pcontext (process_list (enter_slot q k) ! p) = pcontext (process_list k ! p)"
  by (cases "q = p"; cases "p < length (process_list k)") 
    (simp_all add: enter_slot_def upd_pcb_def list_update_beyond)

lemma enter_slot_state:
  "q < length (process_list k) \<Longrightarrow> pstate (process_list (enter_slot q k) ! p) =
     (if p = q then PROCESS_STATE_RUNNING else pstate (process_list k ! p))"
  by (simp add: enter_slot_def upd_pcb_def)

lemma save_slot_other:
  "current_running_pid k \<noteq> of_nat p \<Longrightarrow> process_list (save_slot f k) ! p = process_list k ! p"
  by (cases "unat (current_running_pid k) = p") (auto simp: save_slot_def upd_pcb_def)

lemma save_slot_self:
  assumes "sched_ok k" "p < 16" "current_running_pid k = of_nat p"
  shows "process_list (save_slot f k) ! p = (process_list k ! p)\<lparr> pstate := PROCESS_STATE_READY,
    pcontext := (pcontext (process_list k ! p))\<lparr> cpu := frame_cpu f, eip := is_eip (int_stack f), eflags := is_eflags (int_stack f) \<rparr> \<rparr>"
  using assms slot_not_none [OF assms(2)] by (simp add: save_slot_def upd_pcb_def sched_ok_def)

lemma timer_eq:
  assumes "sched_ok k"
  shows "timer_interrupt f k = map_option (\<lambda>i. Inr (pcontext (process_list (save_slot f k) ! unat i), enter_slot (unat i) (save_slot f k)))
    (next_process (process_list_used k) (of_nat (start_slot k)))"
  unfolding timer_interrupt_def save_slot_eq [OF assms] scheduler_switch_to_next_process_def Let_def
  by (simp add: start_slot_def option.map_comp comp_def enter_slot_def pcb_dir_def upd_pcb_def)

lemma timer_step:
  assumes "sched_ok k" "p < 16" "process_list_used k ! p"
  shows "timer_interrupt f k = Some (Inr (pcontext (process_list (save_slot f k) ! slot_succ (process_list_used k) (start_slot k)),
      enter_slot (slot_succ (process_list_used k) (start_slot k)) (save_slot f k)))"
    and "slot_succ (process_list_used k) (start_slot k) < 16"
    and "process_list_used k ! slot_succ (process_list_used k) (start_slot k)"
  using slot_succ_nearest [OF start_slot_less [OF assms(1)] assms(2,3)] timer_eq [OF assms(1), of f] by auto

lemma enter_slot_ok: "sched_ok k \<Longrightarrow> q < 16 \<Longrightarrow> sched_ok (enter_slot q (save_slot f k))"
  by (simp add: sched_ok_def)

lemma timer_returns:
  assumes "sched_ok k"
  shows "(\<exists>r. timer_interrupt f k = Some r) \<longleftrightarrow> (\<exists>p < 16. process_list_used k ! p)"
proof
  assume "\<exists>r. timer_interrupt f k = Some r"
  then obtain i where "next_process (process_list_used k) (of_nat (start_slot k)) = Some i"
    unfolding timer_eq [OF assms] by auto
  then show "\<exists>p < 16. process_list_used k ! p" using next_process_sound by blast
next
  assume "\<exists>p < 16. process_list_used k ! p"
  then show "\<exists>r. timer_interrupt f k = Some r" using timer_step(1) [OF assms] by blast
qed

text \<open>
  C28: The timer interrupt returns into some process exactly when a process exists; with an empty
  process table the search for the next process never ends.
\<close>

theorem timer_returns_iff:
  assumes "sched_ok k"
  shows "(\<exists>r. timer_interrupt f k = Some r) \<longleftrightarrow> (\<exists>p < 16. process_list_used k ! p)"
  by (rule timer_returns [OF assms])

fun run_ticks :: "InterruptFrame list \<Rightarrow> kernel \<Rightarrow> (fault + kernel) option" where
  "run_ticks [] k = Some (Inr k)"
| "run_ticks (f # fs) k =
     (case timer_interrupt f k of
        None \<Rightarrow> None
      | Some (Inl e) \<Rightarrow> Some (Inl e)
      | Some (Inr (_, k')) \<Rightarrow> run_ticks fs k')"

lemma run_ticks_succ:
  assumes "sched_ok k" "p < 16" "process_list_used k ! p" "fs \<noteq> []"
  shows "\<exists>k'. run_ticks fs k = Some (Inr k') \<and> sched_ok k' \<and> process_list_used k' = process_list_used k \<and>
    current_running_pid k' = of_nat ((slot_succ (process_list_used k) ^^ length fs) (start_slot k))"
  using assms
proof (induction fs arbitrary: k)
  case (Cons f fs)
  let ?q = "slot_succ (process_list_used k) (start_slot k)"
  let ?k = "enter_slot ?q (save_slot f k)"
  note st = timer_step(1) [OF Cons.prems(1-3), of f] timer_step(2,3) [OF Cons.prems(1-3)]
  have ok: "sched_ok ?k" using enter_slot_ok Cons.prems(1) st(2) .
  have "start_slot ?k = ?q" using st(2) unfolding start_slot_def by (auto simp: word_unat_eq_iff)
  moreover have "run_ticks (f # fs) k = run_ticks fs ?k" by (simp add: st(1))
  ultimately show ?case
    using Cons.IH [OF ok Cons.prems(2)] Cons.prems(3) ok by (cases "fs = []") (auto simp: funpow_swap1)
qed simp

text \<open>
  C29: The scheduler is fair: as long as the process table does not change, every process in it runs
  again within 16 timer interrupts, whatever the processes between did with their registers.
\<close>

theorem scheduler_fair:
  assumes "sched_ok k" "p < 16" "process_list_used k ! p" "length fs = 16"
  shows "\<exists>n k'. 0 < n \<and> n \<le> 16 \<and> run_ticks (take n fs) k = Some (Inr k') \<and> current_running_pid k' = of_nat p"
proof -
  obtain n where n: "0 < n" "n \<le> 16" "(slot_succ (process_list_used k) ^^ n) (start_slot k) = p"
    using rr.fair [OF start_slot_less [OF assms(1)] assms(2,3)] by blast
  then have "take n fs \<noteq> []" "length (take n fs) = n" using assms(4) by auto
  then show ?thesis using run_ticks_succ [OF assms(1-3), of "take n fs"] n by auto
qed

text \<open>One process runs: among the processes in the table, the state of exactly the current one is running.\<close>

definition one_running :: "kernel \<Rightarrow> bool" where
  "one_running k \<longleftrightarrow> (\<forall>p < 16. process_list_used k ! p \<longrightarrow>
     (pstate (process_list k ! p) = PROCESS_STATE_RUNNING \<longleftrightarrow> current_running_pid k = of_nat p))"

text \<open>
  C30: A timer interrupt keeps the scheduler's invariant: exactly the process it switches to has the
  running state, that process is in the table, and the page directory in use is its own.
\<close>

theorem timer_one_running:
  assumes "sched_ok k" "one_running k" and t: "timer_interrupt f k = Some (Inr (ctx, k'))"
  shows "sched_ok k' \<and> one_running k' \<and> process_list_used k' ! unat (current_running_pid k') \<and>
    ctx = pcontext (process_list k' ! unat (current_running_pid k')) \<and>
    paging_state k' = paging_use_page_directory (page_directory_virtual_addr ctx) (paging_state k)"
proof -
  obtain p where p: "p < 16" "process_list_used k ! p" using timer_returns [OF assms(1)] t by blast
  let ?q = "slot_succ (process_list_used k) (start_slot k)"
  note st = timer_step(1) [OF assms(1) p, of f] timer_step(2,3) [OF assms(1) p]
  have ctx: "ctx = pcontext (process_list (save_slot f k) ! ?q)" and k': "k' = enter_slot ?q (save_slot f k)"
    using t st(1) by simp_all
  have len: "length (process_list k) = 16" "unat (of_nat ?q :: u32) = ?q" using assms(1) st(2) by (simp_all add: sched_ok_def)
  have "pstate (process_list (save_slot f k) ! r) \<noteq> PROCESS_STATE_RUNNING" if "r < 16" "process_list_used k ! r" for r
    using assms(2) that save_slot_self [OF assms(1) that(1), of f] save_slot_other [of k r f]
    by (cases "current_running_pid k = of_nat r") (auto simp: one_running_def)
  then have "one_running k'"
    using st(2,3) len by (auto simp: one_running_def enter_slot_state k' word_unat_eq_iff)
  moreover have "paging_state k' = paging_use_page_directory (page_directory_virtual_addr ctx) (paging_state k)"
    by (simp add: k' ctx enter_slot_def pcb_dir_def)
  ultimately show ?thesis
    using enter_slot_ok [OF assms(1) st(2)] st(2,3) len by (simp add: k' ctx)
qed

text \<open>The states a process that is not running passes through.\<close>

inductive preempted :: "nat \<Rightarrow> kernel \<Rightarrow> kernel \<Rightarrow> bool" for p k where
  preempted_refl: "preempted p k k"
| preempted_tick: "preempted p k k1 \<Longrightarrow> current_running_pid k1 \<noteq> of_nat p \<Longrightarrow>
    timer_interrupt f k1 = Some (Inr (c, k2)) \<Longrightarrow> preempted p k k2"

inductive_cases preemptedE: "preempted p k k'"

lemma timer_other:
  assumes "sched_ok k" "p < 16" "timer_interrupt f k = Some (Inr (c, k'))" "current_running_pid k \<noteq> of_nat p"
  shows "pcontext (process_list k' ! p) = pcontext (process_list k ! p)" "sched_ok k'"
proof -
  obtain q where q: "q < 16" "process_list_used k ! q" using timer_returns [OF assms(1)] assms(3) by blast
  note st = timer_step(1) [OF assms(1) q, of f] timer_step(2,3) [OF assms(1) q]
  have k': "k' = enter_slot (slot_succ (process_list_used k) (start_slot k)) (save_slot f k)" using assms(3) st(1) by simp
  show "pcontext (process_list k' ! p) = pcontext (process_list k ! p)"
    using assms(4) by (simp add: k' save_slot_other)
  show "sched_ok k'" unfolding k' using enter_slot_ok assms(1) st(2) .
qed

lemma preempted_context:
  assumes "preempted p k k'" "sched_ok k" "p < 16"
  shows "pcontext (process_list k' ! p) = pcontext (process_list k ! p) \<and> sched_ok k'"
  using assms by (induction rule: preempted.induct) (auto simp: timer_other)

text \<open>
  C31: Preemption is transparent: the registers, the instruction pointer and the flags that the timer
  interrupt found in a process are the ones it is resumed with, in its own address space, when it is
  chosen again after any number of interrupts of other processes.
\<close>

theorem context_restored:
  assumes "sched_ok k" "p < 16" "current_running_pid k = of_nat p"
    and "timer_interrupt f k = Some (Inr (c1, k1))" "preempted p k1 k2" "current_running_pid k2 \<noteq> of_nat p"
    and "timer_interrupt g k2 = Some (Inr (c, k3))" "current_running_pid k3 = of_nat p"
  shows "cpu c = frame_cpu f \<and> eip c = is_eip (int_stack f) \<and> eflags c = is_eflags (int_stack f) \<and>
    page_directory_virtual_addr c = pcb_dir k p"
proof -
  obtain q where q: "q < 16" "process_list_used k ! q" using timer_returns [OF assms(1)] assms(4) by blast
  note st = timer_step(1) [OF assms(1) q, of f] timer_step(2,3) [OF assms(1) q]
  have k1: "k1 = enter_slot (slot_succ (process_list_used k) (start_slot k)) (save_slot f k)" using assms(4) st(1) by simp
  have ok1: "sched_ok k1" unfolding k1 using enter_slot_ok assms(1) st(2) .
  have c1: "pcontext (process_list k1 ! p) = (pcontext (process_list k ! p))
      \<lparr> cpu := frame_cpu f, eip := is_eip (int_stack f), eflags := is_eflags (int_stack f) \<rparr>"
    by (simp add: k1 save_slot_self [OF assms(1-3)])
  have c2: "pcontext (process_list k2 ! p) = pcontext (process_list k1 ! p)" "sched_ok k2"
    using preempted_context [OF assms(5) ok1 assms(2)] by simp_all
  obtain r where r: "r < 16" "process_list_used k2 ! r" using timer_returns [OF c2(2)] assms(7) by blast
  note s2 = timer_step(1) [OF c2(2) r, of g] timer_step(2,3) [OF c2(2) r]
  have "slot_succ (process_list_used k2) (start_slot k2) = p"
    using assms(2,7,8) s2(1,2) by (auto simp: word_unat_eq_iff)
  then have "c = pcontext (process_list (save_slot g k2) ! p)" using assms(7) s2(1) by simp
  moreover have "pcontext (process_list (save_slot g k2) ! p) = pcontext (process_list k2 ! p)"
    using assms(6) by (simp add: save_slot_other)
  ultimately show ?thesis by (simp add: c2(1) c1 pcb_dir_def)
qed

section \<open>Examples\<close>

definition two_processes :: kernel where
  "two_processes = demo_kernel\<lparr> process_list_used := (replicate 16 False)[1 := True, 3 := True],
     process_list := (replicate 16 zero_pcb)[3 := zero_pcb\<lparr> pstate := PROCESS_STATE_READY \<rparr>], current_running_pid := 1 \<rparr>"

definition tick_frame :: "u32 \<Rightarrow> InterruptFrame" where
  "tick_frame a = \<lparr> frame_cpu = zero_cpu\<lparr> reg_eax := a \<rparr>, int_number = 0x20,
     int_stack = \<lparr> is_error_code = 0, is_eip = a, is_cs = 0, is_eflags = 0 \<rparr> \<rparr>"

lemma two_ok: "sched_ok two_processes" "one_running two_processes" "process_list_used two_processes ! 3" "process_list_used two_processes ! 1"
proof -
  show "sched_ok two_processes" by (simp add: sched_ok_def two_processes_def)
  show u: "process_list_used two_processes ! 3" "process_list_used two_processes ! 1" by (simp_all add: two_processes_def)
  have c: "p = 1 \<or> p = 3" if "p < 16" "process_list_used two_processes ! p" for p
    using that by (auto simp: two_processes_def nth_list_update split: if_splits)
  have st: "pstate (process_list two_processes ! 1) = PROCESS_STATE_RUNNING" "pstate (process_list two_processes ! 3) = PROCESS_STATE_READY"
      "current_running_pid two_processes = 1"
    by (simp_all add: two_processes_def zero_pcb_def)
  have "(pstate (process_list two_processes ! p) = PROCESS_STATE_RUNNING) = (current_running_pid two_processes = of_nat p)"
    if "p < 16" "process_list_used two_processes ! p" for p
    using c [OF that] by (elim disjE) (simp_all only: st, simp_all)
  then show "one_running two_processes" unfolding one_running_def by blast
qed

lemma two_succ: "slot_succ (process_list_used two_processes) 1 = 3" "slot_succ (process_list_used two_processes) 3 = 1"
proof -
  have "next_process (process_list_used two_processes) 1 = Some 3"
    by (subst next_process.simps, simp add: two_processes_def Let_def, subst next_process.simps, simp add: Let_def)
  then show "slot_succ (process_list_used two_processes) 1 = 3" by (simp add: slot_succ_def)
  have "next_process (process_list_used two_processes) (slot_after 3 0) = Some (slot_after 3 (Suc 13))"
  proof (rule next_process_found)
    show "process_list_used two_processes ! ((3 + Suc 13) mod 16)" by (simp add: two_processes_def)
    have "\<not> process_list_used two_processes ! ((3 + e) mod 16)" if "e < 14" "0 < e" for e
    proof -
      have "(3 + e) mod 16 < 16" "(3 + e) mod 16 \<noteq> 1" "(3 + e) mod 16 \<noteq> 3" using that by presburger+
      then show ?thesis by (simp add: two_processes_def nth_list_update)
    qed
    then show "\<forall>e. 0 < e \<and> e < Suc 13 \<longrightarrow> \<not> process_list_used two_processes ! ((3 + e) mod 16)" by simp
  qed
  then show "slot_succ (process_list_used two_processes) 3 = 1" by (simp add: slot_succ_def slot_after_def)
qed

theorem timer_returns_iff_witness: "\<exists>r. timer_interrupt (tick_frame 7) two_processes = Some r"
  using timer_returns_iff [OF two_ok(1), of "tick_frame 7"] two_ok(3) by (metis numeral_less_iff semiring_norm(68,76,79,81))

theorem scheduler_fair_witness:
  "\<exists>n k'. 0 < n \<and> n \<le> 16 \<and> run_ticks (take n (replicate 16 (tick_frame 7))) two_processes = Some (Inr k') \<and>
     current_running_pid k' = of_nat 3"
  by (rule scheduler_fair [OF two_ok(1) _ two_ok(3)]) simp_all

lemma two_first_tick:
  "timer_interrupt f two_processes = Some (Inr (pcontext (process_list (save_slot f two_processes) ! 3), enter_slot 3 (save_slot f two_processes)))"
proof -
  have "start_slot two_processes = 1" by (simp add: start_slot_def two_processes_def)
  then show ?thesis using timer_step(1) [OF two_ok(1) _ two_ok(3), of f] two_succ(1) by simp
qed

theorem timer_one_running_witness:
  "\<exists>ctx k'. timer_interrupt (tick_frame 7) two_processes = Some (Inr (ctx, k')) \<and> one_running k'"
  using timer_one_running [OF two_ok(1,2) two_first_tick] two_first_tick by blast

theorem context_restored_witness:
  "\<exists>k1 k3 c1 c. timer_interrupt (tick_frame 7) two_processes = Some (Inr (c1, k1)) \<and>
     timer_interrupt (tick_frame 9) k1 = Some (Inr (c, k3)) \<and> eip c = 7 \<and> reg_eax (cpu c) = 7"
proof -
  let ?k1 = "enter_slot 3 (save_slot (tick_frame 7) two_processes)"
  have ok: "sched_ok ?k1" by (rule enter_slot_ok [OF two_ok(1)]) simp
  have st: "start_slot ?k1 = 3" by (simp add: start_slot_def)
  have "process_list_used ?k1 ! 3" using two_ok(3) by simp
  from timer_step(1) [OF ok _ this, of "tick_frame 9"]
  have t: "timer_interrupt (tick_frame 9) ?k1 = Some (Inr (pcontext (process_list (save_slot (tick_frame 9) ?k1) ! 1),
      enter_slot 1 (save_slot (tick_frame 9) ?k1)))"
    by (simp add: st two_succ(2))
  have "current_running_pid two_processes = of_nat 1" by (simp add: two_processes_def)
  from context_restored [OF two_ok(1) _ this two_first_tick preempted_refl _ t]
  show ?thesis using two_first_tick t by (auto simp: tick_frame_def)
qed

end
