(* ===== verification/Ustring.thy ===== *)
theory Ustring
  imports Prelude
begin

text \<open>
  The string helpers of the user programs, \<open>src/src/user-program/utils.h\<close>.  A \<open>char *\<close> is modelled
  by the bytes from its position to the end of the object it points into; a scan that leaves the
  object is out of bounds.  A \<open>struct StringN\<close> is a buffer of 256 bytes with a length.
\<close>

section \<open>Definitions\<close>

fun strlen_from :: "u32 \<Rightarrow> u8 list \<Rightarrow> fault + u32" where
  "strlen_from count [] = Inl OutOfBounds"
| "strlen_from count (b # bs) = (if b = 0 then Inr count else strlen_from (count + 1) bs)"

definition strlen :: "u8 list \<Rightarrow> fault + u32" where
  "strlen = strlen_from 0"

fun strcmp_loop :: "u8 list \<Rightarrow> u8 list \<Rightarrow> fault + bool" where
  "strcmp_loop [] str2 = Inl OutOfBounds"
| "strcmp_loop (a # str1) [] = (if a = 0 then Inr True else Inl OutOfBounds)"
| "strcmp_loop (a # str1) (b # str2) =
     (if a = 0 then Inr True else if a \<noteq> b then Inr False else strcmp_loop str1 str2)"

definition strcmp :: "u8 list \<Rightarrow> u8 list \<Rightarrow> fault + bool" where
  "strcmp str1 str2 =
     and_then (strlen str1) (\<lambda>len1.
     and_then (strlen str2) (\<lambda>len2.
       if len1 \<noteq> len2 then Inr False else strcmp_loop str1 str2))"

fun strcpy_loop :: "u8 list \<Rightarrow> nat \<Rightarrow> u8 list \<Rightarrow> fault + u8 list" where
  "strcpy_loop dest i [] = Inl OutOfBounds"
| "strcpy_loop dest i (b # src) =
     (if length dest \<le> i then Inl OutOfBounds
      else if b = 0 then Inr (dest[i := 0]) else strcpy_loop (dest[i := b]) (Suc i) src)"

definition strcpy :: "u8 list \<Rightarrow> u8 list \<Rightarrow> fault + u8 list" where
  "strcpy dest src = strcpy_loop dest 0 src"

record StringN =
  sbuf :: "u8 list"
  slen :: u32

definition stringn_create :: StringN where
  "stringn_create = \<lparr> sbuf = replicate 256 0, slen = 0 \<rparr>"

definition stringn_appendchar :: "u8 \<Rightarrow> StringN \<Rightarrow> fault + StringN" where
  "stringn_appendchar c str =
     (if 256 \<le> unat (slen str) then Inl OutOfBounds
      else Inr (str\<lparr> sbuf := (sbuf str)[unat (slen str) := c], slen := slen str + 1 \<rparr>))"

fun stringn_appendstr :: "u8 list \<Rightarrow> StringN \<Rightarrow> fault + StringN" where
  "stringn_appendstr [] str = Inl OutOfBounds"
| "stringn_appendstr (b # bs) str =
     (if b = 0 then Inr str else and_then (stringn_appendchar b str) (stringn_appendstr bs))"

text \<open>A string literal with its terminating zero byte.\<close>

definition lit :: "string \<Rightarrow> u8 list" where
  "lit s = map of_char s @ [0]"

section \<open>Strings as lists\<close>

definition c_string :: "u8 list \<Rightarrow> u8 list" where
  "c_string bs = takeWhile (\<lambda>b. b \<noteq> 0) bs"

lemma c_string_simps [simp]:
  "c_string [] = []" "c_string (b # bs) = (if b = 0 then [] else b # c_string bs)"
  by (simp_all add: c_string_def)

lemma c_string_nonzero: "0 \<notin> set (c_string bs)"
  by (induction bs) auto

lemma c_string_append: "0 \<notin> set xs \<Longrightarrow> c_string (xs @ 0 # ys) = xs"
  by (induction xs) auto

lemma strlen_from_eq: "0 \<in> set bs \<Longrightarrow> strlen_from n bs = Inr (n + of_nat (length (c_string bs)))"
  by (induction bs arbitrary: n) (auto simp: algebra_simps)

lemma strlen_eq: "0 \<in> set bs \<Longrightarrow> strlen bs = Inr (of_nat (length (c_string bs)))"
  by (simp add: strlen_def strlen_from_eq)

lemma strlen_from_unterminated: "0 \<notin> set bs \<Longrightarrow> strlen_from n bs = Inl OutOfBounds"
  by (induction bs arbitrary: n) auto

lemma strcmp_loop_eq:
  assumes "0 \<in> set xs" "0 \<in> set ys" "length (c_string xs) = length (c_string ys)"
  shows "strcmp_loop xs ys = Inr (c_string xs = c_string ys)"
  using assms by (induction xs ys rule: strcmp_loop.induct) (auto split: if_splits)

lemma strcmp_eq:
  assumes "0 \<in> set xs" "0 \<in> set ys" "length xs < 2 ^ 32" "length ys < 2 ^ 32"
  shows "strcmp xs ys = Inr (c_string xs = c_string ys)"
proof -
  have "length (c_string xs) < 2 ^ 32" "length (c_string ys) < 2 ^ 32"
    using assms(3,4) length_takeWhile_le le_less_trans unfolding c_string_def by blast+
  then have "(of_nat (length (c_string xs)) :: u32) = of_nat (length (c_string ys)) \<longleftrightarrow> length (c_string xs) = length (c_string ys)"
    by (simp add: word_unat_eq_iff)
  then show ?thesis
    using assms strcmp_loop_eq by (auto simp: strcmp_def strlen_eq)
qed

text \<open>
  \<open>strcmp\<close> decides equality of the two strings up to their terminating zero bytes, and it is
  true, not zero, for equal strings; the bytes after the terminators play no role.
\<close>

theorem strcmp_decides_equality:
  assumes "0 \<in> set xs" "0 \<in> set ys" "length xs < 2 ^ 32" "length ys < 2 ^ 32"
  shows "strcmp xs ys = Inr (takeWhile (\<lambda>b. b \<noteq> 0) xs = takeWhile (\<lambda>b. b \<noteq> 0) ys)"
  using strcmp_eq [OF assms] unfolding c_string_def .

theorem strcmp_decides_equality_witness: "strcmp [99, 100, 0, 7] (lit ''cd'') = Inr True"
  using strcmp_decides_equality [of "[99, 100, 0, 7]" "lit ''cd''"] by (simp add: lit_def)

section \<open>StringN\<close>

definition content :: "StringN \<Rightarrow> u8 list" where
  "content s = take (unat (slen s)) (sbuf s)"

definition stringn_wf :: "StringN \<Rightarrow> bool" where
  "stringn_wf s \<longleftrightarrow> length (sbuf s) = 256 \<and> unat (slen s) \<le> 256 \<and>
     drop (unat (slen s)) (sbuf s) = replicate (256 - unat (slen s)) 0"

lemma create_wf [simp]: "stringn_wf stringn_create" "content stringn_create = []" "slen stringn_create = 0"
  by (simp_all add: stringn_wf_def stringn_create_def content_def)

lemma sbuf_content: "stringn_wf s \<Longrightarrow> sbuf s = content s @ replicate (256 - unat (slen s)) 0"
  by (metis append_take_drop_id content_def stringn_wf_def)

lemma content_length: "stringn_wf s \<Longrightarrow> length (content s) = unat (slen s)"
  by (simp add: content_def stringn_wf_def)

lemma appendchar_wf:
  assumes "stringn_wf s" "unat (slen s) < 256"
  obtains s' where "stringn_appendchar c s = Inr s'" "stringn_wf s'" "content s' = content s @ [c]"
    "unat (slen s') = Suc (unat (slen s))"
proof
  let ?s = "s\<lparr> sbuf := (sbuf s)[unat (slen s) := c], slen := slen s + 1 \<rparr>"
  show "stringn_appendchar c s = Inr ?s" using assms by (simp add: stringn_appendchar_def)
  have l: "unat (slen s + 1) = Suc (unat (slen s))" using assms(2) by (intro unat_Suc_u32) simp
  have "drop (Suc (unat (slen s))) ((sbuf s)[unat (slen s) := c]) = drop 1 (drop (unat (slen s)) (sbuf s))" by simp
  also have "\<dots> = replicate (256 - Suc (unat (slen s))) 0" using assms by (simp add: stringn_wf_def del: drop_drop)
  finally show "stringn_wf ?s" using assms l by (simp add: stringn_wf_def)
  show "content ?s = content s @ [c]"
    using assms l by (simp add: content_def stringn_wf_def take_Suc_conv_app_nth)
  show "unat (slen ?s) = Suc (unat (slen s))" by (simp add: l)
qed

lemma appendstr_wf:
  assumes "stringn_wf s" "0 \<in> set bs" "unat (slen s) + length (c_string bs) \<le> 256"
  obtains s' where "stringn_appendstr bs s = Inr s'" "stringn_wf s'" "content s' = content s @ c_string bs"
    "unat (slen s') = unat (slen s) + length (c_string bs)"
  using assms
proof (induction bs arbitrary: s thesis)
  case (Cons b bs)
  show ?case
  proof (cases "b = 0")
    case True
    then show ?thesis using Cons.prems by simp
  next
    case False
    then have lt: "unat (slen s) < 256" using Cons.prems(4) by simp
    obtain s1 where s1: "stringn_appendchar b s = Inr s1" "stringn_wf s1" "content s1 = content s @ [b]"
        "unat (slen s1) = Suc (unat (slen s))"
      by (rule appendchar_wf [OF Cons.prems(2) lt])
    obtain s2 where "stringn_appendstr bs s1 = Inr s2" "stringn_wf s2" "content s2 = content s1 @ c_string bs"
        "unat (slen s2) = unat (slen s1) + length (c_string bs)"
      by (rule Cons.IH [OF _ s1(2)]) (use Cons.prems s1(4) False in auto)
    then show ?thesis using Cons.prems(1) [of s2] s1 False by simp
  qed
qed simp

lemma sbuf_string:
  assumes "stringn_wf s" "unat (slen s) < 256" "0 \<notin> set (content s)"
  shows "0 \<in> set (sbuf s)" "c_string (sbuf s) = content s"
proof -
  obtain n where "256 - unat (slen s) = Suc n" using assms(2) by (metis Suc_diff_Suc)
  then have s: "sbuf s = content s @ 0 # replicate n 0" using sbuf_content [OF assms(1)] by simp
  show "0 \<in> set (sbuf s)" by (simp add: s)
  show "c_string (sbuf s) = content s" unfolding s by (rule c_string_append [OF assms(3)])
qed

end
