(* ===== verification/Command.thy ===== *)
theory Command
  imports Prelude
begin

text \<open>
  Sequencing of C statements that change a state, may fault and may not return: a command maps a
  state to \<open>None\<close> (it does not return), to a fault, or to a result and a new state.
\<close>

type_synonym ('s, 'a) cmd = "'s \<Rightarrow> (fault + 'a \<times> 's) option"

definition return :: "'a \<Rightarrow> ('s, 'a) cmd" where
  "return x = (\<lambda>s. Some (Inr (x, s)))"

definition fail :: "fault \<Rightarrow> ('s, 'a) cmd" where
  "fail e = (\<lambda>s. Some (Inl e))"

definition bindc :: "('s, 'a) cmd \<Rightarrow> ('a \<Rightarrow> ('s, 'b) cmd) \<Rightarrow> ('s, 'b) cmd" where
  "bindc m f = (\<lambda>s. Option.bind (m s) (\<lambda>r. case r of Inl e \<Rightarrow> Some (Inl e) | Inr (x, s') \<Rightarrow> f x s'))"

definition seqc :: "('s, unit) cmd list \<Rightarrow> ('s, unit) cmd" where
  "seqc cs = foldr (\<lambda>c d. bindc c (\<lambda>_. d)) cs (return ())"

definition gets :: "('s \<Rightarrow> 'a) \<Rightarrow> ('s, 'a) cmd" where
  "gets f = (\<lambda>s. Some (Inr (f s, s)))"

definition modify :: "('s \<Rightarrow> 's) \<Rightarrow> ('s, unit) cmd" where
  "modify f = (\<lambda>s. Some (Inr ((), f s)))"

definition lift :: "fault + 'a \<Rightarrow> ('s, 'a) cmd" where
  "lift r = (\<lambda>s. Some (map_sum id (\<lambda>x. (x, s)) r))"

definition update :: "('s \<Rightarrow> fault + 's) \<Rightarrow> ('s, unit) cmd" where
  "update f = (\<lambda>s. Some (map_sum id (Pair ()) (f s)))"

text \<open>The unfolding rules with which command proofs compute.\<close>

named_theorems cmd

lemma bindc_simps [cmd]:
  "bindc (return x) f s = f x s" "bindc (fail e) f s = Some (Inl e)"
  "bindc (gets g) f s = f (g s) s" "bindc (modify h) f' s = f' () (h s)"
  by (simp_all add: bindc_def return_def fail_def gets_def modify_def)

lemma lift_simps [cmd]: "lift (Inr x) s = Some (Inr (x, s))" "lift (Inl e) s = Some (Inl e)"
  by (simp_all add: lift_def)

lemma bindc_step [cmd]: "m s = Some (Inr (x, s')) \<Longrightarrow> bindc m f s = f x s'"
  by (simp add: bindc_def)

lemma bindc_assoc: "bindc (bindc m f) g = bindc m (\<lambda>x. bindc (f x) g)"
  unfolding bindc_def by (rule ext) (auto split: option.split sum.split intro!: bind_option_cong)

lemma bindc_return: "bindc (return x) f = f x"
  by (rule ext) (simp add: bindc_simps)

lemma bindc_fault: "m s = Some (Inl e) \<Longrightarrow> bindc m f s = Some (Inl e)"
  by (simp add: bindc_def)

lemma seqc_simps [cmd]: "seqc [] s = Some (Inr ((), s))" "seqc (c # cs) = bindc c (\<lambda>_. seqc cs)"
  by (simp_all add: seqc_def return_def)

lemma return_simps [cmd]: "return x s = Some (Inr (x, s))" "gets g s = Some (Inr (g s, s))" "modify h s = Some (Inr ((), h s))"
  by (simp_all add: return_def gets_def modify_def)

lemma seqc_empty: "seqc [] = return ()"
  by (simp add: seqc_def)

lemma bindc_Inr:
  "bindc m f s = Some (Inr r) \<longleftrightarrow> (\<exists>x s'. m s = Some (Inr (x, s')) \<and> f x s' = Some (Inr r))"
  unfolding bindc_def by (cases "m s") (auto split: sum.splits)

lemma seqc_Inr:
  "seqc (c # cs) s = Some (Inr r) \<longleftrightarrow> (\<exists>s'. c s = Some (Inr ((), s')) \<and> seqc cs s' = Some (Inr r))"
  by (auto simp: seqc_simps bindc_Inr)

lemma lift_Inr: "lift r s = Some (Inr (x, s')) \<longleftrightarrow> r = Inr x \<and> s' = s"
  by (cases r) (auto simp: lift_def)

lemma update_Inr: "update f s = Some (Inr (u, s')) \<longleftrightarrow> f s = Inr s'"
  by (cases "f s") (auto simp: update_def)

lemma map_sum_Inr [simp]: "map_sum f g r = Inr y \<longleftrightarrow> (\<exists>x. r = Inr x \<and> y = g x)"
  by (cases r) auto

text \<open>What every command of a sequence keeps, the sequence keeps.\<close>

definition keeps :: "('s \<Rightarrow> 'b) \<Rightarrow> ('s, 'a) cmd \<Rightarrow> bool" where
  "keeps g m \<longleftrightarrow> (\<forall>s x s'. m s = Some (Inr (x, s')) \<longrightarrow> g s' = g s)"

lemma keepsD: "keeps g m \<Longrightarrow> m s = Some (Inr (x, s')) \<Longrightarrow> g s' = g s"
  by (auto simp: keeps_def)

lemma keeps_return [intro!]: "keeps g (return x)" "keeps g (gets h)" "keeps g (lift r)" "keeps g (fail e)"
  by (auto simp: keeps_def return_def gets_def lift_Inr fail_def)

lemma keeps_bindc [intro]: "keeps g m \<Longrightarrow> (\<And>x. keeps g (f x)) \<Longrightarrow> keeps g (bindc m f)"
  unfolding keeps_def bindc_Inr by metis

lemma keeps_seqc [intro]: "(\<And>c. c \<in> set cs \<Longrightarrow> keeps g c) \<Longrightarrow> keeps g (seqc cs)"
proof (induction cs)
  case Nil
  then show ?case by (auto simp: seqc_def)
next
  case (Cons c cs)
  then show ?case by (auto simp: seqc_simps)
qed

lemma bindc_mono [partial_function_mono]:
  assumes "\<And>s. mono_option (\<lambda>f. B f s)" and "\<And>x s. mono_option (\<lambda>f. C x f s)"
  shows "mono_option (\<lambda>f. bindc (B f) (\<lambda>x. C x f) s)"
  unfolding bindc_def
proof (rule bind_mono [OF assms(1)])
  fix r
  show "mono_option (\<lambda>f. case r of Inl e \<Rightarrow> Some (Inl e) | Inr (x, s') \<Rightarrow> C x f s')"
    by (cases r) (auto intro: assms(2) option.const_mono split: prod.split)
qed

end
