(* ===== verification/Syscall.thy ===== *)
theory Syscall
  imports Keyboard Scheduler Ustring Command
begin

text \<open>
  The services of the system-call handler, \<open>syscall\<close> in \<open>src/src/interrupt.c\<close>: one command per
  case of its switch, on the state of the whole kernel.  A pointer argument is modelled by the object
  it points to: the command takes its contents and returns what the handler stores through it.
\<close>

section \<open>The kernel's state\<close>

record system =
  kern :: kernel
  display :: tty
  shell_open :: bool

abbreviation fs_of :: "'a system_scheme \<Rightarrow> fat32" where
  "fs_of s \<equiv> filesystem (kern s)"

definition set_fs :: "fat32 \<Rightarrow> 'a system_scheme \<Rightarrow> 'a system_scheme" where
  "set_fs f s = s\<lparr> kern := (kern s)\<lparr> filesystem := f \<rparr> \<rparr>"

definition on_kbd :: "(KeyboardDriverState \<Rightarrow> KeyboardDriverState) \<Rightarrow> 'a system_scheme \<Rightarrow> 'a system_scheme" where
  "on_kbd f s = s\<lparr> display := upd_kbd f (display s) \<rparr>"

section \<open>Files\<close>

text \<open>
  A local buffer of the caller: \<open>None\<close> once a store has left it.  Stores and loads are relative to
  the start of the buffer.
\<close>

fun store_local :: "u32 \<Rightarrow> u8 list \<Rightarrow> u8 list option \<Rightarrow> u8 list option" where
  "store_local p bs None = None"
| "store_local p bs (Some b) =
     (if unat p + length bs \<le> length b then Some (take (unat p) b @ bs @ drop (unat p + length bs) b) else None)"

definition load_local :: "u32 \<Rightarrow> nat \<Rightarrow> u8 list \<Rightarrow> u8 list" where
  "load_local p n b = map (\<lambda>i. if unat p + i < length b then b ! (unat p + i) else 0) [0..<n]"

definition sys_read :: "FAT32DriverRequest \<Rightarrow> u8 list \<Rightarrow> ('a system_scheme, int \<times> u8 list) cmd" where
  "sys_read rq b = (\<lambda>s. map_option (\<lambda>r. and_then r (\<lambda>(code, b'). case b' of
       None \<Rightarrow> Inl OutOfBounds | Some b'' \<Rightarrow> Inr ((code, b''), s)))
     (read store_local (fs_of s) rq (Some b)))"

definition sys_read_directory :: "FAT32DriverRequest \<Rightarrow> ('a system_scheme, int \<times> dir_table option) cmd" where
  "sys_read_directory rq = gets (\<lambda>s. read_directory (\<lambda>_ bs _. Some (decode_dir_table bs)) (fs_of s) rq None)"

definition sys_write :: "FAT32DriverRequest \<Rightarrow> u8 list \<Rightarrow> ('a system_scheme, int) cmd" where
  "sys_write rq b = (\<lambda>s. Some (and_then (write_fat32 load_local b rq (fs_of s)) (\<lambda>(code, f). Inr (code, set_fs f s))))"

definition sys_delete :: "FAT32DriverRequest \<Rightarrow> ('a system_scheme, int) cmd" where
  "sys_delete rq = (\<lambda>s. map_option (\<lambda>r. and_then r (\<lambda>(code, f). Inr (code, set_fs f s))) (delete rq (fs_of s)))"

definition sys_read_cluster :: "u32 \<Rightarrow> ('a system_scheme, dir_table) cmd" where
  "sys_read_cluster c = gets (\<lambda>s. decode_dir_table (read_clusters (storage (fs_of s)) c 1))"

definition sys_write_cluster :: "dir_table \<Rightarrow> u32 \<Rightarrow> ('a system_scheme, unit) cmd" where
  "sys_write_cluster t c = modify (\<lambda>s. set_fs ((fs_of s)\<lparr> storage := write_clusters (encode_dir_table t) c 1 (storage (fs_of s)) \<rparr>) s)"

section \<open>Keyboard and screen\<close>

definition sys_getchar :: "('a system_scheme, u8) cmd" where
  "sys_getchar = (\<lambda>s. let (c, t) = get_keyboard_buffer (display s) in Some (Inr (c, s\<lparr> display := t \<rparr>)))"

definition sys_puts :: "SyscallPutsArgs \<Rightarrow> ('a system_scheme, unit) cmd" where
  "sys_puts args = update (\<lambda>s. map_sum id (\<lambda>t. s\<lparr> display := t \<rparr>) (puts args (display s)))"

definition sys_putchar :: "SyscallPutsArgs \<Rightarrow> ('a system_scheme, unit) cmd" where
  "sys_putchar args = sys_puts (args\<lparr> count := 1 \<rparr>)"

definition sys_puts_at :: "SyscallPutsAtArgs \<Rightarrow> ('a system_scheme, unit) cmd" where
  "sys_puts_at args = update (\<lambda>s. map_sum id (\<lambda>t. s\<lparr> display := t \<rparr>) (puts_at args (display s)))"

definition sys_activate_keyboard :: "('a system_scheme, unit) cmd" where
  "sys_activate_keyboard = modify (\<lambda>s. s\<lparr> display := keyboard_state_activate (display s) \<rparr>)"

definition sys_deactivate_keyboard :: "('a system_scheme, unit) cmd" where
  "sys_deactivate_keyboard = modify (\<lambda>s. s\<lparr> display := keyboard_state_deactivate (display s) \<rparr>)"

record SyscallKeyboardBordersArgs =
  up :: u8
  down :: u8
  left :: u8
  right :: u8

definition sys_get_keyboard_borders :: "('a system_scheme, SyscallKeyboardBordersArgs) cmd" where
  "sys_get_keyboard_borders = gets (\<lambda>s. let k = kbd (display s) in
     \<lparr> up = up_limit k, down = down_limit k, left = left_limit k, right = right_limit k \<rparr>)"

definition sys_set_keyboard_borders :: "SyscallKeyboardBordersArgs \<Rightarrow> ('a system_scheme, unit) cmd" where
  "sys_set_keyboard_borders args = modify (on_kbd (\<lambda>k. k\<lparr> up_limit := up args, down_limit := down args,
     left_limit := left args, right_limit := right args \<rparr>))"

definition sys_keyboard_press_ctrl :: "('a system_scheme, bool) cmd" where
  "sys_keyboard_press_ctrl = gets (\<lambda>s. press_ctrl (kbd (display s)))"

definition sys_clear_screen :: "('a system_scheme, unit) cmd" where
  "sys_clear_screen = modify (\<lambda>s. s\<lparr> display := clear_window (display s) \<rparr>)"

definition sys_set_cursor :: "u32 \<Rightarrow> u32 \<Rightarrow> ('a system_scheme, unit) cmd" where
  "sys_set_cursor ebx ecx = modify (\<lambda>s. s\<lparr> display :=
     (upd_kbd (\<lambda>k. k\<lparr> row := ucast ebx, col := ucast ecx \<rparr>) (display s))
     \<lparr> ports := ports (display s) @ framebuffer_set_cursor (ucast ebx) (ucast ecx) \<rparr> \<rparr>)"

definition sys_get_cursor_row :: "('a system_scheme, u8) cmd" where
  "sys_get_cursor_row = gets (\<lambda>s. row (kbd (display s)))"

definition sys_get_cursor_col :: "('a system_scheme, u8) cmd" where
  "sys_get_cursor_col = gets (\<lambda>s. col (kbd (display s)))"

definition sys_get_is_shell_open :: "('a system_scheme, bool) cmd" where
  "sys_get_is_shell_open = gets shell_open"

definition sys_set_is_shell_open :: "u32 \<Rightarrow> ('a system_scheme, unit) cmd" where
  "sys_set_is_shell_open ebx = modify (\<lambda>s. s\<lparr> shell_open := (ebx \<noteq> 0) \<rparr>)"

section \<open>Processes\<close>

record SyscallProcessInfoArgs =
  info_pid :: u32
  info_name :: "u8 list"
  info_state :: "u8 list"
  process_exists :: bool
  info_page_frame_used_count :: u32

fun state_name :: "PROCESS_STATE \<Rightarrow> u8 list" where
  "state_name PROCESS_STATE_RUNNING = map of_char ''RUNNING''"
| "state_name PROCESS_STATE_READY = map of_char ''READY''"
| "state_name PROCESS_STATE_BLOCKED = map of_char ''BLOCKED''"

definition get_process_info :: "SyscallProcessInfoArgs \<Rightarrow> kernel \<Rightarrow> fault + SyscallProcessInfoArgs" where
  "get_process_info args k =
     (let p = unat (info_pid args)
      in if PROCESS_COUNT_MAX \<le> p then Inl OutOfBounds
         else if \<not> process_list_used k ! p then Inr (args\<lparr> process_exists := False \<rparr>)
         else
           let pcb = process_list k ! p;
               st = state_name (pstate pcb)
           in Inr (args\<lparr> process_exists := True, info_name := take PROCESS_NAME_LENGTH_MAX (pname pcb),
                info_state := st @ drop (length st) (info_state args),
                info_page_frame_used_count := page_frame_used_count pcb \<rparr>))"

definition sys_create_process :: "FAT32DriverRequest \<Rightarrow> ('a system_scheme, int) cmd" where
  "sys_create_process rq = (\<lambda>s. map_option (\<lambda>r. and_then r (\<lambda>(code, k). Inr (code, s\<lparr> kern := k \<rparr>)))
     (process_create_user_process rq (kern s)))"

definition sys_get_max_process_count :: "('a system_scheme, u32) cmd" where
  "sys_get_max_process_count = return (of_nat PROCESS_COUNT_MAX)"

definition sys_get_process_info :: "SyscallProcessInfoArgs \<Rightarrow> ('a system_scheme, SyscallProcessInfoArgs) cmd" where
  "sys_get_process_info args = (\<lambda>s. lift (get_process_info args (kern s)) s)"

definition sys_kill_process :: "(nat \<Rightarrow> PageDirectoryEntryFlag) \<Rightarrow> u32 \<Rightarrow> ('a system_scheme, unit) cmd" where
  "sys_kill_process junk ebx = update (\<lambda>s. map_sum id (\<lambda>(_, k). s\<lparr> kern := k \<rparr>) (process_destroy junk ebx (kern s)))"

definition sys_terminate_process :: "(nat \<Rightarrow> PageDirectoryEntryFlag) \<Rightarrow> ('a system_scheme, unit) cmd" where
  "sys_terminate_process junk = bindc (gets (\<lambda>s. current_running_pid (kern s))) (sys_kill_process junk)"

section \<open>What a call keeps\<close>

lemmas sys_defs = sys_read_def sys_read_directory_def sys_write_def sys_delete_def sys_read_cluster_def sys_write_cluster_def
  sys_getchar_def sys_puts_def sys_putchar_def sys_puts_at_def sys_set_cursor_def sys_get_cursor_row_def sys_get_cursor_col_def
  sys_clear_screen_def sys_set_is_shell_open_def sys_get_is_shell_open_def sys_get_process_info_def

lemma set_fs_simps [simp]:
  "fs_of (set_fs f s) = f" "display (set_fs f s) = display s" "system.more (set_fs f s) = system.more s"
  "set_fs f (set_fs g s) = set_fs f s"
  by (simp_all add: set_fs_def)

text \<open>Printing changes nothing but the display.\<close>

lemma puts_keeps_kern [intro!]: "keeps kern (sys_puts args)" "keeps kern (sys_puts_at args')" "keeps kern (sys_putchar args)"
  by (auto simp: keeps_def sys_puts_def sys_puts_at_def sys_putchar_def update_Inr)

lemma puts_keeps_more [intro!]:
  "keeps system.more (sys_puts args)" "keeps system.more (sys_puts_at args')" "keeps system.more (sys_putchar args)"
  by (auto simp: keeps_def sys_puts_def sys_puts_at_def sys_putchar_def update_Inr)

end
