(* ===== verification/Shell.thy ===== *)
theory Shell
  imports Syscall
begin

text \<open>
  The command shell, \<open>src/src/user-program/shell/user-shell.c\<close>: its global variables, the path of the
  current directory and the commands on files, as commands on the state of the kernel extended with the
  shell's variables.  The designated initialisers of the form \<open>.count = strlen(x.buf)\<close> are read as
  the length of the string in \<open>x.buf\<close>.  An entry's name is not always terminated by a zero byte inside
  \<open>name\<close>: a scan of it runs on into the following fields of the packed structure.
\<close>

section \<open>State\<close>

record shell = system +
  currentDir :: dir_table
  currentDirPath :: StringN
  currentDirCluster :: u32
  rootDir :: dir_table
  rootDirPath :: StringN
  rootDirCluster :: u32
  cp_dest_cluster :: u32
  is_open :: bool
  del_limit :: u8
  shell_row :: u8
  shell_input :: StringN

type_synonym 'a sh = "(shell, 'a) cmd"

abbreviation (input) BIOS_RED :: u32 where "BIOS_RED \<equiv> 0x4"
abbreviation (input) BIOS_DARK_GRAY :: u32 where "BIOS_DARK_GRAY \<equiv> 0x8"
abbreviation (input) BIOS_LIGHT_BLUE :: u32 where "BIOS_LIGHT_BLUE \<equiv> 0x9"
abbreviation (input) BIOS_LIGHT_GREEN :: u32 where "BIOS_LIGHT_GREEN \<equiv> 0xA"
abbreviation (input) BIOS_LIGHT_CYAN :: u32 where "BIOS_LIGHT_CYAN \<equiv> 0xB"
abbreviation (input) BIOS_LIGHT_RED :: u32 where "BIOS_LIGHT_RED \<equiv> 0xC"
abbreviation (input) BIOS_YELLOW :: u32 where "BIOS_YELLOW \<equiv> 0xE"
abbreviation (input) BIOS_WHITE :: u32 where "BIOS_WHITE \<equiv> 0xF"

section \<open>Helpers\<close>

definition print_count :: "u8 list \<Rightarrow> u32 \<Rightarrow> u32 \<Rightarrow> unit sh" where
  "print_count bs n fg = sys_puts \<lparr> buf = bs, count = n, fg_color = fg, bg_color = 0 \<rparr>"

definition print :: "u8 list \<Rightarrow> u32 \<Rightarrow> unit sh" where
  "print bs fg = bindc (lift (strlen bs)) (\<lambda>n. print_count bs n fg)"

definition say :: "string \<Rightarrow> u32 \<Rightarrow> unit sh" where
  "say msg fg = print (lit msg) fg"

text \<open>The bytes behind the \<open>name\<close> and the \<open>ext\<close> pointer of an entry.\<close>

definition name_ptr :: "FAT32DirectoryEntry \<Rightarrow> u8 list" where
  "name_ptr e = encode_entry e"

definition ext_ptr :: "FAT32DirectoryEntry \<Rightarrow> u8 list" where
  "ext_ptr e = drop 8 (encode_entry e)"

text \<open>
  The loop \<open>for (uint8_t i = 0; i < str.len; i++) request.name[i] = str.buf[i]\<close>, which leaves the
  array of 8 bytes for longer strings.
\<close>

definition fill_name :: "StringN \<Rightarrow> u8 list \<Rightarrow> fault + u8 list" where
  "fill_name str nm =
     (if 8 < unat (slen str) then Inl OutOfBounds
      else Inr (take (unat (slen str)) (sbuf str) @ drop (unat (slen str)) nm))"

definition make_request :: "u8 list \<Rightarrow> u32 \<Rightarrow> u32 \<Rightarrow> FAT32DriverRequest" where
  "make_request nm parent sz = \<lparr> rq_buf = 0, rq_name = nm, rq_ext = [0, 0, 0],
     parent_cluster_number = parent, buffer_size = sz \<rparr>"

abbreviation (input) no_name8 :: "u8 list" where "no_name8 \<equiv> replicate 8 0"

section \<open>The current directory\<close>

partial_function (option) create_path_recursive :: "disk \<Rightarrow> u32 \<Rightarrow> (fault + StringN) option" where
  "create_path_recursive d cluster =
     (if cluster = ROOT_CLUSTER_NUMBER then Some (stringn_appendstr (lit ''./'') stringn_create)
      else
        let table = decode_dir_table (read_clusters d cluster 1)
        in case and_then (stringn_appendstr (name_ptr (table ! 0)) stringn_create) (stringn_appendchar 0x2F) of
             Inl e \<Rightarrow> Some (Inl e)
           | Inr currdir \<Rightarrow>
               Option.bind (create_path_recursive d (entry_cluster (table ! 1)))
                 (\<lambda>r. Some (and_then r (stringn_appendstr (sbuf currdir)))))"

definition create_path :: "unit sh" where
  "create_path = (\<lambda>s. Option.bind (create_path_recursive (storage (fs_of s)) (entry_cluster (currentDir s ! 0)))
     (\<lambda>r. Some (map_sum id (\<lambda>p. ((), s\<lparr> currentDirPath := p \<rparr>)) r)))"

definition set_current_cluster :: "unit sh" where
  "set_current_cluster = modify (\<lambda>s. s\<lparr> currentDirCluster := entry_cluster (currentDir s ! 0) \<rparr>)"

definition refresh_current_dir :: "unit sh" where
  "refresh_current_dir = bindc (gets currentDirCluster) (\<lambda>c.
     bindc (sys_read_cluster c) (\<lambda>t. modify (\<lambda>s. s\<lparr> currentDir := t \<rparr>)))"

section \<open>cd\<close>

definition cd_success :: "u8 list \<Rightarrow> unit sh" where
  "cd_success nm = seqc [say ''Current directory successfully changed to '' BIOS_LIGHT_GREEN, print nm BIOS_YELLOW, say ''!'' BIOS_LIGHT_GREEN]"

text \<open>The search of the table: the first entry with the folder's name and an empty extension.\<close>

fun cd_find :: "u8 list \<Rightarrow> dir_table \<Rightarrow> fault + FAT32DirectoryEntry option" where
  "cd_find folder [] = Inr None"
| "cd_find folder (e # es) =
     and_then (strcmp (name_ptr e) folder) (\<lambda>same.
       if \<not> same then cd_find folder es
       else and_then (strcmp (ext_ptr e) (lit '''')) (\<lambda>noext.
         if noext then Inr (Some e) else cd_find folder es))"

definition cd_parent :: "unit sh" where
  "cd_parent = bindc (gets (\<lambda>s. entry_cluster (currentDir s ! 1))) (\<lambda>parent_cluster.
     bindc (sys_read_cluster parent_cluster) (\<lambda>t.
       seqc [modify (\<lambda>s. s\<lparr> currentDir := t \<rparr>), set_current_cluster, create_path]))"

definition cd_enter :: "StringN \<Rightarrow> unit sh" where
  "cd_enter folder =
     bindc (lift (fill_name folder no_name8)) (\<lambda>nm.
     bindc (gets currentDirCluster) (\<lambda>c.
     bindc (sys_read_directory (make_request nm c 2048)) (\<lambda>(retcode, t).
       seqc [case t of None \<Rightarrow> return () | Some t' \<Rightarrow> modify (\<lambda>s. s\<lparr> currentDir := t' \<rparr>),
             set_current_cluster, create_path])))"

text \<open>
  The name printed at the end starts at \<open>currentDir.table[0].name\<close> (after \<open>..\<close>) or \<open>request.buf\<close>
  (after entering a folder); both are the address of the table.
\<close>

definition cd :: "StringN \<Rightarrow> bool \<Rightarrow> unit sh" where
  "cd folder pr =
     bindc (lift (strcmp (sbuf folder) (lit ''.''))) (\<lambda>isCwd.
     bindc (lift (strcmp (sbuf folder) (lit ''..''))) (\<lambda>isRoot.
       if isCwd \<or> isRoot
       then seqc [if isRoot then cd_parent else return (),
                  if pr then bindc (gets (\<lambda>s. encode_dir_table (currentDir s))) cd_success else return ()]
       else
         bindc (gets currentDir) (\<lambda>table.
         bindc (lift (cd_find (sbuf folder) (drop 2 table))) (\<lambda>entry.
           case entry of
             None \<Rightarrow> if pr then say ''cd error: Directory not found!'' BIOS_LIGHT_RED else return ()
           | Some e \<Rightarrow>
               if attribute e \<noteq> ATTR_SUBDIRECTORY then say ''cd error: Not a directory!'' BIOS_LIGHT_RED
               else seqc [cd_enter folder,
                      if pr then bindc (gets (\<lambda>s. encode_dir_table (currentDir s))) cd_success else return ()]))))"

section \<open>ls\<close>

definition ls_entry :: "FAT32DirectoryEntry \<Rightarrow> unit sh" where
  "ls_entry e =
     (if user_attribute e \<noteq> UATTR_NOT_EMPTY then return ()
      else seqc [print (name_ptr e) (if attribute e = ATTR_SUBDIRECTORY then BIOS_YELLOW else BIOS_LIGHT_CYAN), say '' '' 0x7])"

definition ls :: "unit sh" where
  "ls = bindc (gets currentDir) (\<lambda>table.
     seqc ([say ''[folder]'' BIOS_YELLOW, say '' '' 0x7, print (map of_char ''[file]'' @ [10, 0]) BIOS_LIGHT_CYAN,
            say ''. '' BIOS_YELLOW, say ''.. '' BIOS_YELLOW] @ map ls_entry (drop 2 table)))"

section \<open>mkdir and rm\<close>

definition mkdir :: "StringN \<Rightarrow> unit sh" where
  "mkdir folder_Name =
     seqc [
       if 8 < slen folder_Name then say ''Directory name is too long! Maximum name length is 8 characters.'' 0xC
       else
         bindc (lift (fill_name folder_Name no_name8)) (\<lambda>nm.
         bindc (gets currentDirCluster) (\<lambda>c.
         bindc (sys_write (make_request nm c 0) []) (\<lambda>retcode.
           if retcode = 0
           then seqc [say ''Operation success! '' 0xE, print [39, 0] 0xE, print (sbuf folder_Name) 0xE, print [39, 0] 0xE,
                      say '' has been created.'' 0xE]
           else if retcode = 1
           then seqc [say ''mkdir: cannot create directory '' 0xC, print [39, 0] 0xC, print (sbuf folder_Name) 0xC,
                      print [39, 0] 0xC, say '': File exists'' 0xC]
           else return ()))),
       refresh_current_dir]"

definition rm_message :: "StringN \<Rightarrow> int \<Rightarrow> unit sh" where
  "rm_message folder retcode =
     (if retcode = 0
      then seqc [say ''Operation success! '' 0xE, print [39, 0] 0xE, print (sbuf folder) 0xE, print [39, 0] 0xE,
                 say '' has been removed.'' 0xE]
      else if retcode = 1
      then seqc [print (map of_char ''rm: cannot remove '' @ [39, 0]) 0xC, print (sbuf folder) 0xC,
                 print (39 # lit '': No such file or directory'') 0xC]
      else if retcode = 2
      then seqc [print (map of_char ''rm: cannot remove '' @ [39, 0]) 0xC, print (sbuf folder) 0xC,
                 print (39 # lit '': Directory is not empty'') 0xC]
      else return ())"

definition rm :: "StringN \<Rightarrow> unit sh" where
  "rm folder =
     seqc [
       if 8 < slen folder then say ''rm: cannot remove: Name is too long! Maximum name length is 8 characters.'' 0xC
       else
         bindc (lift (fill_name folder no_name8)) (\<lambda>nm.
         bindc (gets currentDirCluster) (\<lambda>c.
         bindc (sys_delete (make_request nm c 0)) (rm_message folder))),
       refresh_current_dir]"

section \<open>cat\<close>

text \<open>\<open>junk\<close> is the indeterminate contents of the local buffer of ten clusters.\<close>

definition cat :: "u8 list \<Rightarrow> StringN \<Rightarrow> unit sh" where
  "cat junk filename =
     bindc (lift (fill_name filename no_name8)) (\<lambda>nm.
     bindc (gets currentDirCluster) (\<lambda>c.
     bindc (sys_read (make_request nm c (10 * 2048)) junk) (\<lambda>(retcode, data).
       if retcode = 0 then print data 0x7
       else if retcode = 1
       then seqc [say ''cat: '' 0xC, print_count (sbuf filename) (slen filename) 0xC, say '': Is a directory'' 0xC]
       else if retcode = 2
       then seqc [say ''cat: '' 0xC, print_count (sbuf filename) (slen filename) 0xC, say '': No such file or directory'' 0xC]
       else return ())))"

end
