(* ===== verification/Shell_Commands.thy ===== *)
theory Shell_Commands
  imports Shell
begin

text \<open>
  The remaining commands of the shell (copying, moving, searching, processes), the parsing of the
  input line and the key loop of \<open>main\<close> in \<open>src/src/user-program/shell/user-shell.c\<close>.
\<close>

section \<open>cp\<close>

text \<open>
  The loop that guesses the size of the file in clusters: it looks at byte 0 and then at the second
  byte of each following cluster, up to the first zero; the blank counter only delays the end.
\<close>

definition cp_index :: "nat \<Rightarrow> nat" where
  "cp_index clusters = (if clusters = 0 then 0 else clusters * CLUSTER_SIZE + 1)"

function cp_count :: "u8 list \<Rightarrow> nat \<Rightarrow> nat \<Rightarrow> fault + nat" where
  "cp_count b clusters blank_count =
     (if length b \<le> cp_index clusters then Inl OutOfBounds
      else if b ! cp_index clusters \<noteq> 0 then cp_count b (clusters + 1) blank_count
      else if 10 \<le> blank_count then Inr clusters
      else cp_count b clusters (blank_count + 1))"
  by pat_completeness auto
termination
proof (relation "measures [\<lambda>(b, f, n). Suc (length b) - f, \<lambda>(b, f, n). 10 - n]", goal_cases)
  case (2 b f n)
  then have "f \<le> length b" by (auto simp: cp_index_def split: if_splits)
  then show ?case by simp
qed auto

definition cp :: "u8 list \<Rightarrow> StringN \<Rightarrow> StringN \<Rightarrow> unit sh" where
  "cp junk src dest =
     (if 8 < slen src \<or> 8 < slen dest
      then say ''cp: cannot copy: Name is too long! Maximum name length is 8 characters.'' BIOS_LIGHT_RED
      else if slen src = 0 \<or> slen dest = 0
      then say ''cp error: Not enough arguments! Usage: cp <source> <destination>'' BIOS_LIGHT_RED
      else
        bindc (lift (fill_name src no_name8)) (\<lambda>src_name.
        bindc (gets currentDirCluster) (\<lambda>c.
        bindc (sys_read (make_request src_name c (15 * 2048)) junk) (\<lambda>(retcode, src_buf).
          if retcode = 1 then say ''cp error: Source is not a file!'' BIOS_LIGHT_RED
          else if retcode = 2 then say ''cp error: Source file is not a found in current directory!'' BIOS_LIGHT_RED
          else if retcode = - 1 then fail Uninitialised
          else
            bindc (lift (cp_count src_buf 0 0)) (\<lambda>clusters.
            bindc (lift (fill_name dest src_name)) (\<lambda>dest_name.
            bindc (gets cp_dest_cluster) (\<lambda>dc.
            bindc (sys_write (make_request dest_name dc (of_nat clusters * 2048)) src_buf) (\<lambda>retcode2.
              if retcode2 = 1
              then say ''cp error: File with the same name already exists in current directory!'' BIOS_LIGHT_RED
              else seqc [refresh_current_dir,
                bindc (gets currentDirCluster) (\<lambda>c'.
                  if dc \<noteq> c' then return ()
                  else seqc [say ''cp: File successfully copied to '' BIOS_LIGHT_GREEN,
                    print_count (sbuf dest) (slen dest) BIOS_YELLOW, say ''!'' BIOS_LIGHT_GREEN])]))))))))"

section \<open>mv\<close>

definition mv_success :: "string \<Rightarrow> StringN \<Rightarrow> unit sh" where
  "mv_success msg dest = seqc [say msg BIOS_LIGHT_GREEN, print_count (sbuf dest) (slen dest) BIOS_YELLOW,
     say ''!'' BIOS_LIGHT_GREEN, refresh_current_dir]"

text \<open>
  The two search loops: the first position from 2 on whose name is the given string.  Renaming compares
  through a pointer into the table, where a name may run on into the following entries; moving
  compares the name of a copy of the entry.
\<close>

fun rename_find :: "u8 list \<Rightarrow> nat \<Rightarrow> dir_table \<Rightarrow> fault + nat option" where
  "rename_find src i [] = Inr None"
| "rename_find src i (e # es) =
     and_then (strcmp (encode_dir_table (e # es)) src) (\<lambda>same. if same then Inr (Some i) else rename_find src (Suc i) es)"

fun mv_find :: "u8 list \<Rightarrow> nat \<Rightarrow> dir_table \<Rightarrow> fault + nat option" where
  "mv_find src i [] = Inr None"
| "mv_find src i (e # es) =
     and_then (strcmp (name_ptr e) src) (\<lambda>same. if same then Inr (Some i) else mv_find src (Suc i) es)"

definition mv_rename :: "dir_table option \<Rightarrow> StringN \<Rightarrow> StringN \<Rightarrow> unit sh" where
  "mv_rename src_table src dest =
     bindc (gets currentDir) (\<lambda>table.
     bindc (lift (rename_find (sbuf src) 2 (drop 2 table))) (\<lambda>found.
       case found of
         None \<Rightarrow> return ()
       | Some i \<Rightarrow>
           seqc [
             modify (\<lambda>s. s\<lparr> currentDir := table[i := (table ! i)\<lparr> de_name := take 8 (sbuf dest) \<rparr>] \<rparr>),
             bindc (gets (\<lambda>s. (currentDir s, currentDirCluster s))) (\<lambda>(t, c). sys_write_cluster t c),
             (case src_table of
                None \<Rightarrow> return ()
              | Some st \<Rightarrow> sys_write_cluster (st[0 := (st ! 0)\<lparr> de_name := take 8 (sbuf dest) \<rparr>]) (entry_cluster (st ! 0))),
             mv_success ''mv: File/folder successfully renamed to '' dest]))"

text \<open>
  When no entry has the source's name, the loop leaves the last entry of the table in \<open>src_entry\<close>.
\<close>

definition mv_move :: "dir_table option \<Rightarrow> dir_table \<Rightarrow> StringN \<Rightarrow> StringN \<Rightarrow> unit sh" where
  "mv_move src_table dest_table src dest =
     bindc (gets currentDir) (\<lambda>table.
     bindc (lift (mv_find (sbuf src) 2 (drop 2 table))) (\<lambda>found.
       let src_entry = (case found of None \<Rightarrow> table ! 63 | Some i \<Rightarrow> table ! i);
           table' = (case found of None \<Rightarrow> table | Some i \<Rightarrow> table[i := zero_entry]);
           dest_table' = (case find (\<lambda>i. user_attribute (dest_table ! i) \<noteq> UATTR_NOT_EMPTY) [2..<64] of
                            None \<Rightarrow> dest_table | Some i \<Rightarrow> dest_table[i := src_entry])
       in seqc [
            modify (\<lambda>s. s\<lparr> currentDir := table' \<rparr>),
            bindc (gets currentDirCluster) (\<lambda>c. sys_write_cluster table' c),
            sys_write_cluster dest_table' (entry_cluster (dest_table ! 0)),
            (case src_table of
               None \<Rightarrow> return ()
             | Some st \<Rightarrow> sys_write_cluster (st[1 := (st ! 1)\<lparr> cluster_high := cluster_high (dest_table' ! 0),
                   cluster_low := cluster_low (dest_table' ! 0) \<rparr>]) (entry_cluster (st ! 0))),
            mv_success ''mv: File/folder successfully moved to '' dest]))"

text \<open>
  A source that is a folder has its table in \<open>src_table\<close> (\<open>src_is_folder\<close>); the destination is a
  folder, a new name (\<open>is_rename\<close>) or a file.
\<close>

definition mv :: "StringN \<Rightarrow> StringN \<Rightarrow> unit sh" where
  "mv src dest =
     (if 8 < slen src \<or> 8 < slen dest
      then say ''mv: cannot move: Name is too long! Maximum name length is 8 characters.'' BIOS_LIGHT_RED
      else if slen src = 0 \<or> slen dest = 0
      then say ''mv error: Not enough arguments! Usage: mv <source> <destination>'' BIOS_LIGHT_RED
      else
        bindc (gets currentDirCluster) (\<lambda>c.
        bindc (lift (fill_name src no_name8)) (\<lambda>src_name.
        bindc (sys_read_directory (make_request src_name c 2048)) (\<lambda>(retcode_src, src_table).
          if retcode_src = 2
          then say ''mv error: Source file/folder not found in current directory!'' BIOS_LIGHT_RED
          else
            bindc (lift (fill_name dest no_name8)) (\<lambda>dest_name.
            bindc (sys_read_directory (make_request dest_name c 2048)) (\<lambda>(retcode_dest, dest_table).
              if retcode_dest = 1 then say ''mv error: Destination is not a folder!'' BIOS_LIGHT_RED
              else if retcode_dest = 2 then mv_rename src_table src dest
              else case dest_table of None \<Rightarrow> fail Uninitialised | Some dt \<Rightarrow> mv_move src_table dt src dest))))))"

section \<open>find\<close>

definition find_report :: "FAT32DirectoryEntry \<Rightarrow> unit sh" where
  "find_report e =
     seqc [say ''File/folder found at '' BIOS_LIGHT_GREEN,
       bindc (gets (\<lambda>s. sbuf (currentDirPath s))) (\<lambda>p.
         bindc (lift (and_then (stringn_appendstr p stringn_create) (stringn_appendstr (name_ptr e)))) (\<lambda>path.
           print_count (sbuf path) (slen path) BIOS_YELLOW)),
       say ''!'' 0x7]"

definition cd_up :: "unit sh" where
  "cd_up = bindc (lift (stringn_appendstr (lit ''..'') stringn_create)) (\<lambda>root. cd root False)"

text \<open>
  The loop of \<open>find_recursive\<close> from entry \<open>i\<close> on; the recursive call starts the loop anew in the
  directory it has entered and does nothing once \<open>found\<close> is set.  The result is \<open>found\<close>.
\<close>

partial_function (option) find_from :: "StringN \<Rightarrow> nat \<Rightarrow> bool \<Rightarrow> shell \<Rightarrow> (fault + bool \<times> shell) option" where
  "find_from filename i found s =
     (if 64 \<le> i then bindc cd_up (\<lambda>_. return found) s
      else if user_attribute (currentDir s ! i) \<noteq> UATTR_NOT_EMPTY then find_from filename (Suc i) found s
      else
        bindc (lift (strcmp (name_ptr (currentDir s ! i)) (sbuf filename))) (\<lambda>same s1.
          if same then bindc (if found then return () else find_report (currentDir s ! i)) (\<lambda>_. return True) s1
          else if attribute (currentDir s ! i) = ATTR_SUBDIRECTORY
          then bindc (lift (stringn_appendstr (name_ptr (currentDir s ! i)) stringn_create)) (\<lambda>folder_name s2.
               bindc (cd folder_name False) (\<lambda>_ s3.
               bindc (\<lambda>s4. if found then return found s4 else find_from filename 2 found s4) (\<lambda>found' s5.
                 find_from filename (Suc i) found' s5) s3) s2) s1
          else find_from filename (Suc i) found s1) s)"

definition find_cmd :: "StringN \<Rightarrow> unit sh" where
  "find_cmd filename =
     bindc (gets (\<lambda>s. (currentDir s, currentDirPath s, currentDirCluster s))) (\<lambda>(old_dir, old_path, old_cluster).
     bindc (modify (\<lambda>s. s\<lparr> currentDir := rootDir s, currentDirPath := rootDirPath s, currentDirCluster := rootDirCluster s \<rparr>)) (\<lambda>_.
     bindc (find_from filename 2 False) (\<lambda>found.
     bindc (modify (\<lambda>s. s\<lparr> currentDir := old_dir, currentDirPath := old_path, currentDirCluster := old_cluster \<rparr>)) (\<lambda>_.
       if found then return () else say ''find: File/folder not found in filesystem!'' BIOS_LIGHT_RED))))"

section \<open>Processes\<close>

text \<open>
  The kernel stores the result as a 32-bit integer where the shell passed the address of an
  \<open>int8_t\<close>; the model takes the value.
\<close>

definition exec :: "StringN \<Rightarrow> unit sh" where
  "exec filename =
     bindc (lift (fill_name filename no_name8)) (\<lambda>nm.
     bindc (sys_create_process (make_request nm 5 0x100000)) (\<lambda>retcode.
       if retcode = 0 then say ''Process created successfully!'' BIOS_YELLOW
       else if retcode = 1 then say ''Exec error: Max process count reached!'' BIOS_RED
       else if retcode = 2 then say ''Exec error: Invalid entrypoint!'' BIOS_RED
       else if retcode = 3 then say ''Exec error: Not enough memory!'' BIOS_RED
       else if retcode = 4 then say ''Exec error: File not found in bin folder!'' BIOS_RED
       else return ()))"

definition itoa :: "u8 list list" where
  "itoa = map (\<lambda>n. (if n < 10 then [] else [48 + of_nat (n div 10)]) @ [48 + of_nat (n mod 10), 0]) [0..<50]"

definition print_itoa :: "u32 \<Rightarrow> u32 \<Rightarrow> unit sh" where
  "print_itoa n fg = (if 50 \<le> unat n then fail OutOfBounds else print (itoa ! unat n) fg)"

text \<open>
  The kernel stores the column into one byte of the 32-bit \<open>col\<close>: \<open>junk\<close> holds its other bytes.
\<close>

partial_function (option) pad_to :: "u32 \<Rightarrow> u32 \<Rightarrow> shell \<Rightarrow> (fault + unit \<times> shell) option" where
  "pad_to junk target s =
     bindc (say '' '' 0) (\<lambda>_ s1. bindc sys_get_cursor_col (\<lambda>c s2.
       if (junk AND 0xFFFFFF00) OR ucast c < target then pad_to junk target s2 else return () s2) s1) s"

definition ps_line :: "u32 \<Rightarrow> SyscallProcessInfoArgs \<Rightarrow> unit sh" where
  "ps_line junk info =
     (if \<not> process_exists info then return ()
      else seqc [print [10, 0] 0, print_itoa (info_pid info) BIOS_WHITE, pad_to junk 11,
        print (info_name info @ info_state info) BIOS_LIGHT_GREEN, pad_to junk 23,
        print (info_state info) BIOS_LIGHT_CYAN, pad_to junk 36,
        print_itoa (info_page_frame_used_count info) BIOS_LIGHT_BLUE])"

definition ps :: "u32 \<Rightarrow> unit sh" where
  "ps junk =
     bindc sys_get_max_process_count (\<lambda>max_process_count.
       seqc (say ''PID      Name        State        Frame Count'' BIOS_YELLOW #
         map (\<lambda>i. bindc (sys_get_process_info \<lparr> info_pid = of_nat i, info_name = replicate 32 0, info_state = replicate 8 0,
                process_exists = False, info_page_frame_used_count = 0 \<rparr>) (ps_line junk)) [0..<unat max_process_count]))"

definition kill :: "(nat \<Rightarrow> PageDirectoryEntryFlag) \<Rightarrow> StringN \<Rightarrow> unit sh" where
  "kill junk pid_string =
     seqc (map (\<lambda>d. bindc (lift (strcmp (sbuf pid_string) [48 + of_nat d, 0])) (\<lambda>same.
       if same then sys_kill_process junk (of_nat d) else return ())) [0..<10])"

section \<open>The command line\<close>

definition shell_print_prompt :: "unit sh" where
  "shell_print_prompt =
     seqc [create_path, say ''Macrosoft@OS-2024 ['' 0xA,
       bindc (gets (\<lambda>s. sbuf (currentDirPath s))) (\<lambda>p.
         bindc (lift (stringn_appendstr p stringn_create)) (\<lambda>prompt. print (sbuf prompt) 0x9)),
       say ''] >> '' 0xA,
       bindc sys_get_cursor_col (\<lambda>c. modify (\<lambda>s. s\<lparr> del_limit := c \<rparr>))]"

fun scan_arg :: "u8 list \<Rightarrow> StringN \<Rightarrow> fault + StringN" where
  "scan_arg [] arg = Inr arg"
| "scan_arg (b # bs) arg = (if b = 0x20 then Inr arg else and_then (stringn_appendchar b arg) (scan_arg bs))"

definition shell_arguments :: "StringN \<Rightarrow> fault + StringN \<times> StringN \<times> StringN" where
  "shell_arguments input =
     (let line = take (unat (slen input)) (sbuf input)
      in and_then (scan_arg line stringn_create) (\<lambda>arg0.
         let i = unat (slen arg0)
         in and_then (scan_arg (drop (i + 1) line) stringn_create) (\<lambda>arg1.
            let j = 1 + unat (slen arg1)
            in and_then (scan_arg (drop (i + j + 1) line) stringn_create) (\<lambda>arg2.
                 Inr (arg0, arg1, arg2)))))"

fun dispatch :: "u8 list \<Rightarrow> (string \<times> unit sh) list \<Rightarrow> unit sh \<Rightarrow> unit sh" where
  "dispatch command [] otherwise = otherwise"
| "dispatch command ((nm, action) # rest) otherwise =
     bindc (lift (strcmp command (lit nm))) (\<lambda>same. if same then action else dispatch command rest otherwise)"

definition okegas_text :: "u8 list" where
  "okegas_text = concat (map (\<lambda>l. map of_char l @ [10])
     [''TABRAK-TABRAK MASUK'', ''RAPPER KAMPUNG TABRAK MASUK'', ''MESKI JAUH JARAK PANDANG'', ''COBA SEDIKIT MENGAMUK'',
      ''KU CIPTAKAN LIRIK DAN BEAT'', ''SECEPAT KILAT TAPI TAK SEMPIT'', ''BERDIRI TEGAR WALAUPUN SULIT'',
      ''TRA MAMPU BERSAING SILAHKAN PAMIT'', ''OK GAS-OK GAS'']) @ lit ''TAMBAH DUA TORANG GAS''"

text \<open>The indeterminate contents of the locals of the commands.\<close>

record locals =
  junk_cat :: "u8 list"
  junk_cp :: "u8 list"
  junk_flags :: "nat \<Rightarrow> PageDirectoryEntryFlag"
  junk_col :: u32
  junk_row :: u32

definition shell_input_handler :: "locals \<Rightarrow> StringN \<Rightarrow> unit sh" where
  "shell_input_handler j input =
     bindc (lift (shell_arguments input)) (\<lambda>(arg0, arg1, arg2).
       dispatch (sbuf arg0)
         [(''cd'', cd arg1 True), (''ls'', ls), (''mkdir'', mkdir arg1), (''cat'', cat (junk_cat j) arg1),
          (''cp'', seqc [modify (\<lambda>s. s\<lparr> cp_dest_cluster := currentDirCluster s \<rparr>), cp (junk_cp j) arg1 arg2]),
          (''rm'', rm arg1), (''mv'', mv arg1 arg2), (''find'', find_cmd arg1),
          (''clear'', seqc [sys_clear_screen, sys_set_cursor 2 2, shell_print_prompt]),
          (''okegas'', print okegas_text 0xE), (''ps'', ps (junk_col j)), (''exec'', exec arg1), (''kill'', kill (junk_flags j) arg1)]
         (say ''Unknown command! Please enter another command.'' 0xC))"

end
