(* ===== verification/Shell_Main.thy ===== *)
theory Shell_Main
  imports Shell_Commands
begin

text \<open>
  The key loop of the shell: the start of \<open>main\<close> and one turn of its endless loop, in
  \<open>src/src/user-program/shell/user-shell.c\<close>.  The picture \<open>bg\<close> of \<open>shell-background.h\<close> is an argument.
\<close>

section \<open>Windows\<close>

definition print_at :: "u8 list \<Rightarrow> u32 \<Rightarrow> u32 \<Rightarrow> u32 \<Rightarrow> u8 \<Rightarrow> u8 \<Rightarrow> unit sh" where
  "print_at bs n fg bgc r c = sys_puts_at \<lparr> buf = bs, count = n, fg_color = fg, bg_color = bgc, at_row = r, at_col = c \<rparr>"

definition say_at :: "string \<Rightarrow> u32 \<Rightarrow> u32 \<Rightarrow> u8 \<Rightarrow> u8 \<Rightarrow> unit sh" where
  "say_at msg fg bgc r c = bindc (lift (strlen (lit msg))) (\<lambda>n. print_at (lit msg) n fg bgc r c)"

definition shell_create_bg :: "(nat \<Rightarrow> nat \<Rightarrow> u32) \<Rightarrow> unit sh" where
  "shell_create_bg bg =
     seqc ([sys_set_cursor 0 0] @
       concat (map (\<lambda>i. map (\<lambda>j. print_at (lit '' '') 1 0 (bg i j) (of_nat i) (of_nat j)) [0..<80]) [0..<25]) @
       [say_at ''Hello, User!'' 0 2 10 8,
        say_at ''Welcome to Macrosoft Winning OS!'' 0 2 11 11,
        say_at ''Press Ctrl + S to open the Shell Command Line Interface.'' 0xF 4 15 12,
        sys_set_cursor 10 8])"

definition shell_window :: "unit sh" where
  "shell_window =
     seqc ([sys_clear_screen, sys_set_cursor 1 2] @
       map (\<lambda>j. sys_puts \<lparr> buf = lit '' '', count = 1, fg_color = 0, bg_color = BIOS_DARK_GRAY \<rparr>) [2..<78] @
       [say_at ''Shell'' BIOS_WHITE BIOS_DARK_GRAY 1 5,
        print_at (lit '' X '') 3 0 BIOS_RED 1 75,
        print_at (lit '' O '') 3 0 BIOS_YELLOW 1 72,
        print_at (lit '' _ '') 3 0 BIOS_LIGHT_GREEN 1 69,
        shell_print_prompt])"

section \<open>Keys\<close>

definition putchar_key :: "u8 \<Rightarrow> unit sh" where
  "putchar_key ch = sys_putchar \<lparr> buf = [ch], count = 1, fg_color = 0x7, bg_color = 0 \<rparr>"

definition shell_enter :: "locals \<Rightarrow> unit sh" where
  "shell_enter j =
     bindc (putchar_key 10) (\<lambda>_.
     bindc (gets shell_input) (\<lambda>input.
     bindc (shell_input_handler j input) (\<lambda>_.
     bindc (lift (strcmp (sbuf input) (lit ''clear''))) (\<lambda>is_clear.
     bindc (if is_clear then return () else seqc [putchar_key 10, putchar_key 10, shell_print_prompt]) (\<lambda>_.
     bindc sys_get_cursor_row (\<lambda>r.
       modify (\<lambda>s. s\<lparr> shell_row := r, shell_input := stringn_create \<rparr>)))))))"

text \<open>
  \<open>col\<close> and \<open>row\<close> are \<open>int\<close> variables of which the kernel stores the lowest byte; \<open>junk\<close> holds the
  other bytes of the two.
\<close>

definition cursor_int :: "u32 \<Rightarrow> u8 \<Rightarrow> int" where
  "cursor_int junk c = sint ((junk AND 0xFFFFFF00) OR ucast c)"

definition past_limit :: "u32 \<times> u32 \<Rightarrow> shell \<Rightarrow> bool" where
  "past_limit junk s \<longleftrightarrow> int (unat (del_limit s)) < cursor_int (fst junk) (col (kbd (display s))) \<or>
     int (unat (shell_row s)) < cursor_int (snd junk) (row (kbd (display s)))"

text \<open>The character before the end of the input: index \<open>len - 1\<close> wraps around for the empty input.\<close>

definition last_char :: "StringN \<Rightarrow> fault + u8" where
  "last_char str = (if 256 \<le> unat (slen str - 1) then Inl OutOfBounds else Inr (sbuf str ! unat (slen str - 1)))"

definition drop_last :: "StringN \<Rightarrow> fault + StringN" where
  "drop_last str =
     (if 256 \<le> unat (slen str - 1) then Inl OutOfBounds
      else Inr (str\<lparr> sbuf := (sbuf str)[unat (slen str - 1) := 0],
             slen := (if 0 < slen str then slen str - 1 else slen str) \<rparr>))"

definition delete_step :: "u8 sh" where
  "delete_step =
     bindc (putchar_key 8) (\<lambda>_.
     bindc (gets shell_input) (\<lambda>input.
     bindc (lift (drop_last input)) (\<lambda>input'.
     bindc (modify (\<lambda>s. s\<lparr> shell_input := input' \<rparr>)) (\<lambda>_.
       lift (last_char input')))))"

partial_function (option) delete_loop :: "u32 \<times> u32 \<Rightarrow> bool \<Rightarrow> shell \<Rightarrow> (fault + unit \<times> shell) option" where
  "delete_loop junk press s =
     bindc delete_step (\<lambda>c s1.
       if c \<noteq> 0x20 \<and> past_limit junk s1 \<and> press then delete_loop junk press s1 else return () s1) s"

definition shell_backspace :: "u32 \<times> u32 \<Rightarrow> bool \<Rightarrow> unit sh" where
  "shell_backspace junk press =
     bindc (gets (past_limit junk)) (\<lambda>p.
       if p then bindc (gets shell_input) (\<lambda>input. bindc (lift (last_char input)) (\<lambda>_. delete_loop junk press))
       else return ())"

definition shell_turn :: "(nat \<Rightarrow> nat \<Rightarrow> u32) \<Rightarrow> locals \<Rightarrow> unit sh" where
  "shell_turn bg j =
     bindc sys_keyboard_press_ctrl (\<lambda>press.
     bindc sys_getchar (\<lambda>ch.
     bindc (gets is_open) (\<lambda>opened.
       if \<not> opened
       then if press \<and> ch = 0x73
            then seqc [modify (\<lambda>s. s\<lparr> is_open := True \<rparr>), sys_set_is_shell_open 1, shell_window]
            else return ()
       else if press \<and> ch = 0x73
            then seqc [modify (\<lambda>s. s\<lparr> is_open := False \<rparr>), sys_set_is_shell_open 0, shell_create_bg bg]
       else if ch = 10 then shell_enter j
       else if ch = 8 then shell_backspace (junk_col j, junk_row j) press
       else if ch \<noteq> 0
       then bindc (putchar_key ch) (\<lambda>_. bindc (gets shell_input) (\<lambda>input.
              bindc (lift (stringn_appendchar ch input)) (\<lambda>input'. modify (\<lambda>s. s\<lparr> shell_input := input' \<rparr>))))
       else return ())))"

section \<open>The start\<close>

text \<open>
  The kernel stores the return code of \<open>read_directory\<close> through the null pointer that \<open>main\<close> passes;
  the model drops the code.
\<close>

definition shell_start :: "(nat \<Rightarrow> nat \<Rightarrow> u32) \<Rightarrow> unit sh" where
  "shell_start bg =
     seqc [sys_activate_keyboard, shell_create_bg bg,
       sys_set_keyboard_borders \<lparr> up = 2, down = 21, left = 2, right = 77 \<rparr>,
       bindc (sys_read_directory (make_request (map of_char ''root'' @ replicate 4 0) ROOT_CLUSTER_NUMBER 2048)) (\<lambda>(_, t).
         case t of None \<Rightarrow> return () | Some t' \<Rightarrow> modify (\<lambda>s. s\<lparr> currentDir := t' \<rparr>)),
       set_current_cluster, create_path,
       modify (\<lambda>s. s\<lparr> rootDir := currentDir s, rootDirPath := currentDirPath s, rootDirCluster := currentDirCluster s,
         shell_input := stringn_create, shell_row := 2 \<rparr>)]"

end
