(* ===== verification/Shell_Props.thy ===== *)
theory Shell_Props
  imports Shell_Main Fat32_Tree
begin

text \<open>
  What the shell's commands do: messages never disturb anything but the display; the path of the
  current directory; the arguments of a command line; \<open>mkdir\<close> against the filesystem driver; \<open>kill\<close>;
  inputs that make the code leave its buffers.
\<close>

section \<open>Messages\<close>

definition display_ok :: "shell \<Rightarrow> bool" where
  "display_ok s \<longleftrightarrow> window_ok (kbd (display s)) \<and> cursor_inside (kbd (display s))"

text \<open>A command that only prints: it returns, and only the display changes.\<close>

definition quiet :: "unit sh \<Rightarrow> bool" where
  "quiet c \<longleftrightarrow> (\<forall>s. display_ok s \<longrightarrow>
     (\<exists>t. c s = Some (Inr ((), s\<lparr> display := t \<rparr>)) \<and> display_ok (s\<lparr> display := t \<rparr>)))"

definition plain :: "u8 list \<Rightarrow> bool" where
  "plain bs \<longleftrightarrow> 8 \<notin> set bs \<and> 9 \<notin> set bs"

lemma quietD:
  assumes "quiet c" "display_ok s"
  obtains t where "c s = Some (Inr ((), s\<lparr> display := t \<rparr>))" "display_ok (s\<lparr> display := t \<rparr>)"
  using assms unfolding quiet_def by blast

lemma quiet_return [simp]: "quiet (return ())"
  unfolding quiet_def
proof (intro allI impI)
  fix s assume "display_ok s"
  then show "\<exists>t. return () s = Some (Inr ((), s\<lparr> display := t \<rparr>)) \<and> display_ok (s\<lparr> display := t \<rparr>)"
    by (intro exI [where x = "display s"]) (simp add: return_def)
qed

lemma quiet_bind: "quiet c \<Longrightarrow> quiet d \<Longrightarrow> quiet (bindc c (\<lambda>_. d))"
  unfolding quiet_def
proof (intro allI impI)
  fix s assume q: "\<forall>s. display_ok s \<longrightarrow> (\<exists>t. c s = Some (Inr ((), s\<lparr> display := t \<rparr>)) \<and> display_ok (s\<lparr> display := t \<rparr>))"
    "\<forall>s. display_ok s \<longrightarrow> (\<exists>t. d s = Some (Inr ((), s\<lparr> display := t \<rparr>)) \<and> display_ok (s\<lparr> display := t \<rparr>))" "display_ok s"
  obtain t where t: "c s = Some (Inr ((), s\<lparr> display := t \<rparr>))" "display_ok (s\<lparr> display := t \<rparr>)" using q(1,3) by blast
  obtain t' where "d (s\<lparr> display := t \<rparr>) = Some (Inr ((), s\<lparr> display := t, display := t' \<rparr>))" "display_ok (s\<lparr> display := t, display := t' \<rparr>)"
    using q(2) t(2) by blast
  then show "\<exists>t. bindc c (\<lambda>_. d) s = Some (Inr ((), s\<lparr> display := t \<rparr>)) \<and> display_ok (s\<lparr> display := t \<rparr>)"
    using t by (intro exI [where x = t']) (simp add: bindc_def)
qed

lemma quiet_seqc [simp]: "quiet (seqc cs)" if "\<forall>c \<in> set cs. quiet c"
  using that by (induction cs) (auto simp: seqc_def intro: quiet_bind)

lemma quiet_print_count:
  assumes "plain bs" "0 \<in> set bs \<or> unat n \<le> length bs"
  shows "quiet (print_count bs n fg)"
  unfolding quiet_def
proof (intro allI impI)
  fix s assume d: "display_ok s"
  let ?args = "\<lparr> buf = bs, count = n, fg_color = fg, bg_color = 0 \<rparr>"
  have a: "\<forall>b \<in> set (buf ?args). b \<noteq> 8 \<and> b \<noteq> 9" using assms(1) by (auto simp: plain_def)
  have w: "window_ok (kbd (display s))" "cursor_inside (kbd (display s))" using d by (simp_all add: display_ok_def)
  obtain t where "puts_loop (ucast fg) 0 (unat n) bs (display s) = Inr t" "stays_in (display s) t"
    using puts_loop_stays_in [OF w, of bs "unat n" "ucast fg" 0] assms a by auto
  then have "puts ?args (display s) = Inr (t\<lparr> ports := ports t @ framebuffer_set_cursor (row (kbd t)) (col (kbd t)) \<rparr>)"
    "window_ok (kbd t)" "cursor_inside (kbd t)"
    by (simp_all add: puts_def stays_in_def)
  then show "\<exists>t. print_count bs n fg s = Some (Inr ((), s\<lparr> display := t \<rparr>)) \<and> display_ok (s\<lparr> display := t \<rparr>)"
    by (intro exI [where x = "t\<lparr> ports := ports t @ framebuffer_set_cursor (row (kbd t)) (col (kbd t)) \<rparr>"])
       (simp add: print_count_def sys_puts_def update_def display_ok_def)
qed

lemma quiet_print:
  assumes "plain bs" "0 \<in> set bs"
  shows "quiet (print bs fg)"
proof -
  have "print bs fg = print_count bs (of_nat (length (c_string bs))) fg"
    using assms(2) by (simp add: print_def strlen_eq fun_eq_iff bindc_def lift_def)
  then show ?thesis using quiet_print_count [OF assms(1)] assms(2) by simp
qed

lemma quiet_say: "plain (lit msg) \<Longrightarrow> quiet (say msg fg)"
  unfolding say_def by (rule quiet_print) (simp_all add: lit_def)

lemma quiet_say_ok [simp]:
  "quiet (say ''Directory name is too long! Maximum name length is 8 characters.'' fg)"
  "quiet (say ''Operation success! '' fg)" "quiet (say '' has been created.'' fg)"
  "quiet (say ''mkdir: cannot create directory '' fg)" "quiet (say '': File exists'' fg)"
  "quiet (say '' has been removed.'' fg)"
  "quiet (say ''cp: File successfully copied to '' fg)" "quiet (say ''!'' fg)"
  by (rule quiet_say, simp add: plain_def lit_def)+

text \<open>The text of a well-formed string without control characters.\<close>

definition typed :: "StringN \<Rightarrow> bool" where
  "typed n \<longleftrightarrow> stringn_wf n \<and> unat (slen n) < 256 \<and> 0 \<notin> set (content n) \<and> plain (content n)"

lemma typed_sbuf:
  assumes "typed n"
  shows "plain (sbuf n)" "0 \<in> set (sbuf n)" "c_string (sbuf n) = content n"
proof -
  have w: "stringn_wf n" "unat (slen n) < 256" "0 \<notin> set (content n)" "plain (content n)"
    using assms by (simp_all add: typed_def)
  show "plain (sbuf n)" using w(4) unfolding sbuf_content [OF w(1)] by (simp add: plain_def)
  show "0 \<in> set (sbuf n)" "c_string (sbuf n) = content n" using sbuf_string [OF w(1-3)] .
qed

lemma quiet_typed [simp]: "typed n \<Longrightarrow> quiet (print (sbuf n) fg)" "typed n \<Longrightarrow> quiet (print_count (sbuf n) (slen n) fg)"
  by (auto intro: quiet_print quiet_print_count dest: typed_sbuf)

lemma quiet_quote [simp]: "quiet (print [39, 0] fg)"
  by (rule quiet_print) (simp_all add: plain_def)

section \<open>The path\<close>

text \<open>
  The chain of parents of a directory up to the root, with the names of the directories on the way.
\<close>

inductive dir_path :: "disk \<Rightarrow> u32 \<Rightarrow> u8 list list \<Rightarrow> bool" for d where
  dir_path_root: "dir_path d ROOT_CLUSTER_NUMBER []"
| dir_path_child: "c \<noteq> ROOT_CLUSTER_NUMBER \<Longrightarrow> t = decode_dir_table (read_clusters d c 1) \<Longrightarrow>
    0 \<in> set (name_ptr (t ! 0)) \<Longrightarrow> length (name_ptr (t ! 0)) = 32 \<Longrightarrow> dir_path d (entry_cluster (t ! 1)) ns \<Longrightarrow>
    dir_path d c (ns @ [c_string (name_ptr (t ! 0))])"

definition path_text :: "u8 list list \<Rightarrow> u8 list" where
  "path_text ns = map of_char ''./'' @ concat (map (\<lambda>n. n @ [0x2F]) ns)"

lemma lit_c_string: "0 \<notin> set (map of_char s :: u8 list) \<Longrightarrow> c_string (lit s) = map of_char s"
  by (simp add: lit_def c_string_append)

lemma create_path_text:
  assumes "dir_path d c ns" "length (path_text ns) < 256"
  shows "\<exists>p. create_path_recursive d c = Some (Inr p) \<and> stringn_wf p \<and> content p = path_text ns"
  using assms
proof (induction rule: dir_path.induct)
  case dir_path_root
  have c: "c_string (lit ''./'') = map of_char ''./''" by (rule lit_c_string) simp
  have z: "0 \<in> set (lit ''./'')" by (simp add: lit_def)
  obtain p where "stringn_appendstr (lit ''./'') stringn_create = Inr p" "stringn_wf p" "content p = content stringn_create @ c_string (lit ''./'')"
    by (rule appendstr_wf [OF create_wf(1) z]) (simp_all add: c)
  then have "stringn_appendstr (lit ''./'') stringn_create = Inr p" "stringn_wf p" "content p = path_text []"
    unfolding c by (simp_all add: path_text_def)
  then show ?case by (subst create_path_recursive.simps) simp
next
  case (dir_path_child c t ns)
  let ?n = "c_string (name_ptr (t ! 0))"
  have len: "length (path_text ns) + length ?n + 1 < 256" using dir_path_child.prems by (simp add: path_text_def)
  obtain p where p: "create_path_recursive d (entry_cluster (t ! 1)) = Some (Inr p)" "stringn_wf p" "content p = path_text ns"
    using dir_path_child len by auto
  have n: "length ?n \<le> 32" using dir_path_child.hyps(4) length_takeWhile_le unfolding c_string_def by metis
  obtain q where q: "stringn_appendstr (name_ptr (t ! 0)) stringn_create = Inr q" "stringn_wf q"
      "content q = content stringn_create @ ?n" "unat (slen q) = unat (slen stringn_create) + length ?n"
    by (rule appendstr_wf [OF create_wf(1) dir_path_child.hyps(3)]) (use n in simp_all)
  obtain r where r': "stringn_appendchar 0x2F q = Inr r" "stringn_wf r" "content r = content q @ [0x2F]" "unat (slen r) = Suc (unat (slen q))"
    by (rule appendchar_wf [where c = "0x2F", OF q(2)]) (use n q in simp_all)
  then have r: "stringn_appendchar 0x2F q = Inr r" "stringn_wf r" "content r = ?n @ [0x2F]" "unat (slen r) = Suc (length ?n)"
    using q by simp_all
  have z: "0 \<notin> set (content r)" using c_string_nonzero [of "name_ptr (t ! 0)"] by (simp add: r(3))
  have s: "0 \<in> set (sbuf r)" "c_string (sbuf r) = content r" using sbuf_string [OF r(2) _ z] r(4) n by auto
  obtain w where w: "stringn_appendstr (sbuf r) p = Inr w" "stringn_wf w" "content w = content p @ content r"
    by (rule appendstr_wf [OF p(2) s(1)]) (use len p r s content_length [OF p(2)] in auto)
  have "create_path_recursive d c = Some (Inr w)"
    using dir_path_child.hyps(1,2) q(1) r(1) p(1) w(1) by (subst create_path_recursive.simps) (simp add: Let_def)
  then show ?case using w p(3) r(3) by (simp add: path_text_def)
qed

text \<open>
  C34: For a directory whose parents lead to the root, the computation of its path ends, and the path
  is \<open>./\<close> followed by the names of the directories from the root down, each with a slash, as long as
  it fits into the 256 bytes of a string.
\<close>

theorem create_path_correct:
  assumes "dir_path d c ns" "length (path_text ns) < 256"
  shows "\<exists>p. create_path_recursive d c = Some (Inr p) \<and> stringn_wf p \<and> content p = path_text ns"
  by (rule create_path_text [OF assms])

section \<open>Directories\<close>

definition pad8 :: "StringN \<Rightarrow> u8 list" where
  "pad8 n = content n @ replicate (8 - unat (slen n)) 0"

lemma fill_name_pad8: "unat (slen n) \<le> 8 \<Longrightarrow> fill_name n no_name8 = Inr (pad8 n)"
  by (simp add: fill_name_def pad8_def content_def)

lemma fill_name_long: "8 < unat (slen n) \<Longrightarrow> fill_name n nm = Inl OutOfBounds"
  by (simp add: fill_name_def)

lemma pad8_length: "typed n \<Longrightarrow> unat (slen n) \<le> 8 \<Longrightarrow> length (pad8 n) = 8"
  by (simp add: pad8_def content_length typed_def)

lemma refresh_eq:
  "refresh_current_dir s = Some (Inr ((), s\<lparr> currentDir := table_at (fs_of s) (currentDirCluster s) \<rparr>))"
  by (simp add: refresh_current_dir_def sys_read_cluster_def cmd)

lemma quiet_then_refresh:
  assumes "quiet c" "display_ok s"
  obtains t where "seqc [c, refresh_current_dir] s =
      Some (Inr ((), s\<lparr> display := t, currentDir := table_at (fs_of s) (currentDirCluster s) \<rparr>))"
    "display_ok (s\<lparr> display := t \<rparr>)"
proof -
  obtain t where "c s = Some (Inr ((), s\<lparr> display := t \<rparr>))" "display_ok (s\<lparr> display := t \<rparr>)"
    using quietD [OF assms] .
  then show ?thesis using that [of t] by (simp add: cmd refresh_eq)
qed

abbreviation mkdir_request :: "StringN \<Rightarrow> shell \<Rightarrow> FAT32DriverRequest" where
  "mkdir_request n s \<equiv> make_request (pad8 n) (currentDirCluster s) 0"

lemma mkdir_eq:
  assumes "unat (slen n) \<le> 8" and w: "write_fat32 load_local [] (mkdir_request n s) (fs_of s) = Inr (code, f)"
  shows "mkdir n s = seqc [
      if code = 0 then seqc [say ''Operation success! '' 0xE, print [39, 0] 0xE, print (sbuf n) 0xE, print [39, 0] 0xE, say '' has been created.'' 0xE]
      else if code = 1 then seqc [say ''mkdir: cannot create directory '' 0xC, print [39, 0] 0xC, print (sbuf n) 0xC, print [39, 0] 0xC, say '': File exists'' 0xC]
      else return (), refresh_current_dir] (set_fs f s)"
proof -
  have n: "\<not> 8 < slen n" using assms(1) by (simp add: word_less_nat_alt)
  have "sys_write (mkdir_request n s) [] s = Some (Inr (code, set_fs f s))" by (simp add: sys_write_def w)
  then show ?thesis using n by (simp add: mkdir_def fill_name_pad8 [OF assms(1)] seqc_simps(2) bindc_def lift_def gets_def)
qed

lemma display_ok_set_fs [simp]: "display_ok (set_fs f s) = display_ok s"
  by (simp add: display_ok_def)

lemma set_fs_more [simp]:
  "currentDirCluster (set_fs f s) = currentDirCluster s" "currentDir (set_fs f s) = currentDir s"
  by (simp_all add: set_fs_def)

text \<open>
  C35: Making a directory with a name of at most 8 characters always returns; the filesystem is what the
  driver's write of a folder with that name, padded with zeros, leaves, whatever the outcome, and the
  cached table of the current directory is the one on disk.  When the driver accepts, that table holds
  a folder entry of that name.
\<close>

theorem mkdir_outcome:
  assumes d: "display_ok s" and n: "typed n" "unat (slen n) \<le> 8"
    and fs: "fs_wf (fs_of s)" "data_cluster (currentDirCluster s)"
  shows "\<exists>s' code. mkdir n s = Some (Inr ((), s')) \<and>
    write_fat32 load_local [] (make_request (pad8 n) (currentDirCluster s) 0) (fs_of s) = Inr (code, fs_of s') \<and>
    currentDirCluster s' = currentDirCluster s \<and> currentDir s' = table_at (fs_of s') (currentDirCluster s') \<and> display_ok s' \<and>
    (code = 0 \<longrightarrow> (\<exists>e \<in> set (currentDir s'). de_name e = pad8 n \<and> attribute e = ATTR_SUBDIRECTORY \<and> user_attribute e = UATTR_NOT_EMPTY))"
proof -
  let ?rq = "mkdir_request n s"
  have "clusters_needed 0 = 0" using ceil_exact [of 0 11 2048] by (simp add: clusters_needed_def)
  then have r: "required_clusters ?rq \<noteq> 0" by (simp add: required_clusters_def make_request_def)
  have "unat (parent_cluster_number ?rq) < 512" using fs(2) by (simp add: data_cluster_def make_request_def)
  from write_returns [OF this r, of load_local "[]" "fs_of s"]
  obtain x where "write_fat32 load_local [] ?rq (fs_of s) = Inr x" by (elim exE)
  then obtain code f where w: "write_fat32 load_local [] ?rq (fs_of s) = Inr (code, f)" by (cases x) simp
  let ?msg = "if code = 0 then seqc [say ''Operation success! '' 0xE, print [39, 0] 0xE, print (sbuf n) 0xE, print [39, 0] 0xE, say '' has been created.'' 0xE]
      else if code = 1 then seqc [say ''mkdir: cannot create directory '' 0xC, print [39, 0] 0xC, print (sbuf n) 0xC, print [39, 0] 0xC, say '': File exists'' 0xC]
      else return ()"
  have q: "quiet ?msg" using n(1) by simp
  obtain t where t: "seqc [?msg, refresh_current_dir] (set_fs f s) =
      Some (Inr ((), (set_fs f s)\<lparr> display := t, currentDir := table_at (fs_of (set_fs f s)) (currentDirCluster (set_fs f s)) \<rparr>))"
      "display_ok ((set_fs f s)\<lparr> display := t \<rparr>)"
    using quiet_then_refresh [OF q, of "set_fs f s"] d by auto
  let ?s = "(set_fs f s)\<lparr> display := t, currentDir := table_at f (currentDirCluster s) \<rparr>"
  have new: "\<exists>e \<in> set (table_at f (currentDirCluster s)). de_name e = pad8 n \<and> attribute e = ATTR_SUBDIRECTORY \<and> user_attribute e = UATTR_NOT_EMPTY"
    if "code = 0"
  proof -
    have w0: "write_fat32 load_local [] ?rq (fs_of s) = Inr (0, f)" using w that by simp
    have p: "data_cluster (parent_cluster_number ?rq)" using fs(2) by (simp add: make_request_def)
    have ld: "\<And>p. length (load_local p 2048 []) = 2048" by (simp add: load_local_def)
    note e = write_effect(4) [OF fs(1) ld p w0]
    have "entry_slot ?rq (fs_of s) < length (table_at (fs_of s) (currentDirCluster s))" using write_success(4) [OF w0] by simp
    then have "new_entry ?rq True (hd (free_slots ?rq (fs_of s))) \<in> set (table_at f (currentDirCluster s))"
      using e by (simp add: make_request_def set_update_memI)
    moreover have "map ((!) (pad8 n)) [0..<8] = pad8 n" using pad8_length [OF n] by (metis map_nth)
    ultimately show ?thesis by (intro bexI [where x = "new_entry ?rq True (hd (free_slots ?rq (fs_of s)))"])
        (simp_all add: new_entry_def make_request_def del: upt.simps)
  qed
  show ?thesis
    using t(1) t(2) w new mkdir_eq [OF n(2) w]
    by (intro exI [where x = ?s] exI [where x = code]) (simp add: display_ok_def)
qed

section \<open>Arguments\<close>

text \<open>The words of a line: its maximal parts without a space, where every space separates two words.\<close>

fun words :: "u8 list \<Rightarrow> u8 list list" where
  "words [] = [[]]"
| "words (b # bs) = (if b = 0x20 then [] # words bs else (b # hd (words bs)) # tl (words bs))"

definition word_at :: "nat \<Rightarrow> u8 list \<Rightarrow> u8 list" where
  "word_at k line = (if k < length (words line) then words line ! k else [])"

lemma words_not_Nil [simp]: "words bs \<noteq> []"
  by (cases bs) auto

lemma words_hd: "hd (words bs) = takeWhile (\<lambda>b. b \<noteq> 0x20) bs"
  by (induction bs) auto

lemma words_tl:
  "tl (words bs) = (if 0x20 \<in> set bs then words (drop (Suc (length (takeWhile (\<lambda>b. b \<noteq> 0x20) bs))) bs) else [])"
  by (induction bs) auto

lemma word_at_0: "word_at 0 line = takeWhile (\<lambda>b. b \<noteq> 0x20) line"
  by (simp add: word_at_def words_hd [symmetric] hd_conv_nth)

lemma word_at_Suc: "word_at (Suc k) line = word_at k (drop (Suc (length (word_at 0 line))) line)"
proof (cases "0x20 \<in> set line")
  case True
  have "words line = hd (words line) # tl (words line)" by simp
  then have "words line = word_at 0 line # words (drop (Suc (length (word_at 0 line))) line)"
    unfolding word_at_0 words_hd words_tl using True by simp
  then show ?thesis unfolding word_at_def [of "Suc k"] word_at_def [of k] by simp
next
  case False
  then have "word_at 0 line = line" unfolding word_at_0 by (auto simp: takeWhile_eq_all_conv)
  moreover have "length (words line) = 1"
    using False words_tl [of line] by (metis One_nat_def length_0_conv length_tl words_not_Nil Suc_pred length_greater_0_conv)
  ultimately show ?thesis by (auto simp: word_at_def)
qed

lemma scan_arg_word:
  assumes "stringn_wf a" "unat (slen a) + length bs \<le> 256"
  obtains a' where "scan_arg bs a = Inr a'" "stringn_wf a'" "content a' = content a @ takeWhile (\<lambda>b. b \<noteq> 0x20) bs"
    "unat (slen a') = unat (slen a) + length (takeWhile (\<lambda>b. b \<noteq> 0x20) bs)"
  using assms
proof (induction bs arbitrary: a thesis)
  case (Cons b bs)
  show ?case
  proof (cases "b = 0x20")
    case True
    then show ?thesis using Cons.prems(1) [of a] Cons.prems(2) by simp
  next
    case False
    obtain a1 where a1: "stringn_appendchar b a = Inr a1" "stringn_wf a1" "content a1 = content a @ [b]"
        "unat (slen a1) = Suc (unat (slen a))"
      by (rule appendchar_wf [where c = b, OF Cons.prems(2)]) (use Cons.prems(3) in simp_all)
    obtain a2 where "scan_arg bs a1 = Inr a2" "stringn_wf a2" "content a2 = content a1 @ takeWhile (\<lambda>b. b \<noteq> 0x20) bs"
        "unat (slen a2) = unat (slen a1) + length (takeWhile (\<lambda>b. b \<noteq> 0x20) bs)"
      by (rule Cons.IH [OF _ a1(2)]) (use Cons.prems(3) a1(4) in auto)
    then show ?thesis using Cons.prems(1) [of a2] a1 False by simp
  qed
qed simp

lemma scan_word:
  assumes "length line \<le> 256"
  obtains a where "scan_arg line stringn_create = Inr a" "stringn_wf a" "content a = word_at 0 line"
    "unat (slen a) = length (word_at 0 line)"
proof -
  obtain a where "scan_arg line stringn_create = Inr a" "stringn_wf a" "content a = content stringn_create @ takeWhile (\<lambda>b. b \<noteq> 0x20) line"
      "unat (slen a) = unat (slen stringn_create) + length (takeWhile (\<lambda>b. b \<noteq> 0x20) line)"
    by (rule scan_arg_word [OF create_wf(1)]) (use assms in simp_all)
  then show ?thesis using that [of a] by (simp add: word_at_0)
qed

text \<open>
  C36: The three argument loops never leave their buffers and split the input line at its spaces: the
  arguments are the first three words of the line, empty where the line has fewer, and the rest of
  the line is ignored.
\<close>

theorem arguments_are_words:
  assumes "stringn_wf input"
  shows "\<exists>a0 a1 a2. shell_arguments input = Inr (a0, a1, a2) \<and> stringn_wf a0 \<and> stringn_wf a1 \<and> stringn_wf a2 \<and>
    content a0 = word_at 0 (content input) \<and> content a1 = word_at 1 (content input) \<and> content a2 = word_at 2 (content input)"
proof -
  let ?l = "content input"
  let ?l1 = "drop (Suc (length (word_at 0 ?l))) ?l"
  let ?l2 = "drop (Suc (length (word_at 0 ?l1))) ?l1"
  have len: "length ?l \<le> 256" using assms by (simp add: content_def stringn_wf_def)
  obtain a0 where a0: "scan_arg ?l stringn_create = Inr a0" "stringn_wf a0" "content a0 = word_at 0 ?l" "unat (slen a0) = length (word_at 0 ?l)"
    by (rule scan_word [OF len])
  obtain a1 where a1: "scan_arg ?l1 stringn_create = Inr a1" "stringn_wf a1" "content a1 = word_at 0 ?l1" "unat (slen a1) = length (word_at 0 ?l1)"
    by (rule scan_word [of ?l1]) (use len in simp_all)
  obtain a2 where a2: "scan_arg ?l2 stringn_create = Inr a2" "stringn_wf a2" "content a2 = word_at 0 ?l2"
    by (rule scan_word [of ?l2]) (use len in simp_all)
  have "drop (unat (slen a0) + (1 + unat (slen a1)) + 1) ?l = ?l2" by (simp add: a0(4) a1(4) add.commute)
  then have "shell_arguments input = Inr (a0, a1, a2)"
    using a0(1,4) a1(1) a2(1) by (simp add: shell_arguments_def content_def [symmetric] Let_def)
  then show ?thesis using a0 a1 a2 by (simp add: word_at_Suc numeral_2_eq_2)
qed

section \<open>kill\<close>

lemma digit_strcmp:
  assumes "typed n"
  shows "strcmp (sbuf n) [48 + of_nat d, 0] = Inr (content n = c_string [48 + of_nat d, 0])"
proof -
  have "length (sbuf n) = 256" using assms by (simp add: typed_def stringn_wf_def)
  then show ?thesis using strcmp_eq [of "sbuf n" "[48 + of_nat d, 0]"] typed_sbuf [OF assms] by simp
qed

lemma digit_nonzero: "d < 10 \<Longrightarrow> c_string [48 + of_nat d, 0] = [48 + of_nat d :: u8]"
proof -
  assume "d < 10"
  then have "unat (of_nat (48 + d) :: u8) = 48 + d" by (intro unat_of_nat_less) simp
  then have "(of_nat (48 + d) :: u8) \<noteq> 0" by (metis add_is_0 numeral_neq_zero unsigned_0)
  then show ?thesis by simp
qed

lemma seqc_skips: "(\<And>c s. c \<in> set cs \<Longrightarrow> c s = Some (Inr ((), s))) \<Longrightarrow> seqc cs s = Some (Inr ((), s))"
proof (induction cs)
  case (Cons c cs)
  have "c s = Some (Inr ((), s))" by (rule Cons.prems) simp
  moreover have "seqc cs s = Some (Inr ((), s))" by (rule Cons.IH) (rule Cons.prems, simp)
  ultimately show ?case by (simp add: seqc_simps bindc_def)
qed (simp add: seqc_simps)

lemma seqc_map_skips: "(\<And>d s. d \<in> set ds \<Longrightarrow> f d s = Some (Inr ((), s))) \<Longrightarrow> seqc (map f ds) s = Some (Inr ((), s))"
  by (rule seqc_skips) (metis (no_types, lifting) imageE list.set_map)

lemma seqc_append: "seqc (cs @ ds) s = bindc (seqc cs) (\<lambda>_. seqc ds) s"
proof (induction cs arbitrary: s)
  case (Cons c cs)
  then show ?case by (auto simp: seqc_simps bindc_def split: option.split sum.split intro!: arg_cong2 [where f = Option.bind])
qed (simp add: seqc_simps bindc_def)

lemma digit_inj: "d < 10 \<Longrightarrow> d' < 10 \<Longrightarrow> [48 + of_nat d :: u8] = [48 + of_nat d'] \<longleftrightarrow> d = d'"
  by (simp add: of_nat_word_eq_iff)

lemma kill_step:
  assumes "typed n" "d < 10"
  shows "bindc (lift (strcmp (sbuf n) [48 + of_nat d, 0])) (\<lambda>same. if same then sys_kill_process junk (of_nat d) else return ()) s =
    (if content n = [48 + of_nat d] then sys_kill_process junk (of_nat d) s else Some (Inr ((), s)))"
  using digit_strcmp [OF assms(1), of d] digit_nonzero [OF assms(2)] by (simp add: bindc_def lift_def return_def)

text \<open>
  \<open>kill\<close> with one decimal digit ends exactly the process with that number, and with any other
  text it does nothing: the processes 10 to 15 cannot be killed from the shell.
\<close>

theorem kill_outcome:
  assumes "typed n"
  shows "(\<forall>d < 10. content n = [48 + of_nat d] \<longrightarrow> kill junk n s = sys_kill_process junk (of_nat d) s) \<and>
    ((\<forall>d < 10. content n \<noteq> [48 + of_nat d]) \<longrightarrow> kill junk n s = Some (Inr ((), s)))"
proof (intro conjI allI impI)
  let ?c = "\<lambda>d. bindc (lift (strcmp (sbuf n) [48 + of_nat d, 0])) (\<lambda>same. if same then sys_kill_process junk (of_nat d) else return ())"
  have kill: "kill junk n = seqc (map ?c [0..<10])" by (simp only: kill_def)
  fix d :: nat assume d: "d < 10" "content n = [48 + of_nat d]"
  have other: "?c e s = Some (Inr ((), s))" if "e < 10" "e \<noteq> d" for e s
    using kill_step [OF assms that(1)] that(2) d digit_inj [OF d(1) that(1)] by simp
  have split: "[0..<10] = [0..<d] @ d # [Suc d..<10]"
    using d(1) upt_add_eq_append [of 0 d "10 - d"] upt_conv_Cons [of d 10] by simp
  have l: "seqc (map ?c [0..<d]) s = Some (Inr ((), s))" for s by (rule seqc_map_skips, rule other) (use d(1) in simp_all)
  have r: "seqc (map ?c [Suc d..<10]) s = Some (Inr ((), s))" for s by (rule seqc_map_skips, rule other) simp_all
  have "kill junk n s = bindc (?c d) (\<lambda>_. seqc (map ?c [Suc d..<10])) s"
    unfolding kill split map_append list.map seqc_append bindc_step [OF l] seqc_simps(2) ..
  also have "\<dots> = ?c d s" unfolding bindc_def [of "?c d"] r by (cases "?c d s") (auto split: sum.split)
  finally show "kill junk n s = sys_kill_process junk (of_nat d) s" using kill_step [OF assms d(1)] d(2) by simp
next
  let ?c = "\<lambda>d. bindc (lift (strcmp (sbuf n) [48 + of_nat d, 0])) (\<lambda>same. if same then sys_kill_process junk (of_nat d) else return ())"
  assume "\<forall>d < 10. content n \<noteq> [48 + of_nat d]"
  then have "?c e s = Some (Inr ((), s))" if "e < 10" for e s using kill_step [OF assms that] that by auto
  then show "kill junk n s = Some (Inr ((), s))" unfolding kill_def by (intro seqc_map_skips) simp
qed

section \<open>Out of bounds\<close>

text \<open>
  \<open>cat\<close> and \<open>exec\<close>, unlike the other commands, do not check the length of the name they copy
  into the 8 bytes of a request: a longer name is written past them.
\<close>

theorem long_names_overflow:
  assumes "8 < unat (slen n)"
  shows "cat junk n s = Some (Inl OutOfBounds) \<and> exec n s = Some (Inl OutOfBounds)"
  using assms by (simp_all add: cat_def exec_def fill_name_long bindc_def lift_def)

text \<open>
  Deleting the only character of the input makes the shell read the byte before its input buffer:
  the loop looks at \<open>buf[len - 1]\<close> after it has set \<open>len\<close> to 0.
\<close>

theorem first_backspace_out_of_bounds:
  assumes "slen (shell_input s) = 1" "past_limit junk s" "left_limit (kbd (display s)) < col (kbd (display s))"
  shows "shell_backspace junk press s = Some (Inl OutOfBounds)"
proof -
  let ?k = "kbd (display s)"
  obtain t where "puts \<lparr> buf = [8], count = 1, fg_color = 0x7, bg_color = 0 \<rparr> (display s) = Inr t"
    using assms(3) by (simp add: puts_def puts_char_def puts_backspace_def Let_def)
  then have p: "putchar_key 8 s = Some (Inr ((), s\<lparr> display := t \<rparr>))"
    by (simp add: putchar_key_def sys_putchar_def sys_puts_def update_def)
  have "unat (- 1 :: u32) = 2 ^ 32 - 1" by (simp add: unsigned_minus_1_eq_mask mask_eq_exp_minus_1)
  then have "delete_step s = Some (Inl OutOfBounds)"
    using assms(1) p by (simp add: delete_step_def bindc_def gets_def modify_def lift_def drop_last_def last_char_def)
  then have "delete_loop junk press s = Some (Inl OutOfBounds)"
    by (subst delete_loop.simps) (rule bindc_fault)
  then show ?thesis
    using assms(1,2) by (simp add: shell_backspace_def bindc_def gets_def lift_def last_char_def)
qed

section \<open>Examples\<close>

definition typed_string :: "string \<Rightarrow> StringN" where
  "typed_string t = \<lparr> sbuf = map of_char t @ replicate (256 - length t) 0, slen = of_nat (length t) \<rparr>"

definition demo_shell :: "StringN \<Rightarrow> shell" where
  "demo_shell input = \<lparr> kern = initial_kernel boot_paging fresh_fs (\<lambda>_. 0), display = shell_tty 5 4, shell_open = True,
     currentDir = table_at fresh_fs 2, currentDirPath = typed_string ''./'', currentDirCluster = 2,
     rootDir = table_at fresh_fs 2, rootDirPath = typed_string ''./'', rootDirCluster = 2, cp_dest_cluster = 2,
     is_open = True, del_limit = 3, shell_row = 5, shell_input = input \<rparr>"

lemma typed_string_simps:
  assumes "length t \<le> 256"
  shows "stringn_wf (typed_string t)" "content (typed_string t) = map of_char t" "unat (slen (typed_string t)) = length t"
proof -
  show l: "unat (slen (typed_string t)) = length t" using assms by (simp add: typed_string_def unat_of_nat_less)
  show "stringn_wf (typed_string t)" "content (typed_string t) = map of_char t"
    using assms l by (simp_all add: stringn_wf_def content_def typed_string_def)
qed

lemma demo_display: "display_ok (demo_shell input)"
  using shell_tty_window [of 5 4] by (simp add: display_ok_def demo_shell_def cursor_inside_def shell_tty_def keyboard_state_def)

definition docs_entry :: FAT32DirectoryEntry where
  "docs_entry = zero_entry\<lparr> de_name := map of_char ''docs'' @ [0, 0, 0, 0] \<rparr>"

definition docs_table :: dir_table where
  "docs_table = zero_table[0 := docs_entry, 1 := zero_entry\<lparr> cluster_low := 2 \<rparr>]"

definition docs_disk :: disk where
  "docs_disk = write_clusters (encode_dir_table docs_table) 3 1 (\<lambda>_. 0)"

lemma docs_disk_path: "dir_path docs_disk 3 [map of_char ''docs'']"
proof -
  have w: "table_wf docs_table" unfolding docs_table_def
    by (intro table_wf_update) (simp_all add: docs_entry_def entry_wf_def zero_entry_def)
  then have t: "decode_dir_table (read_clusters docs_disk 3 1) = docs_table"
    by (simp add: docs_disk_def codec)
  have "length zero_table = 64" by (simp add: zero_table_def)
  then have e: "docs_table ! 0 = docs_entry" "entry_cluster (docs_table ! 1) = ROOT_CLUSTER_NUMBER"
    by (simp_all add: docs_table_def entry_cluster_def zero_entry_def)
  have n: "0 \<in> set (name_ptr docs_entry)" "length (name_ptr docs_entry) = 32" "c_string (name_ptr docs_entry) = map of_char ''docs''"
    by (simp_all add: name_ptr_def encode_entry_def docs_entry_def zero_entry_def c_string_def)
  have "dir_path docs_disk 3 ([] @ [c_string (name_ptr (docs_table ! 0))])"
    by (rule dir_path_child [OF _ t [symmetric]]) (use e n dir_path_root [of docs_disk] in simp_all)
  then show ?thesis by (simp add: e n(3))
qed

theorem create_path_correct_witness:
  "\<exists>p. create_path_recursive docs_disk 3 = Some (Inr p) \<and> content p = map of_char ''./docs/''"
  using create_path_correct [OF docs_disk_path] by (auto simp: path_text_def)

theorem mkdir_outcome_witness:
  "\<exists>s'. mkdir (typed_string ''docs'') (demo_shell stringn_create) = Some (Inr ((), s')) \<and>
     currentDir s' = table_at (fs_of s') 2"
proof -
  have "typed (typed_string ''docs'')" "unat (slen (typed_string ''docs'')) \<le> 8"
    using typed_string_simps [of "''docs''"] by (simp_all add: typed_def plain_def)
  from mkdir_outcome [OF demo_display this, of stringn_create] show ?thesis
    using fs_wf_fresh by (fastforce simp: demo_shell_def initial_kernel_def data_cluster_def)
qed

theorem arguments_are_words_witness:
  "\<exists>a0 a1 a2. shell_arguments (typed_string ''cp a b'') = Inr (a0, a1, a2) \<and>
     content a0 = map of_char ''cp'' \<and> content a1 = map of_char ''a'' \<and> content a2 = map of_char ''b''"
  using arguments_are_words [OF typed_string_simps(1) [of "''cp a b''"]] typed_string_simps(2) [of "''cp a b''"]
  by (auto simp: word_at_def)

theorem kill_outcome_witness:
  "\<forall>junk. kill junk (typed_string ''3'') (demo_shell stringn_create) = sys_kill_process junk 3 (demo_shell stringn_create) \<and>
     kill junk (typed_string ''12'') (demo_shell stringn_create) = Some (Inr ((), demo_shell stringn_create))"
proof (intro allI conjI)
  fix junk
  have t: "typed (typed_string ''3'')" "typed (typed_string ''12'')"
    using typed_string_simps [of "''3''"] typed_string_simps [of "''12''"] by (simp_all add: typed_def plain_def)
  have "content (typed_string ''3'') = [48 + of_nat 3]" using typed_string_simps(2) [of "''3''"] by simp
  then show "kill junk (typed_string ''3'') (demo_shell stringn_create) = sys_kill_process junk 3 (demo_shell stringn_create)"
    using kill_outcome [OF t(1), of junk "demo_shell stringn_create", THEN conjunct1, rule_format, of 3] by simp
  have "length (content (typed_string ''12'')) = 2" using typed_string_simps(2) [of "''12''"] by simp
  then have "\<forall>d < 10. content (typed_string ''12'') \<noteq> [48 + of_nat d]" by auto
  then show "kill junk (typed_string ''12'') (demo_shell stringn_create) = Some (Inr ((), demo_shell stringn_create))"
    using kill_outcome [OF t(2), of junk "demo_shell stringn_create"] by blast
qed

theorem long_names_overflow_witness:
  "cat [] (typed_string ''notes.txt'') (demo_shell stringn_create) = Some (Inl OutOfBounds)"
  using long_names_overflow [of "typed_string ''notes.txt''"] typed_string_simps(3) [of "''notes.txt''"] by simp

theorem first_backspace_out_of_bounds_witness:
  "shell_backspace (0, 0) False (demo_shell (typed_string ''l'')) = Some (Inl OutOfBounds)"
proof (rule first_backspace_out_of_bounds)
  show "slen (shell_input (demo_shell (typed_string ''l''))) = 1" by (simp add: demo_shell_def typed_string_def)
  show "past_limit (0, 0) (demo_shell (typed_string ''l''))"
    by (simp add: past_limit_def demo_shell_def cursor_int_def shell_tty_def keyboard_state_def)
  show "left_limit (kbd (display (demo_shell (typed_string ''l'')))) < col (kbd (display (demo_shell (typed_string ''l''))))"
    by (simp add: demo_shell_def shell_tty_def keyboard_state_def)
qed

end
