(* ===== verification/Inserter.thy ===== *)
theory Inserter
  imports Fat32_Tree
begin

text \<open>
  \<open>main\<close> of \<open>src/src/user-program/external-inserter.c\<close>, the program of the host that puts a file into
  a disk image with the kernel's own driver.  The files of the host are a map from names to bytes.  The
  bytes of allocated memory that no file has filled are arguments; allocation succeeds, and a file that
  can be read can be written.  Offsets beyond the 4 MiB of the image are not faults here: no cluster of
  the allocation table lies there.
\<close>

section \<open>The library functions it uses\<close>

record host =
  host_files :: "string \<Rightarrow> u8 list option"
  host_output :: string

abbreviation (input) IMAGE_SIZE :: nat where "IMAGE_SIZE \<equiv> 4 * 1024 * 1024"

definition print_line :: "string \<Rightarrow> host \<Rightarrow> host" where
  "print_line l h = h\<lparr> host_output := host_output h @ l @ [CHR 0x0A] \<rparr>"

fun decimal :: "nat \<Rightarrow> string" where
  "decimal n = (if n < 10 then [] else decimal (n div 10)) @ [char_of (48 + n mod 10)]"

declare decimal.simps [simp del]

definition is_space :: "char \<Rightarrow> bool" where
  "is_space c \<longleftrightarrow> c = CHR 0x20 \<or> 9 \<le> (of_char c :: nat) \<and> of_char c \<le> (13 :: nat)"

definition is_digit :: "char \<Rightarrow> bool" where
  "is_digit c \<longleftrightarrow> 48 \<le> (of_char c :: nat) \<and> of_char c \<le> (57 :: nat)"

text \<open>\<open>%8s\<close>: the first eight characters of the first word, written over \<open>old\<close> with a null character after
  them, unless there is no word.  The null character after eight characters falls on the first byte of
  the next field, \<open>ext\<close>, which is null already.\<close>

definition scan_string8 :: "string \<Rightarrow> u8 list \<Rightarrow> u8 list" where
  "scan_string8 l old =
     (let w = take 8 (takeWhile (\<lambda>c. \<not> is_space c) (dropWhile is_space l))
      in if w = [] then old else take (length old) (map of_char w @ 0 # drop (Suc (length w)) old))"

text \<open>\<open>%u\<close>: an optional sign and digits; without digits the variable keeps its value.  A number that
  does not fit is undefined in C and a fault here.\<close>

definition scan_unsigned :: "string \<Rightarrow> u32 \<Rightarrow> fault + u32" where
  "scan_unsigned l old =
     (let t = dropWhile is_space l;
          minus = (t \<noteq> [] \<and> hd t = CHR ''-'');
          ds = takeWhile is_digit (if t \<noteq> [] \<and> hd t \<in> {CHR ''-'', CHR ''+''} then tl t else t);
          v = foldl (\<lambda>v c. 10 * v + (of_char c - 48)) (0 :: nat) ds
      in if ds = [] then Inr old else if 2 ^ 32 \<le> v then Inl OutOfBounds
         else Inr (if minus then - of_nat v else of_nat v))"

section \<open>The program\<close>

definition inserter_request :: "string list \<Rightarrow> nat \<Rightarrow> fault + FAT32DriverRequest" where
  "inserter_request argv sz =
     and_then (scan_unsigned (argv ! 2) 0) (\<lambda>parent. Inr
       \<lparr> rq_buf = 0, rq_name = scan_string8 (argv ! 1) (replicate 8 0), rq_ext = replicate 3 0,
         parent_cluster_number = parent, buffer_size = of_nat sz \<rparr>)"

definition result_message :: "int \<Rightarrow> string" where
  "result_message retcode =
     (if retcode = 0 then ''Write success''
      else if retcode = 1 then ''Error: File/folder name already exist''
      else if retcode = 2 then ''Error: Invalid parent cluster''
      else ''Error: Unknown error'')"

text \<open>Both buffers start at address 0 of a memory of their own.\<close>

definition inserter_main :: "mem \<Rightarrow> mem \<Rightarrow> string list \<Rightarrow> host \<Rightarrow> (fault + int \<times> host) option" where
  "inserter_main junk_image junk_file argv h =
     (if length argv < 4
      then Some (Inr (1, print_line ''inserter: ./inserter <file to insert> <parent cluster index> <storage>'' h))
      else case host_files h (argv ! 3) of
        None \<Rightarrow> Some (Inl BadPointer)
      | Some img \<Rightarrow>
          let image_storage = store_bytes 0 (take IMAGE_SIZE img) junk_image;
              (file_buffer, sz) = (case host_files h (argv ! 1) of
                  None \<Rightarrow> (junk_file, 0)
                | Some b \<Rightarrow> (store_bytes 0 (take IMAGE_SIZE b) junk_file, length b));
              h1 = print_line (''Filename : '' @ argv ! 1) h;
              h2 = print_line (''Filesize : '' @ decimal sz @ '' bytes'') h1;
              s = initialize_filesystem_fat32
                    \<lparr> cluster_map = replicate CLUSTER_MAP_SIZE 0, dir_table_buf = zero_table,
                      cluster_buf = replicate CLUSTER_SIZE 0, storage = image_storage \<rparr>
          in case inserter_request argv sz of
               Inl e \<Rightarrow> Some (Inl e)
             | Inr request \<Rightarrow> map_option (\<lambda>r. and_then r (\<lambda>(_, s1).
                 and_then (write_fat32 load_bytes file_buffer request s1) (\<lambda>(retcode, s2).
                   let written = (host_files h2)(argv ! 3 \<mapsto> load_bytes 0 IMAGE_SIZE (storage s2))
                   in Inr (0, (print_line (result_message retcode) h2)\<lparr> host_files := written \<rparr>))))
               (delete request s))"

end
