(* ===== verification/Inserter_Props.thy ===== *)
theory Inserter_Props
  imports Inserter
begin

text \<open>
  What the program leaves in the image: the file it was given, found by any later mount of the image,
  beside the files that were there, in a directory tree that is still sound.
\<close>

section \<open>Disks with the same image\<close>

text \<open>Two states of the driver that differ only outside the clusters of the allocation table.\<close>

definition agrees :: "fat32 \<Rightarrow> fat32 \<Rightarrow> bool" where
  "agrees s t \<longleftrightarrow> cluster_map t = cluster_map s \<and> read_blocks (storage t) 0 1 = read_blocks (storage s) 0 1 \<and>
     (\<forall>c. unat c < 512 \<longrightarrow> read_clusters (storage t) c 1 = read_clusters (storage s) c 1)"

lemma image_byte: "load_bytes 0 n d = load_bytes 0 n d' \<Longrightarrow> unat a < n \<Longrightarrow> d a = d' a"
  using nth_load_bytes [of "unat a" n 0 d] nth_load_bytes [of "unat a" n 0 d'] by simp

lemma image_blocks:
  assumes "load_bytes 0 n d = load_bytes 0 n d'" and "512 * (unat lba + unat k) \<le> n" and "unat lba + unat k \<le> 2 ^ 23"
  shows "read_blocks d lba k = read_blocks d' lba k"
  unfolding read_blocks_load
proof (rule nth_equalityI)
  fix i assume "i < length (load_bytes (512 * lba) (512 * unat k) d)"
  then have i: "i < 512 * unat k" by simp
  then have "unat (512 * lba + of_nat i) < n" using offset_in_run [OF assms(3) i] assms(2) by simp
  with i show "load_bytes (512 * lba) (512 * unat k) d ! i = load_bytes (512 * lba) (512 * unat k) d' ! i"
    using image_byte [OF assms(1)] by simp
qed simp

lemma image_cluster:
  assumes "load_bytes 0 IMAGE_SIZE d = load_bytes 0 IMAGE_SIZE d'" and "unat c < 512"
  shows "read_clusters d c 1 = read_clusters d' c 1"
proof -
  have "unat (4 * c) = 4 * unat c" using assms(2) by (simp add: image.unat_4_times)
  with assms(2) show ?thesis by (simp add: cluster_defs) (rule image_blocks [OF assms(1)]; simp)
qed

text \<open>Any later mount of the image finds the state the image was written from.\<close>

lemma mount_agrees:
  assumes wf: "fs_wf s" and same: "load_bytes 0 IMAGE_SIZE (storage f) = load_bytes 0 IMAGE_SIZE (storage s)"
  shows "agrees s (initialize_filesystem_fat32 f)"
proof -
  let ?t = "f\<lparr> cluster_map := cluster_map s \<rparr>"
  have a: "agrees s ?t"
    unfolding agrees_def using image_cluster [OF same] image_blocks [OF same, of 0 1] by simp
  then have "fs_wf ?t" using wf by (simp add: agrees_def fs_wf_def)
  from remount [OF this, of "cluster_map f"] a show ?thesis by simp
qed

section \<open>What agreeing states share\<close>

lemma read_chain_agrees:
  assumes "read_chain st s buf c k m = Some r" and "agrees s t"
  shows "read_chain st t buf c k m = Some r"
proof -
  have "\<forall>t. agrees s t \<longrightarrow> read_chain st t buf c k m = Some r"
  proof (rule read_chain.raw_induct [where P = "\<lambda>st s buf c k m r. \<forall>t. agrees s t \<longrightarrow> read_chain st t buf c k m = Some r",
        OF _ assms(1)])
    fix rc st s buf c k m r
    assume IH: "\<And>st s buf c k m r. rc st s buf c k m = Some r \<Longrightarrow> \<forall>t. agrees s t \<longrightarrow> read_chain st t buf c k m = Some r"
      and eq: "(if c = FAT32_FAT_END_OF_FILE then Some (Inr m)
        else if unat c < CLUSTER_MAP_SIZE
        then rc st s buf (cluster_map s ! unat c) (k + 1) (st (buf + k * 2048) (read_clusters (storage s) c 1) m)
        else Some (Inl OutOfBounds)) = Some r"
    show "\<forall>t. agrees s t \<longrightarrow> read_chain st t buf c k m = Some r"
      using eq IH by (subst read_chain.simps) (auto simp: agrees_def split: if_splits)
  qed
  with assms(2) show ?thesis by blast
qed

lemma read_agrees:
  assumes a: "agrees s t" and r: "read st s rq m = Some (Inr (0, m'))"
  shows "read st t rq m = Some (Inr (0, m'))"
proof -
  have p: "unat (parent_cluster_number rq) < 512" using r by (auto simp: read_def split: if_splits)
  then have "table_at t (parent_cluster_number rq) = table_at s (parent_cluster_number rq)" "cluster_map t = cluster_map s"
    using a by (simp_all add: agrees_def)
  with r p show ?thesis
    by (auto simp: read_def dest!: read_chain_agrees [OF _ a] split: option.splits if_splits)
qed

lemma fs_inv_agrees:
  assumes a: "agrees s t" and inv: "fs_inv D s"
  shows "fs_inv D t"
proof -
  have tab: "table_at t d = table_at s d" if "d \<in> D" for d
    using a dir_okD(1) [OF fs_invD(3) [OF inv that]] by (simp add: agrees_def)
  have cm: "cluster_map t = cluster_map s" using a by (simp add: agrees_def)
  have live: "live D t = live D s" using tab by (auto simp: live_def)
  have owns: "owns t di cs \<longleftrightarrow> owns s di cs" if "di \<in> live D s" for di cs
    using that tab by (auto simp: owns_def cm live_def)
  have "fs_wf t" using fs_invD(1) [OF inv] a by (simp add: agrees_def fs_wf_def)
  moreover have "dir_ok t d" if "d \<in> D" for d
    using fs_invD(3) [OF inv that] unfolding dir_ok_def cm tab [OF that] .
  moreover have "entry_ok D t di" if "di \<in> live D s" for di
  proof -
    have "table_at t (fst di) = table_at s (fst di)" using that tab by (auto simp: live_def)
    then show ?thesis using fs_invD(4) [OF inv that] owns [OF that] by (simp add: entry_ok_def)
  qed
  ultimately show ?thesis
    unfolding fs_inv_def live using fs_invD(2) [OF inv] fs_invD(5) [OF inv] owns by auto
qed

section \<open>Replacing a file\<close>

lemma kept_directory:
  assumes inv: "fs_inv D s" and rq: "valid_request D rq" and del: "delete rq s = Some (Inr (0, s'))"
    and d: "d \<in> D" "cluster_map s' ! unat d = FAT32_FAT_END_OF_FILE"
  shows "d \<in> dirs_after_delete D rq s"
proof -
  obtain i cs where rem: "removes D s rq i cs" and s': "s' = deleted rq i cs s"
    using delete_in_tree [OF inv rq del] by blast
  have "cluster_map s' ! unat d = 0" if "d \<in> set cs"
    using that dir_okD(1) [OF fs_invD(3) [OF inv d(1)]] fs_wf_length [OF fs_invD(1) [OF inv]]
    by (simp add: s' deleted_def clear_chain_nth)
  moreover have "dirs_after_delete D rq s = D - set cs"
    using rem by (simp add: dirs_after_delete_def removes_def owns_def)
  ultimately show ?thesis using d by auto
qed

lemma read_success_eof: "read st s rq m = Some (Inr (0, m')) \<Longrightarrow> cluster_map s ! unat (parent_cluster_number rq) = FAT32_FAT_END_OF_FILE"
  by (auto simp: read_def split: if_splits)

lemma valid_request_dirs: "valid_request D rq \<Longrightarrow> parent_cluster_number rq \<in> D' \<Longrightarrow> valid_request D' rq"
  by (simp add: valid_request_def)

lemma deletion_keeps:
  assumes inv: "fs_inv D s" and rq: "valid_request D rq" and del: "delete rq s = Some (Inr (r, s'))"
  obtains D' where "fs_inv D' s'"
    and "\<And>d. d \<in> D \<Longrightarrow> cluster_map s' ! unat d = FAT32_FAT_END_OF_FILE \<Longrightarrow> d \<in> D'"
proof (cases "r = 0")
  case True
  then show ?thesis using that fs_inv_delete [OF inv rq] kept_directory [OF inv rq] del by blast
next
  case False
  then have "s' = s" using delete_returns [OF inv rq] del by auto
  then show ?thesis using that [OF inv [folded \<open>s' = s\<close>]] by simp
qed

lemma replace_keeps:
  assumes inv: "fs_inv D s" and rq: "valid_request D rq" and del: "delete rq s = Some (Inr (r, s1))"
    and w: "write_fat32 load_bytes mm rq s1 = Inr (code, s2)"
  shows "\<exists>D'. fs_inv D' s2"
    and "valid_request D rq2 \<Longrightarrow>
      (parent_cluster_number rq2, rq_name rq2, rq_ext rq2) \<noteq> (parent_cluster_number rq, rq_name rq, rq_ext rq) \<Longrightarrow>
      read st s rq2 m = Some (Inr (0, m')) \<Longrightarrow> read st s2 rq2 m = Some (Inr (0, m'))"
proof -
  obtain D1 where D1: "fs_inv D1 s1" and kept: "\<And>d. d \<in> D \<Longrightarrow> cluster_map s1 ! unat d = FAT32_FAT_END_OF_FILE \<Longrightarrow> d \<in> D1"
    using deletion_keeps [OF inv rq del] by blast
  have v: "valid_request D1 rq" if "code = 0"
    using write_success(2) [OF w [unfolded that]] kept valid_requestD(1) [OF rq] valid_request_dirs [OF rq] by blast
  show "\<exists>D'. fs_inv D' s2"
  proof (cases "code = 0")
    case True
    then show ?thesis using fs_inv_write [where ld = load_bytes and m = mm, OF D1 _ v [OF True]] w by auto
  qed (use D1 write_failure_unchanged [OF w] in auto)
  assume rq2: "valid_request D rq2" and r2: "read st s rq2 m = Some (Inr (0, m'))"
    and other: "(parent_cluster_number rq2, rq_name rq2, rq_ext rq2) \<noteq> (parent_cluster_number rq, rq_name rq, rq_ext rq)"
  have r1: "read st s1 rq2 m = Some (Inr (0, m'))"
  proof (cases "r = 0")
    case True
    then show ?thesis using delete_isolates [OF inv rq rq2 _ _ r2] del other by auto
  next
    case False
    then show ?thesis using delete_returns [OF inv rq] del r2 by auto
  qed
  have v2: "valid_request D1 rq2"
    using kept [OF valid_requestD(1) [OF rq2] read_success_eof [OF r1]] by (rule valid_request_dirs [OF rq2])
  show "read st s2 rq2 m = Some (Inr (0, m'))"
  proof (cases "code = 0")
    case True
    then show ?thesis using write_isolates [OF D1 v [OF True] v2 _ r1] w by blast
  qed (use r1 write_failure_unchanged [OF w] in simp)
qed

lemma required_exact:
  assumes "0 < unat (buffer_size rq)" and "unat (buffer_size rq) \<le> 255 * 2048"
  shows "unat (required_clusters rq) = clusters_of (buffer_size rq)" and "required_clusters rq \<noteq> 0"
proof -
  have "buffer_size rq \<noteq> 0" using assms(1) by auto
  then show "unat (required_clusters rq) = clusters_of (buffer_size rq)"
    using clusters_needed_exact(2) [OF assms(2)] by (simp add: required_clusters_def)
  moreover have "0 < clusters_of (buffer_size rq)" using assms(1) by (simp add: clusters_of_def)
  ultimately show "required_clusters rq \<noteq> 0" by (metis unsigned_0 less_irrefl)
qed

text \<open>A new name is accepted when the directory has an unused entry and the table enough clusters.\<close>

definition accepts :: "fat32 \<Rightarrow> FAT32DriverRequest \<Rightarrow> bool" where
  "accepts s rq \<longleftrightarrow> (\<forall>e \<in> set (table_at s (parent_cluster_number rq)). \<not> entry_matches rq e) \<and>
     (\<exists>e \<in> set (tl (table_at s (parent_cluster_number rq))). \<not> in_use e) \<and>
     clusters_of (buffer_size rq) \<le> free_count (cluster_map s)"

lemma accepts_agrees: "agrees s t \<Longrightarrow> unat (parent_cluster_number rq) < 512 \<Longrightarrow> accepts t rq \<longleftrightarrow> accepts s rq"
  by (simp add: accepts_def agrees_def)

lemma accepted_replacement:
  assumes inv: "fs_inv D s" and rq: "valid_request D rq" and ok: "accepts s rq"
    and sz: "0 < unat (buffer_size rq)" "unat (buffer_size rq) \<le> 255 * 2048"
  shows "delete rq s = Some (Inr (1, s))" and "\<exists>s'. write_fat32 ld m rq s = Inr (0, s')"
proof -
  let ?p = "parent_cluster_number rq"
  note ok' = dir_okD(1,2) [OF fs_invD(3) [OF inv valid_requestD(1) [OF rq]]]
  have "length (table_at s ?p) = 64" using table_wf_at [of s ?p] by (simp add: table_wf_def)
  then have "victim rq s = None"
    unfolding victim_def find_upt_None using ok unfolding accepts_def by (metis nth_mem)
  then show "delete rq s = Some (Inr (1, s))" using ok' by (simp add: delete_eq)
  show "\<exists>s'. write_fat32 ld m rq s = Inr (0, s')"
    using write_returns [of rq ld m s] required_exact [OF sz] ok ok' by (auto simp: accepts_def free_count_def not_less simp del: upt.simps)
qed

text \<open>So is the name of a file or an empty directory, which is removed first and gives its clusters back.\<close>

definition replaces :: "fat32 \<Rightarrow> FAT32DriverRequest \<Rightarrow> bool" where
  "replaces s rq \<longleftrightarrow> (\<exists>i cs. victim rq s = Some i \<and> deletable s (table_at s (parent_cluster_number rq) ! i) \<and>
     owns s (parent_cluster_number rq, i) cs \<and> (\<forall>j < 2. \<not> entry_matches rq (table_at s (parent_cluster_number rq) ! j)) \<and>
     clusters_of (buffer_size rq) \<le> free_count (cluster_map s) + length cs)"

lemma replaces_agrees:
  assumes a: "agrees s t" and inv: "fs_inv D s" and rq: "valid_request D rq" and rep: "replaces s rq"
  shows "replaces t rq"
proof -
  have tab: "table_at t d = table_at s d" if "data_cluster d" for d using a that by (simp add: agrees_def)
  note p = tab [OF dir_okD(1) [OF fs_invD(3) [OF inv valid_requestD(1) [OF rq]]]]
  have cm: "cluster_map t = cluster_map s" using a by (simp add: agrees_def)
  obtain i cs where r: "victim rq s = Some i" "deletable s (table_at s (parent_cluster_number rq) ! i)"
      "owns s (parent_cluster_number rq, i) cs" "\<forall>j < 2. \<not> entry_matches rq (table_at s (parent_cluster_number rq) ! j)"
      "clusters_of (buffer_size rq) \<le> free_count (cluster_map s) + length cs"
    using rep unfolding replaces_def by blast
  have "data_cluster (hd cs)" using r(3) is_chain_data [of "cluster_map s" cs "hd cs"] by (cases cs) (auto simp: owns_def)
  then have "table_at t (hd cs) = table_at s (hd cs)" by (rule tab)
  then have "deletable t (table_at t (parent_cluster_number rq) ! i)"
    using r(2,3) unfolding deletable_def owns_def p by simp
  moreover have "victim rq t = Some i" "owns t (parent_cluster_number rq, i) cs"
    using r(1,3) by (simp_all add: victim_def owns_def p cm)
  ultimately show ?thesis using r(4,5) unfolding replaces_def p cm by blast
qed

lemma replaces_accepts:
  assumes inv: "fs_inv D s" and rq: "valid_request D rq" and rep: "replaces s rq"
  shows "\<exists>s1 D1. delete rq s = Some (Inr (0, s1)) \<and> fs_inv D1 s1 \<and> valid_request D1 rq \<and> accepts s1 rq"
proof -
  let ?p = "parent_cluster_number rq" and ?t = "table_at s (parent_cluster_number rq)"
  note dir = fs_invD(3) [OF inv valid_requestD(1) [OF rq]]
  obtain i ds where i: "victim rq s = Some i" "deletable s (?t ! i)" "owns s (?p, i) ds"
      and new: "\<forall>j < 2. \<not> entry_matches rq (?t ! j)" "clusters_of (buffer_size rq) \<le> free_count (cluster_map s) + length ds"
    using rep unfolding replaces_def by blast
  have "delete rq s = Some (Inr (0, deleted rq i ds s))"
    using delete_succeeds [OF fs_invD(1) [OF inv] dir_okD(1,2) [OF dir] i(1,2)] i(3) by (simp add: owns_def)
  from this delete_in_tree [OF inv rq this] obtain cs s1 where
      del: "delete rq s = Some (Inr (0, s1))" and rem: "removes D s rq i cs" and s1: "s1 = deleted rq i cs s"
    using i(1) by (auto simp: removes_def)
  have cs: "is_chain (cluster_map s) cs" "length cs = length ds"
    using rem owns_unique [OF i(3)] by (auto simp: removes_def owns_def)
  note vl = victim_live [OF inv rq i(1)]
  have t1: "table_at s1 ?p = ?t[i := zero_entry]" unfolding s1 by (rule removed_tables(5) [OF inv rq rem])
  have len: "length ?t = 64" using table_wf_at [of s ?p] by (simp add: table_wf_def)
  have only: "\<not> entry_matches rq (?t ! j)" if "j < 64" "j \<noteq> i" for j
  proof
    assume m: "entry_matches rq (?t ! j)"
    then have "2 \<le> j" using new(1) by (meson not_le)
    moreover from this have "in_use (?t ! j)" using dir_okD(4) [OF dir, of j] that(1) m valid_requestD(4) [OF rq] by metis
    ultimately have "j = i"
      using dir_okD(5) [OF dir, of j i] that(1) vl m valid_requestD(2,3) [OF rq] table_wf_nth [OF table_wf_at, of j s ?p]
        table_wf_nth [OF table_wf_at, of i s ?p] by (simp add: live_def entry_matches_eq)
    with that(2) show False by simp
  qed
  have "\<forall>e \<in> set (table_at s1 ?p). \<not> entry_matches rq e"
  proof
    fix e assume "e \<in> set (table_at s1 ?p)"
    then obtain j where "j < 64" "e = ?t[i := zero_entry] ! j" unfolding t1 in_set_conv_nth using len by auto
    then show "\<not> entry_matches rq e" using only valid_requestD(4) [OF rq] len by (cases "j = i") auto
  qed
  moreover have "\<exists>e \<in> set (tl (table_at s1 ?p)). \<not> in_use e"
  proof (rule bexI [where x = zero_entry])
    have "tl (table_at s1 ?p) ! (i - 1) = zero_entry" "i - 1 < length (tl (table_at s1 ?p))"
      unfolding t1 using vl(2,3) len by (simp_all add: nth_tl)
    then show "zero_entry \<in> set (tl (table_at s1 ?p))" by (metis nth_mem)
  qed (simp add: zero_entry_def)
  moreover have "clusters_of (buffer_size rq) \<le> free_count (cluster_map s1)"
    using new(2) cs free_count_clear [OF cs(1) fs_wf_length [OF fs_invD(1) [OF inv]]] by (simp add: s1 deleted_def)
  ultimately have "accepts s1 rq" unfolding accepts_def by blast
  moreover have "cluster_map s1 ! unat ?p = FAT32_FAT_END_OF_FILE"
    using removed_tables(2) [OF inv rq rem _ dir_okD(1) [OF dir]] dir_okD(2) [OF dir] rem by (simp add: s1 removes_def)
  ultimately show ?thesis
    using del fs_inv_delete [OF inv rq del] kept_directory [OF inv rq del valid_requestD(1) [OF rq]] valid_request_dirs [OF rq] by blast
qed

lemma replacement_succeeds:
  assumes inv: "fs_inv D s" and rq: "valid_request D rq"
    and sz: "0 < unat (buffer_size rq)" "unat (buffer_size rq) \<le> 255 * 2048" and ok: "accepts s rq \<or> replaces s rq"
    and del: "delete rq s = Some (Inr (r, s1))" and w: "write_fat32 ld m rq s1 = Inr (code, s2)"
  shows "code = 0"
proof (cases "replaces s rq")
  case True
  from replaces_accepts [OF inv rq this] obtain D1 where "fs_inv D1 s1" "valid_request D1 rq" "accepts s1 rq"
    using del by auto
  from accepted_replacement(2) [OF this sz, of ld m] show ?thesis using w by auto
next
  case False
  with ok have "accepts s rq" by simp
  from accepted_replacement(1) [OF inv rq this sz] accepted_replacement(2) [OF inv rq this sz, of ld m]
  show ?thesis using del w by auto
qed

lemma write_result:
  assumes "unat (parent_cluster_number rq) < 512" and "required_clusters rq \<noteq> 0"
  obtains code s' where "write_fat32 ld m rq s = Inr (code, s')"
proof -
  obtain x where "write_fat32 ld m rq s = Inr x" using write_returns [OF assms, of ld m s] by blast
  then show ?thesis using that by (cases x) simp
qed

lemma replaced_read:
  assumes inv: "fs_inv D s" and rq: "valid_request D rq" and del: "delete rq s = Some (Inr (r, s1))"
    and w: "write_fat32 load_bytes mm rq s1 = Inr (0, s2)"
    and sz: "0 < unat (buffer_size rq)" "unat (buffer_size rq) \<le> 255 * 2048"
    and n: "2048 * clusters_of (buffer_size rq) \<le> unat n"
  shows "read store_bytes s2 (rq\<lparr> rq_buf := q, buffer_size := n \<rparr>) m =
    Some (Inr (0, store_bytes q (load_bytes (rq_buf rq) (2048 * clusters_of (buffer_size rq)) mm) m))"
proof -
  obtain D1 where "fs_inv D1 s1" using deletion_keeps [OF inv rq del] by blast
  from fs_invD(1) [OF this] show ?thesis
    using dir_okD(1) [OF fs_invD(3) [OF inv valid_requestD(1) [OF rq]]] valid_requestD(2,3) [OF rq] sz w n
    by (intro read_after_write)
qed

lemma stored_prefix:
  assumes "unat sz \<le> 255 * 2048"
  shows "load_bytes q (unat sz) (store_bytes q (load_bytes p (2048 * clusters_of sz) mm) m) = load_bytes p (unat sz) mm"
proof -
  let ?bs = "load_bytes p (2048 * clusters_of sz) mm"
  have "load_bytes q (2048 * clusters_of sz) (store_bytes q ?bs m) = ?bs"
    using load_store_same [of ?bs q m] clusters_needed_exact(3) [OF assms] by simp
  then show ?thesis using load_prefix [OF size_le_clusters] by metis
qed

section \<open>The program\<close>

lemma inserter_request_size:
  assumes "inserter_request argv sz = Inr rq"
  shows "buffer_size rq = of_nat sz" and "rq_buf rq = 0"
  using assms by (auto simp: inserter_request_def split: sum.splits)

lemma print_line_files [simp]: "host_files (print_line l h) = host_files h"
  by (simp add: print_line_def)

lemma inserter_main_run:
  assumes "4 \<le> length argv" and "host_files h (argv ! 3) = Some img" and "host_files h (argv ! 1) = Some b"
    and rq: "inserter_request argv (length b) = Inr rq"
    and s: "s = initialize_filesystem_fat32 \<lparr> cluster_map = replicate CLUSTER_MAP_SIZE 0, dir_table_buf = zero_table,
      cluster_buf = replicate CLUSTER_SIZE 0, storage = store_bytes 0 (take IMAGE_SIZE img) junk_image \<rparr>"
    and del: "delete rq s = Some (Inr (r, s1))"
    and w: "write_fat32 load_bytes (store_bytes 0 (take IMAGE_SIZE b) junk_file) rq s1 = Inr (code, s2)"
  shows "inserter_main junk_image junk_file argv h = Some (Inr (0, (print_line (result_message code)
    (print_line (''Filesize : '' @ decimal (length b) @ '' bytes'') (print_line (''Filename : '' @ argv ! 1) h)))\<lparr>
      host_files := (host_files h)(argv ! 3 \<mapsto> load_bytes 0 IMAGE_SIZE (storage s2)) \<rparr>))"
proof -
  have "\<not> length argv < 4" using assms(1) by simp
  then show ?thesis
    unfolding inserter_main_def
    by (simp only: if_False Let_def assms(2,3) option.case prod.case rq sum.case s [symmetric] del option.map and_then.simps w print_line_files)
qed

text \<open>
  C9: Inserting a file into an image.  Given an image of 4 MiB that holds a sound directory tree, a file
  of 1 to 255 clusters, and a directory of that tree, the program ends with exit code 0, and its last
  message tells the outcome: success whenever the name is new, the directory has an unused entry and
  enough clusters are free, or the name is that of a file or an empty directory and enough clusters are
  free once it is removed.  Any kernel that mounts the new image finds a sound tree again; after
  success it reads exactly the bytes of the file under that name, and in every case every other file it
  could read before.
\<close>

theorem insert_outcome:
  assumes args: "4 \<le> length argv" "inserter_request argv (length b) = Inr rq" "valid_request D rq"
    and img: "host_files h (argv ! 3) = Some img" "length img = IMAGE_SIZE"
    and tree: "fs_inv D s" "load_bytes 0 IMAGE_SIZE (storage s) = img"
    and b: "host_files h (argv ! 1) = Some b" "0 < length b" "length b \<le> 255 * 2048"
  shows "\<exists>code img' h'. inserter_main junk_image junk_file argv h = Some (Inr (0, h')) \<and>
    host_files h' = (host_files h)(argv ! 3 \<mapsto> img') \<and> length img' = IMAGE_SIZE \<and>
    host_output h' = host_output (print_line (result_message code) (print_line (''Filesize : '' @ decimal (length b) @ '' bytes'')
      (print_line (''Filename : '' @ argv ! 1) h))) \<and>
    (accepts s rq \<or> replaces s rq \<longrightarrow> code = 0) \<and>
    (\<forall>f. load_bytes 0 IMAGE_SIZE (storage f) = img' \<longrightarrow>
      (\<exists>D'. fs_inv D' (initialize_filesystem_fat32 f)) \<and>
      (code = 0 \<longrightarrow> (\<forall>q n m. 2048 * clusters_of (buffer_size rq) \<le> unat n \<longrightarrow>
        (\<exists>m'. read store_bytes (initialize_filesystem_fat32 f) (rq\<lparr> rq_buf := q, buffer_size := n \<rparr>) m = Some (Inr (0, m')) \<and>
           load_bytes q (length b) m' = b))) \<and>
      (\<forall>rq2 m m'. valid_request D rq2 \<and>
        (parent_cluster_number rq2, rq_name rq2, rq_ext rq2) \<noteq> (parent_cluster_number rq, rq_name rq, rq_ext rq) \<and>
        read store_bytes s rq2 m = Some (Inr (0, m')) \<longrightarrow>
        read store_bytes (initialize_filesystem_fat32 f) rq2 m = Some (Inr (0, m'))))"
proof -
  let ?f0 = "\<lparr> cluster_map = replicate CLUSTER_MAP_SIZE 0, dir_table_buf = zero_table,
    cluster_buf = replicate CLUSTER_SIZE 0, storage = store_bytes 0 (take IMAGE_SIZE img) junk_image \<rparr>"
  let ?m = "store_bytes 0 (take IMAGE_SIZE b) junk_file"
  have "load_bytes 0 IMAGE_SIZE (storage ?f0) = load_bytes 0 IMAGE_SIZE (storage s)"
    unfolding tree(2) using load_store_same [of img 0 junk_image] img(2) by simp
  from mount_agrees [OF fs_invD(1) [OF tree(1)] this] have "agrees s (initialize_filesystem_fat32 ?f0)" .
  then obtain u where u: "u = initialize_filesystem_fat32 ?f0" and ag: "agrees s u" by blast
  have inv: "fs_inv D u" by (rule fs_inv_agrees [OF ag tree(1)])
  note p = dir_okD(1) [OF fs_invD(3) [OF tree(1) valid_requestD(1) [OF args(3)]]]
  have sz: "0 < unat (buffer_size rq)" "unat (buffer_size rq) \<le> 255 * 2048" "unat (buffer_size rq) = length b"
    using b inserter_request_size [OF args(2)] by (simp_all add: unat_of_nat take_bit_nat_eq_self)
  have req: "required_clusters rq \<noteq> 0" by (rule required_exact(2) [OF sz(1,2)])
  obtain r s1 where del: "delete rq u = Some (Inr (r, s1))" using delete_returns [OF inv args(3)] by blast
  obtain code s2 where w: "write_fat32 load_bytes ?m rq s1 = Inr (code, s2)"
    by (rule write_result [OF data_cluster_simps(1) [OF p] req])
  let ?h' = "(print_line (result_message code) (print_line (''Filesize : '' @ decimal (length b) @ '' bytes'')
    (print_line (''Filename : '' @ argv ! 1) h)))\<lparr> host_files := (host_files h)(argv ! 3 \<mapsto> load_bytes 0 IMAGE_SIZE (storage s2)) \<rparr>"
  have main: "inserter_main junk_image junk_file argv h = Some (Inr (0, ?h'))"
    by (rule inserter_main_run [OF args(1) img(1) b(1) args(2) u del w])
  have new: "code = 0" if "accepts s rq \<or> replaces s rq"
    using replacement_succeeds [OF inv args(3) sz(1,2) _ del w] that replaces_agrees [OF ag tree(1) args(3)]
      accepts_agrees [OF ag data_cluster_simps(1) [OF p]] by blast
  note keeps = replace_keeps [OF inv args(3) del w]
  have later: "agrees s2 (initialize_filesystem_fat32 f)"
    if "load_bytes 0 IMAGE_SIZE (storage f) = load_bytes 0 IMAGE_SIZE (storage s2)" for f
    using mount_agrees [OF _ that] keeps(1) fs_invD(1) by blast
  have found: "\<exists>m'. read store_bytes s2 (rq\<lparr> rq_buf := q, buffer_size := n \<rparr>) m = Some (Inr (0, m')) \<and> load_bytes q (length b) m' = b"
    if "code = 0" "2048 * clusters_of (buffer_size rq) \<le> unat n" for q n m
    using replaced_read [OF inv args(3) del w [unfolded that(1)] sz(1,2) that(2)] stored_prefix [OF sz(2)]
      inserter_request_size(2) [OF args(2)] load_store_same [of b 0 junk_file] b(3) by (simp add: sz(3))
  have after: "(\<exists>D'. fs_inv D' t) \<and>
      (code = 0 \<longrightarrow> (\<forall>q n m. 2048 * clusters_of (buffer_size rq) \<le> unat n \<longrightarrow>
        (\<exists>m'. read store_bytes t (rq\<lparr> rq_buf := q, buffer_size := n \<rparr>) m = Some (Inr (0, m')) \<and> load_bytes q (length b) m' = b))) \<and>
      (\<forall>rq2 m m'. valid_request D rq2 \<and>
        (parent_cluster_number rq2, rq_name rq2, rq_ext rq2) \<noteq> (parent_cluster_number rq, rq_name rq, rq_ext rq) \<and>
        read store_bytes s rq2 m = Some (Inr (0, m')) \<longrightarrow> read store_bytes t rq2 m = Some (Inr (0, m')))"
    if t: "agrees s2 t" for t
    using keeps(1) fs_inv_agrees [OF t] found read_agrees [OF t] keeps(2) read_agrees [OF ag] by meson
  have out: "host_files ?h' = (host_files h)(argv ! 3 \<mapsto> load_bytes 0 IMAGE_SIZE (storage s2))"
    "host_output ?h' = host_output (print_line (result_message code) (print_line (''Filesize : '' @ decimal (length b) @ '' bytes'')
      (print_line (''Filename : '' @ argv ! 1) h)))" by simp_all
  show ?thesis
    by (intro exI conjI, rule main, rule out(1), rule length_load_bytes, rule out(2), rule impI, erule new,
        intro allI impI, rule after, rule later)
qed

section \<open>An inserted greeting\<close>

definition hello_host :: host where
  "hello_host = \<lparr> host_files = [''hello'' \<mapsto> map of_char ''hello, world'', ''disk'' \<mapsto> load_bytes 0 IMAGE_SIZE (storage fresh_fs)],
     host_output = [] \<rparr>"

definition hello_request :: FAT32DriverRequest where
  "hello_request = \<lparr> rq_buf = 0, rq_name = map of_char ''hello'' @ [0, 0, 0], rq_ext = [0, 0, 0],
     parent_cluster_number = 2, buffer_size = 12 \<rparr>"

lemma hello_args: "inserter_request [''inserter'', ''hello'', ''2'', ''disk''] 12 = Inr hello_request"
proof -
  have "scan_unsigned ''2'' 0 = Inr 2" by (simp add: scan_unsigned_def is_space_def is_digit_def)
  moreover have "scan_string8 ''hello'' (replicate 8 0) = map of_char ''hello'' @ [0, 0, 0]"
    by (simp add: scan_string8_def is_space_def numeral_eq_Suc)
  ultimately show ?thesis by (simp add: inserter_request_def hello_request_def numeral_3_eq_3)
qed

lemma hello_accepted: "accepts fresh_fs hello_request"
proof -
  obtain d where t: "table_at fresh_fs 2 = init_directory_table d zero_table root_name 2"
    using create_table_init unfolding fresh_fs_def by blast
  have nth: "table_at fresh_fs 2 ! i = zero_entry" if "2 \<le> i" "i < 64" for i
    using that unfolding t by (rule init_table_nth(3))
  have l: "length (table_at fresh_fs 2) = 64" using table_wf_at [of fresh_fs 2] by (simp add: table_wf_def)
  have "de_name (table_at fresh_fs 2 ! 0) ! 0 = 114"
    unfolding t init_table_nth(1) by (simp add: root_name_def)
  then have "de_name (table_at fresh_fs 2 ! i) ! 0 \<noteq> 104" if "i < 64" for i
    using fresh_second_name nth [of i] that by (cases "i < 2") (auto simp: less_2_cases_iff zero_entry_def)
  then have "\<not> entry_matches hello_request (table_at fresh_fs 2 ! i)" if "i < 64" for i
    using that table_wf_nth [OF table_wf_at, of i fresh_fs 2] by (force simp: entry_matches_eq hello_request_def)
  then have "\<forall>e \<in> set (table_at fresh_fs 2). \<not> entry_matches hello_request e" using l by (auto simp: in_set_conv_nth)
  moreover have "\<exists>e \<in> set (tl (table_at fresh_fs 2)). \<not> in_use e"
  proof (rule bexI [where x = zero_entry])
    have "tl (table_at fresh_fs 2) ! 1 = zero_entry" "1 < length (tl (table_at fresh_fs 2))"
      using nth [of 2] l by (simp_all add: nth_tl numeral_2_eq_2)
    then show "zero_entry \<in> set (tl (table_at fresh_fs 2))" by (metis nth_mem)
  qed (simp add: zero_entry_def)
  moreover have "clusters_of 12 \<le> free_count (cluster_map fresh_fs)"
    using create_free_count [of blank_fs] by (simp add: clusters_of_def free_count_def fresh_fs_def del: upt.simps)
  ultimately show ?thesis by (simp add: accepts_def hello_request_def)
qed

theorem insert_outcome_witness:
  "\<exists>h' f m. inserter_main (\<lambda>_. 0) (\<lambda>_. 0) [''inserter'', ''hello'', ''2'', ''disk''] hello_host = Some (Inr (0, h')) \<and>
     host_output h' = ''Filename : hello'' @ [CHR 0x0A] @ ''Filesize : 12 bytes'' @ [CHR 0x0A] @ ''Write success'' @ [CHR 0x0A] \<and>
     host_files h' ''disk'' = Some (load_bytes 0 IMAGE_SIZE (storage f)) \<and>
     read store_bytes (initialize_filesystem_fat32 f) (hello_request\<lparr> rq_buf := 0x1000, buffer_size := 2048 \<rparr>) (\<lambda>_. 0) = Some (Inr (0, m)) \<and>
     load_bytes 0x1000 12 m = map of_char ''hello, world''"
proof -
  let ?args = "[''inserter'', ''hello'', ''2'', ''disk'']" and ?b = "map of_char ''hello, world'' :: u8 list"
  have v: "valid_request {2} hello_request" unfolding valid_request_def hello_request_def by simp code_simp
  have inv: "fs_inv {2} fresh_fs" unfolding fresh_fs_def by (rule fs_inv_format)
  have len: "length ?b = 12" by simp
  have parts: "host_files hello_host (?args ! 3) = Some (load_bytes 0 IMAGE_SIZE (storage fresh_fs))"
    "host_files hello_host (?args ! 1) = Some ?b" "inserter_request ?args (length ?b) = Inr hello_request"
    unfolding len by (simp_all add: hello_host_def hello_args)
  have sizes: "length (load_bytes 0 IMAGE_SIZE (storage fresh_fs)) = IMAGE_SIZE" "4 \<le> length ?args" "0 < length ?b" "length ?b \<le> 255 * 2048"
    by simp_all
  obtain code img h' where h': "inserter_main (\<lambda>_. 0) (\<lambda>_. 0) ?args hello_host = Some (Inr (0, h'))"
      "host_files h' = (host_files hello_host)(?args ! 3 \<mapsto> img)" "length img = IMAGE_SIZE"
      "host_output h' = host_output (print_line (result_message code) (print_line (''Filesize : '' @ decimal (length ?b) @ '' bytes'')
        (print_line (''Filename : '' @ ?args ! 1) hello_host)))"
      "accepts fresh_fs hello_request \<or> replaces fresh_fs hello_request \<longrightarrow> code = 0"
    and found: "\<And>f. load_bytes 0 IMAGE_SIZE (storage f) = img \<Longrightarrow> code = 0 \<longrightarrow>
        (\<forall>q n m. 2048 * clusters_of (buffer_size hello_request) \<le> unat n \<longrightarrow>
        (\<exists>m'. read store_bytes (initialize_filesystem_fat32 f) (hello_request\<lparr> rq_buf := q, buffer_size := n \<rparr>) m = Some (Inr (0, m')) \<and>
           load_bytes q (length ?b) m' = ?b))"
    using insert_outcome [OF sizes(2) parts(3) v parts(1) sizes(1) inv refl parts(2) sizes(3,4), of "\<lambda>_. 0" "\<lambda>_. 0"]
    by (elim exE conjE) blast
  let ?f = "fresh_fs\<lparr> storage := store_bytes 0 img (\<lambda>_. 0) \<rparr>"
  have f: "load_bytes 0 IMAGE_SIZE (storage ?f) = img" using load_store_same [of img 0 "\<lambda>_. 0"] h'(3) by simp
  have n: "2048 * clusters_of (buffer_size hello_request) \<le> unat (2048 :: u32)" by (simp add: hello_request_def clusters_of_def)
  have ok: "code = 0" using h'(5) hello_accepted by simp
  then obtain m where "read store_bytes (initialize_filesystem_fat32 ?f) (hello_request\<lparr> rq_buf := 0x1000, buffer_size := 2048 \<rparr>) (\<lambda>_. 0) =
      Some (Inr (0, m))" "load_bytes 0x1000 12 m = ?b"
    using found [OF f, unfolded len] n by blast
  moreover have "host_output h' = ''Filename : hello'' @ [CHR 0x0A] @ ''Filesize : 12 bytes'' @ [CHR 0x0A] @ ''Write success'' @ [CHR 0x0A]"
    unfolding h'(4) ok by (simp add: print_line_def hello_host_def result_message_def) (code_simp)
  moreover have "host_files h' ''disk'' = Some (load_bytes 0 IMAGE_SIZE (storage ?f))" unfolding h'(2) f by simp
  ultimately show ?thesis using h'(1) by (intro exI [of _ h'] exI [of _ ?f] exI [of _ m]) simp
qed

end
