(* ===== verification/Rtc.thy ===== *)
theory Rtc
  imports Prelude
begin

text \<open>
  Reading the real-time clock, \<open>src/src/cmos.c\<close>.  The chip is an argument: \<open>chip n r\<close> is the byte its
  data port gives at the \<open>n\<close>-th read when register \<open>r\<close> is selected.  The operations take the number of
  reads made so far and return it advanced.  The loops wait for the chip; they are partial functions,
  \<open>None\<close> for no end.
\<close>

section \<open>Definitions\<close>

type_synonym rtc_chip = "nat \<Rightarrow> u8 \<Rightarrow> u8"

record SyscallClockTimeArgs =
  hour :: u8
  minute :: u8
  second :: u8
  day :: u8
  month :: u8
  year :: u8

definition get_update_in_progress_flag :: "rtc_chip \<Rightarrow> nat \<Rightarrow> u8 \<times> nat" where
  "get_update_in_progress_flag chip n = (chip n 0x0A AND 0x80, Suc n)"

definition get_RTC_register :: "rtc_chip \<Rightarrow> u8 \<Rightarrow> nat \<Rightarrow> u8 \<times> nat" where
  "get_RTC_register chip reg n = (chip n reg, Suc n)"

definition bcd_to_binary :: "u8 \<Rightarrow> u8" where
  "bcd_to_binary bcd =
     ucast (drop_bit 1 (ucast (bcd AND 0xF0) :: u32) + drop_bit 3 (ucast (bcd AND 0xF0)) + ucast (bcd AND 0xF))"

partial_function (option) wait_update :: "rtc_chip \<Rightarrow> nat \<Rightarrow> nat option" where
  "wait_update chip n =
     (let (busy, n') = get_update_in_progress_flag chip n in if busy \<noteq> 0 then wait_update chip n' else Some n')"

text \<open>The five registers that both places read, in the order they are read.\<close>

definition read_time :: "rtc_chip \<Rightarrow> SyscallClockTimeArgs \<Rightarrow> nat \<Rightarrow> SyscallClockTimeArgs \<times> nat" where
  "read_time chip ct n0 =
     (let (s, n1) = get_RTC_register chip 0x00 n0;
          (m, n2) = get_RTC_register chip 0x02 n1;
          (h, n3) = get_RTC_register chip 0x04 n2;
          (d, n4) = get_RTC_register chip 0x07 n3;
          (mo, n5) = get_RTC_register chip 0x08 n4
      in (ct\<lparr> second := s, minute := m, hour := h, day := d, month := mo \<rparr>, n5))"

partial_function (option) rtc_loop ::
  "rtc_chip \<Rightarrow> SyscallClockTimeArgs \<Rightarrow> nat \<Rightarrow> (SyscallClockTimeArgs \<times> nat) option" where
  "rtc_loop chip clock_time n =
     Option.bind (wait_update chip n) (\<lambda>n1.
       let (ct, n2) = read_time chip clock_time n1
       in if second clock_time \<noteq> second ct \<or> minute clock_time \<noteq> minute ct \<or> hour clock_time \<noteq> hour ct \<or>
             day clock_time \<noteq> day ct \<or> month clock_time \<noteq> month ct \<or> year clock_time \<noteq> year ct
          then rtc_loop chip ct n2 else Some (ct, n2))"

definition bcd_field :: "u8 \<Rightarrow> u8" where
  "bcd_field v = (v AND 0x0F) + (v div 16) * 10"

definition convert_bcd :: "u8 \<Rightarrow> SyscallClockTimeArgs \<Rightarrow> SyscallClockTimeArgs" where
  "convert_bcd registerB ct =
     (if registerB AND 0x04 = 0
      then ct\<lparr> second := bcd_field (second ct), minute := bcd_field (minute ct),
             hour := ((hour ct AND 0x0F) + ((hour ct AND 0x70) div 16) * 10) OR (hour ct AND 0x80),
             day := bcd_field (day ct), month := bcd_field (month ct), year := bcd_field (year ct) \<rparr>
      else ct)"

definition convert_12_hours :: "u8 \<Rightarrow> SyscallClockTimeArgs \<Rightarrow> SyscallClockTimeArgs" where
  "convert_12_hours registerB ct =
     (if registerB AND 0x02 = 0 \<and> hour ct AND 0x80 \<noteq> 0
      then ct\<lparr> hour := ((hour ct AND 0x7F) + 12) mod 24 \<rparr> else ct)"

definition read_rtc :: "rtc_chip \<Rightarrow> SyscallClockTimeArgs \<Rightarrow> nat \<Rightarrow> (SyscallClockTimeArgs \<times> nat) option" where
  "read_rtc chip clock_time n =
     Option.bind (wait_update chip n) (\<lambda>n1.
       let (ct1, n2) = read_time chip clock_time n1;
           (y, n3) = get_RTC_register chip 0x09 n2
       in Option.bind (rtc_loop chip (ct1\<lparr> year := y \<rparr>) n3) (\<lambda>(ct2, n4).
            let (registerB, n5) = get_RTC_register chip 0x0B n4
            in Some (convert_12_hours registerB (convert_bcd registerB ct2), n5)))"

section \<open>Conversions\<close>

text \<open>What the chip holds for a number, and for an hour, in the mode that register B selects.\<close>

definition encode_number :: "u8 \<Rightarrow> nat \<Rightarrow> u8" where
  "encode_number b v = (if b AND 0x04 = 0 then of_nat (16 * (v div 10) + v mod 10) else of_nat v)"

definition encode_hour :: "u8 \<Rightarrow> nat \<Rightarrow> u8" where
  "encode_hour b h =
     (if b AND 0x02 \<noteq> 0 then encode_number b h
      else encode_number b (if h mod 12 = 0 then 12 else h mod 12) OR (if 12 \<le> h then 0x80 else 0))"

lemma bcd_fields: "list_all (\<lambda>v. bcd_field (of_nat (16 * (v div 10) + v mod 10)) = of_nat v) [0..<100]"
  by code_simp

lemma bcd_field_number: "v < 100 \<Longrightarrow> bcd_field (of_nat (16 * (v div 10) + v mod 10)) = of_nat v"
  using bcd_fields by (auto simp: list_all_iff simp del: upt.simps upt_rec_numeral)

lemma bcd_field_all: "bcd_to_binary b = bcd_field b"
proof -
  have "list_all (\<lambda>n. bcd_to_binary (of_nat n) = bcd_field (of_nat n)) [0..<64]"
    "list_all (\<lambda>n. bcd_to_binary (of_nat n) = bcd_field (of_nat n)) [64..<128]"
    by code_simp+
  moreover have "list_all (\<lambda>n. bcd_to_binary (of_nat n) = bcd_field (of_nat n)) [128..<192]"
    "list_all (\<lambda>n. bcd_to_binary (of_nat n) = bcd_field (of_nat n)) [192..<256]"
    by code_simp+
  ultimately have "list_all (\<lambda>n. bcd_to_binary (of_nat n) = bcd_field (of_nat n)) [0..<256]"
    unfolding list_all_iff set_upt by (metis atLeastLessThan_iff not_le)
  moreover have "unat b < 2 ^ LENGTH(8)" by (rule unsigned_less)
  then have "unat b \<in> set [0..<256]" by simp
  ultimately have "bcd_to_binary (of_nat (unat b)) = bcd_field (of_nat (unat b))" unfolding list_all_iff by (rule bspec)
  then show ?thesis by simp
qed

text \<open>
  The two ways in which the code turns a byte of two decimal digits into a number, by shifts in
  \<open>bcd_to_binary\<close> and by a division in \<open>read_rtc\<close>, agree on every byte.
\<close>

theorem bcd_conversions_agree: "bcd_to_binary b = bcd_field b"
  by (rule bcd_field_all)

text \<open>Hours: in the 12-hour mode midnight and noon come out exchanged.\<close>

definition shown_hour :: "u8 \<Rightarrow> nat \<Rightarrow> nat" where
  "shown_hour b h = (if b AND 0x02 = 0 \<and> h mod 12 = 0 then 12 - h else h)"

definition converted_hour :: "bool \<Rightarrow> bool \<Rightarrow> u8 \<Rightarrow> u8" where
  "converted_hour bcd twelve v =
     (let v' = (if bcd then ((v AND 0x0F) + ((v AND 0x70) div 16) * 10) OR (v AND 0x80) else v)
      in if twelve \<and> v' AND 0x80 \<noteq> 0 then ((v' AND 0x7F) + 12) mod 24 else v')"

lemma converted_hours:
  "list_all (\<lambda>b. list_all (\<lambda>h. converted_hour (b AND 0x04 = 0) (b AND 0x02 = 0) (encode_hour b h) = of_nat (shown_hour b h)) [0..<24]) [0, 2, 4, 6]"
  by code_simp

lemma mode_cases: "\<exists>m \<in> {0, 2, 4, 6}. (b AND 0x02 = (0 :: u8)) = (m AND 0x02 = (0 :: u8)) \<and> (b AND 0x04 = (0 :: u8)) = (m AND 0x04 = (0 :: u8))"
  by (cases "b AND 0x02 = 0"; cases "b AND 0x04 = 0") auto

lemma hour_of_chip:
  assumes "h < 24"
  shows "converted_hour (b AND 0x04 = 0) (b AND 0x02 = 0) (encode_hour b h) = of_nat (shown_hour b h)"
proof -
  from mode_cases [of b]
  obtain m :: u8 where m: "m \<in> {0, 2, 4, 6}" "(b AND 0x02 = (0 :: u8)) = (m AND 0x02 = 0)" "(b AND 0x04 = (0 :: u8)) = (m AND 0x04 = 0)"
    by (elim bexE conjE)
  have e: "encode_hour b h = encode_hour m h" "shown_hour b h = shown_hour m h"
    using m(2,3) by (simp_all only: encode_hour_def encode_number_def shown_hour_def)
  have i: "m \<in> set [0, 2, 4, 6]" "h \<in> set [0..<24]" using assms m(1) by (simp_all del: upt_rec_numeral)
  show ?thesis unfolding e m(2,3) by (rule bspec [OF bspec [OF converted_hours [unfolded list_all_iff] i(1)] i(2)])
qed

lemma number_of_chip:
  assumes "v < 100"
  shows "(if b AND 0x04 = 0 then bcd_field (encode_number b v) else encode_number b v) = of_nat v"
proof (cases "b AND 0x04 = 0")
  case True
  then show ?thesis using bcd_field_number [OF assms] unfolding encode_number_def by (simp only: if_True simp_thms)
next
  case False
  then show ?thesis by (simp add: encode_number_def)
qed

section \<open>Reading\<close>

lemma wait_free: "chip n 0x0A AND 0x80 = 0 \<Longrightarrow> wait_update chip n = Some (Suc n)"
  by (subst wait_update.simps) (simp add: get_update_in_progress_flag_def)

lemma hour_of_conversions:
  "hour (convert_bcd b ct) = (if b AND 0x04 = 0 then ((hour ct AND 0x0F) + ((hour ct AND 0x70) div 16) * 10) OR (hour ct AND 0x80) else hour ct)"
  "hour (convert_12_hours b ct) = (if b AND 0x02 = 0 \<and> hour ct AND 0x80 \<noteq> 0 then ((hour ct AND 0x7F) + 12) mod 24 else hour ct)"
  by (simp_all add: convert_12_hours_def convert_bcd_def)

lemma convert_hour:
  "hour (convert_12_hours b (convert_bcd b ct)) = converted_hour (b AND 0x04 = 0) (b AND 0x02 = 0) (hour ct)"
  unfolding converted_hour_def Let_def hour_of_conversions ..

lemma convert_others:
  "second (convert_12_hours b (convert_bcd b ct)) = (if b AND 0x04 = 0 then bcd_field (second ct) else second ct)"
  "minute (convert_12_hours b (convert_bcd b ct)) = (if b AND 0x04 = 0 then bcd_field (minute ct) else minute ct)"
  "day (convert_12_hours b (convert_bcd b ct)) = (if b AND 0x04 = 0 then bcd_field (day ct) else day ct)"
  "month (convert_12_hours b (convert_bcd b ct)) = (if b AND 0x04 = 0 then bcd_field (month ct) else month ct)"
  "year (convert_12_hours b (convert_bcd b ct)) = (if b AND 0x04 = 0 then bcd_field (year ct) else year ct)"
  by (simp_all add: convert_12_hours_def convert_bcd_def)

definition now :: "nat \<Rightarrow> nat \<Rightarrow> nat \<Rightarrow> nat \<Rightarrow> nat \<Rightarrow> nat \<Rightarrow> SyscallClockTimeArgs" where
  "now h m s d mo y = \<lparr> hour = of_nat h, minute = of_nat m, second = of_nat s, day = of_nat d, month = of_nat mo, year = of_nat y \<rparr>"

lemma read_steady:
  assumes "\<forall>n. chip n = regs" "regs 0x0A AND 0x80 = 0"
    and "regs 0x00 = encode_number (regs 0x0B) s" "regs 0x02 = encode_number (regs 0x0B) m" "regs 0x04 = encode_hour (regs 0x0B) h"
    and "regs 0x07 = encode_number (regs 0x0B) d" "regs 0x08 = encode_number (regs 0x0B) mo" "regs 0x09 = encode_number (regs 0x0B) y"
    and "s < 60" "m < 60" "h < 24" "d < 32" "mo < 13" "y < 100"
  shows "read_rtc chip ct n = Some (now (if regs 0x0B AND 0x02 = 0 \<and> h mod 12 = 0 then 12 - h else h) m s d mo y, n + 14)"
proof -
  let ?raw = "\<lparr> hour = regs 0x04, minute = regs 0x02, second = regs 0x00, day = regs 0x07, month = regs 0x08, year = regs 0x09 \<rparr>"
  let ?b = "regs 0x0B"
  have chip: "chip k = regs" for k using assms(1) by simp
  have w: "wait_update chip k = Some (Suc k)" for k using wait_free [of chip k] assms(2) by (simp add: chip)
  have "rtc_loop chip ?raw k = Some (?raw, k + 6)" for k
    by (subst rtc_loop.simps) (simp add: w chip read_time_def get_RTC_register_def)
  then have "read_rtc chip ct n = Some (convert_12_hours ?b (convert_bcd ?b ?raw), n + 14)"
    by (cases ct) (simp add: read_rtc_def w chip read_time_def get_RTC_register_def)
  moreover have "convert_12_hours ?b (convert_bcd ?b ?raw) = now (shown_hour ?b h) m s d mo y"
  proof (rule SyscallClockTimeArgs.equality)
    show "hour (convert_12_hours ?b (convert_bcd ?b ?raw)) = hour (now (shown_hour ?b h) m s d mo y)"
      using hour_of_chip [OF assms(11), of ?b] assms(5) by (simp add: convert_hour now_def)
  qed (use assms(9-14) in \<open>simp_all add: convert_others now_def assms(3-8) number_of_chip del: if_split cong del: if_weak_cong\<close>)
  ultimately show ?thesis by (simp add: shown_hour_def)
qed

text \<open>
  C40: When the clock does not tick during the call, reading it returns after 14 reads of the chip and
  gives the time and date that the chip holds, in each of its four modes (binary or decimal digits, 24
  or 12 hours), except that in the 12-hour modes midnight is given as 12 and noon as 0.
\<close>

theorem read_rtc_steady:
  assumes "\<forall>n. chip n = regs" "regs 0x0A AND 0x80 = 0"
    and "regs 0x00 = encode_number (regs 0x0B) s" "regs 0x02 = encode_number (regs 0x0B) m" "regs 0x04 = encode_hour (regs 0x0B) h"
    and "regs 0x07 = encode_number (regs 0x0B) d" "regs 0x08 = encode_number (regs 0x0B) mo" "regs 0x09 = encode_number (regs 0x0B) y"
    and "s < 60" "m < 60" "h < 24" "d < 32" "mo < 13" "y < 100"
  shows "read_rtc chip ct n = Some (now (if regs 0x0B AND 0x02 = 0 \<and> h mod 12 = 0 then 12 - h else h) m s d mo y, n + 14)"
  by (rule read_steady [OF assms])

text \<open>The registers of one pass, when the reads start with number \<open>n\<close>.\<close>

definition sample :: "rtc_chip \<Rightarrow> u8 \<Rightarrow> nat \<Rightarrow> SyscallClockTimeArgs" where
  "sample chip y n = \<lparr> hour = chip (n + 2) 0x04, minute = chip (n + 1) 0x02, second = chip n 0x00,
     day = chip (n + 3) 0x07, month = chip (n + 4) 0x08, year = y \<rparr>"

lemma read_time_sample: "read_time chip ct n = (sample chip (year ct) n, n + 5)"
  by (cases ct) (simp add: read_time_def get_RTC_register_def sample_def eval_nat_numeral)

lemma wait_update_sound:
  assumes "wait_update chip n = Some n'"
  shows "n < n' \<and> chip (n' - 1) 0x0A AND 0x80 = 0"
proof (rule wait_update.raw_induct [OF _ assms, of "\<lambda>chip n n'. n < n' \<and> chip (n' - 1) 0x0A AND 0x80 = 0"], goal_cases)
  case (1 f chip n n')
  then show ?case by (cases "chip n 0x0A AND 0x80 = 0") (fastforce simp: get_update_in_progress_flag_def)+
qed

lemma year_sample [simp]: "year (sample chip y n) = y"
  by (simp add: sample_def)

lemma rtc_compare:
  "(second c \<noteq> second c' \<or> minute c \<noteq> minute c' \<or> hour c \<noteq> hour c' \<or> day c \<noteq> day c' \<or> month c \<noteq> month c' \<or> year c \<noteq> year c') \<longleftrightarrow> c \<noteq> c'"
  for c c' :: SyscallClockTimeArgs
  by (cases c; cases c') auto

definition confirmed :: "rtc_chip \<Rightarrow> u8 \<Rightarrow> nat \<Rightarrow> SyscallClockTimeArgs \<Rightarrow> bool" where
  "confirmed chip y n ct \<longleftrightarrow> n > 0 \<and> chip (n - 1) 0x0A AND 0x80 = 0 \<and> ct = sample chip y n"

lemma rtc_loop_sound:
  assumes "rtc_loop chip ct n = Some r"
  shows "\<exists>v > n. snd r = v + 5 \<and> confirmed chip (year ct) v (fst r) \<and>
    (fst r = ct \<or> (\<exists>u > n. u + 5 < v \<and> confirmed chip (year ct) u (fst r)))"
proof (rule rtc_loop.raw_induct [OF _ assms, of "\<lambda>chip ct n r. \<exists>v > n. snd r = v + 5 \<and> confirmed chip (year ct) v (fst r) \<and>
    (fst r = ct \<or> (\<exists>u > n. u + 5 < v \<and> confirmed chip (year ct) u (fst r)))"], goal_cases)
  case (1 f chip ct n r)
  obtain v1 where v1: "wait_update chip n = Some v1" using 1(2) by (cases "wait_update chip n") auto
  let ?ct = "sample chip (year ct) v1"
  have v: "n < v1" and c: "confirmed chip (year ct) v1 ?ct" using wait_update_sound [OF v1] by (simp_all add: confirmed_def)
  show ?case
  proof (cases "ct = ?ct")
    case True
    then have "r = (?ct, v1 + 5)" using 1(2) unfolding rtc_compare by (simp add: v1 read_time_sample)
    then show ?thesis using v c True by (intro exI [where x = v1]) simp
  next
    case False
    then have "f chip ?ct (v1 + 5) = Some r" using 1(2) unfolding rtc_compare by (simp add: v1 read_time_sample)
    from 1(1) [OF this] obtain v2 where v2: "v1 + 5 < v2" "snd r = v2 + 5" "confirmed chip (year ct) v2 (fst r)"
      and e: "fst r = ?ct \<or> (\<exists>u > v1 + 5. u + 5 < v2 \<and> confirmed chip (year ct) u (fst r))" by auto
    have "\<exists>u > n. u + 5 < v2 \<and> confirmed chip (year ct) u (fst r)"
      using e
    proof
      assume "fst r = ?ct"
      then show ?thesis using v v2(1) c by (intro exI [where x = v1]) simp
    next
      assume "\<exists>u > v1 + 5. u + 5 < v2 \<and> confirmed chip (year ct) u (fst r)"
      then obtain u where "u > v1 + 5" "u + 5 < v2" "confirmed chip (year ct) u (fst r)" by blast
      then show ?thesis using v by (intro exI [where x = u]) simp
    qed
    then show ?thesis using v v2 by (intro exI [where x = v2]) simp
  qed
qed

text \<open>
  Whatever the chip does, a time that is returned has been read from it twice with the same value:
  in two separate passes over the registers, each begun when the chip showed no update in progress.
\<close>

theorem read_rtc_read_twice:
  assumes "read_rtc chip ct n = Some (t, n')"
  shows "\<exists>y u v. n < u \<and> u + 5 < v \<and> n' = v + 6 \<and> chip (u - 1) 0x0A AND 0x80 = 0 \<and> chip (v - 1) 0x0A AND 0x80 = 0 \<and>
    sample chip y u = sample chip y v \<and>
    t = convert_12_hours (chip (v + 5) 0x0B) (convert_bcd (chip (v + 5) 0x0B) (sample chip y v))"
proof -
  obtain n1 where n1: "wait_update chip n = Some n1" using assms by (cases "wait_update chip n") (auto simp: read_rtc_def)
  let ?y = "chip (n1 + 5) 0x09"
  let ?ct = "(sample chip (year ct) n1)\<lparr> year := ?y \<rparr>"
  have ct: "?ct = sample chip ?y n1" by (simp add: sample_def)
  obtain r where r: "rtc_loop chip ?ct (n1 + 6) = Some r"
    using assms by (cases "rtc_loop chip ?ct (n1 + 6)") (auto simp: read_rtc_def n1 read_time_sample get_RTC_register_def add.commute [of 6 n1])
  from rtc_loop_sound [OF r, unfolded ct]
  obtain v where v: "n1 + 6 < v" "snd r = v + 5" "confirmed chip ?y v (fst r)"
    and e: "fst r = sample chip ?y n1 \<or> (\<exists>u > n1 + 6. u + 5 < v \<and> confirmed chip ?y u (fst r))" by auto
  have "confirmed chip ?y n1 (sample chip ?y n1)" and n: "n < n1" using wait_update_sound [OF n1] by (simp_all add: confirmed_def)
  then have "\<exists>u > n. u + 5 < v \<and> confirmed chip ?y u (fst r)"
    using e v(1) by (elim disjE exE) (force, meson less_trans less_add_same_cancel1 add_pos_pos zero_less_numeral dual_order.strict_trans1 trans_less_add1)
  then obtain u where u: "n < u" "u + 5 < v" "confirmed chip ?y u (fst r)" by blast
  have "t = convert_12_hours (chip (v + 5) 0x0B) (convert_bcd (chip (v + 5) 0x0B) (fst r))" "n' = v + 6"
    using assms v(2) r by (simp_all add: read_rtc_def n1 read_time_sample get_RTC_register_def split_beta add.commute [of 6 n1])
  then show ?thesis using u v(3) unfolding confirmed_def by (intro exI [where x = ?y] exI [where x = u] exI [where x = v]) simp
qed

section \<open>Examples\<close>

text \<open>A chip at 21:07:45 on 31/12/24, in decimal digits and the 12-hour mode.\<close>

definition evening :: "u8 \<Rightarrow> u8" where
  "evening r = (if r = 0x00 then 0x45 else if r = 0x02 then 0x07 else if r = 0x04 then 0x89 else if r = 0x07 then 0x31
     else if r = 0x08 then 0x12 else if r = 0x09 then 0x24 else 0)"

theorem read_rtc_steady_witness: "read_rtc (\<lambda>_. evening) (now 0 0 0 0 0 0) 0 = Some (now 21 7 45 31 12 24, 14)"
  using read_rtc_steady [of "\<lambda>_. evening" evening 45 7 21 31 12 24 "now 0 0 0 0 0 0" 0]
  by (simp add: evening_def encode_number_def encode_hour_def)

lemma evening_read: "read_rtc (\<lambda>_. evening) ct n = Some (now 21 7 45 31 12 24, n + 14)"
  using read_steady [of "\<lambda>_. evening" evening 45 7 21 31 12 24 ct n]
  by (simp add: evening_def encode_number_def encode_hour_def)

theorem read_rtc_read_twice_witness:
  "\<exists>u v. u + 5 < v \<and> sample (\<lambda>_. evening) 0x24 u = sample (\<lambda>_. evening) 0x24 v"
  using read_rtc_read_twice [OF evening_read [of "now 0 0 0 0 0 0" 0]] by (auto simp: sample_def)

end
