(* ===== verification/Clock.thy ===== *)
theory Clock
  imports Syscall Rtc
begin

text \<open>
  The clock program, \<open>src/src/user-program/clock/clock.c\<close>, and the system call that reads the clock
  (\<open>src/src/interrupt.c\<close>).  A turn of its endless loop reads the time, prints time and date in the lower
  right corner, extends the bar of seconds in the last row and draws the clock face while the shell is
  closed.  The chip of the real-time clock is an argument.
\<close>

section \<open>State\<close>

record clock = system +
  rtc_reads :: nat
  last_sec :: u8
  first_run :: bool
  last_shell_open_status :: bool

type_synonym 'a clk = "(clock, 'a) cmd"

definition sys_get_clock_time :: "rtc_chip \<Rightarrow> SyscallClockTimeArgs \<Rightarrow> SyscallClockTimeArgs clk" where
  "sys_get_clock_time chip args = (\<lambda>s. map_option (\<lambda>(ct, n). Inr (ct, s\<lparr> rtc_reads := n \<rparr>)) (read_rtc chip args (rtc_reads s)))"

abbreviation (input) BIOS_BLACK :: u32 where "BIOS_BLACK \<equiv> 0x0"
abbreviation (input) BIOS_GREEN :: u32 where "BIOS_GREEN \<equiv> 0x2"
abbreviation (input) BIOS_RED :: u32 where "BIOS_RED \<equiv> 0x4"
abbreviation (input) BIOS_LIGHT_GRAY :: u32 where "BIOS_LIGHT_GRAY \<equiv> 0x7"
abbreviation (input) BIOS_LIGHT_CYAN :: u32 where "BIOS_LIGHT_CYAN \<equiv> 0xB"
abbreviation (input) BIOS_YELLOW :: u32 where "BIOS_YELLOW \<equiv> 0xE"
abbreviation (input) BIOS_WHITE :: u32 where "BIOS_WHITE \<equiv> 0xF"
abbreviation (input) CLOCK_BORDER :: u32 where "CLOCK_BORDER \<equiv> BIOS_BLACK"
abbreviation (input) CLOCK_BG :: u32 where "CLOCK_BG \<equiv> BIOS_LIGHT_GRAY"
abbreviation (input) CLOCK_HOUR :: u32 where "CLOCK_HOUR \<equiv> BIOS_RED"
abbreviation (input) CLOCK_MINUTE :: u32 where "CLOCK_MINUTE \<equiv> BIOS_BLACK"
abbreviation (input) CLOCK_SECOND :: u32 where "CLOCK_SECOND \<equiv> BIOS_GREEN"
abbreviation (input) CLOCK_CENTER_X :: u8 where "CLOCK_CENTER_X \<equiv> 63"
abbreviation (input) CLOCK_CENTER_Y :: u8 where "CLOCK_CENTER_Y \<equiv> 7"

section \<open>Text\<close>

definition itoa60 :: "u8 list list" where
  "itoa60 = map (\<lambda>n. [48 + of_nat (n div 10), 48 + of_nat (n mod 10), 0]) [0..<60]"

definition itoa_at :: "nat \<Rightarrow> fault + u8 list" where
  "itoa_at i = (if i < 60 then Inr (itoa60 ! i) else Inl OutOfBounds)"

definition append_all :: "(fault + u8 list) list \<Rightarrow> fault + StringN" where
  "append_all parts = fold (\<lambda>p r. and_then r (\<lambda>str. and_then p (\<lambda>bs. stringn_appendstr bs str))) parts (Inr stringn_create)"

definition time_string :: "SyscallClockTimeArgs \<Rightarrow> fault + StringN" where
  "time_string ct = append_all [itoa_at ((unat (hour ct) + 7) mod 24), Inr (lit '':''), itoa_at (unat (minute ct)),
     Inr (lit '':''), itoa_at (unat (second ct))]"

definition date_string :: "SyscallClockTimeArgs \<Rightarrow> fault + StringN" where
  "date_string ct = append_all [itoa_at (unat (day ct)), Inr (lit ''/''), itoa_at (unat (month ct)),
     Inr (lit ''/''), itoa_at (unat (year ct))]"

definition draw :: "u8 list \<Rightarrow> u32 \<Rightarrow> u32 \<Rightarrow> u32 \<Rightarrow> u8 \<Rightarrow> u8 \<Rightarrow> unit clk" where
  "draw bs n fg bgc r c = sys_puts_at \<lparr> buf = bs, count = n, fg_color = fg, bg_color = bgc, at_row = r, at_col = c \<rparr>"

section \<open>The bar of seconds\<close>

definition print_second :: "SyscallClockTimeArgs \<Rightarrow> unit clk" where
  "print_second ct = bindc (lift (itoa_at (unat (second ct)))) (\<lambda>bs. draw bs 2 BIOS_BLACK BIOS_YELLOW 24 66)"

definition clear_seconds_bar :: "SyscallClockTimeArgs \<Rightarrow> unit clk" where
  "clear_seconds_bar ct =
     seqc (map (\<lambda>c. draw (lit '' '') 1 BIOS_BLACK (if int c - 9 \<le> int (unat (second ct)) then BIOS_YELLOW else BIOS_BLACK) 24 (of_nat c)) [7..<66] @
       [print_second ct])"

definition update_clock :: "SyscallClockTimeArgs \<Rightarrow> unit clk" where
  "update_clock ct =
     (if second ct = 0 then clear_seconds_bar ct
      else seqc [draw (lit '' '') 1 BIOS_BLACK BIOS_YELLOW 24 (6 + second ct), print_second ct])"

section \<open>The hands\<close>

datatype hand = CLOCK_12 | CLOCK_1 | CLOCK_2 | CLOCK_2_5 | CLOCK_3 | CLOCK_4 | CLOCK_5 | CLOCK_5_5
  | CLOCK_6 | CLOCK_7 | CLOCK_8 | CLOCK_8_5 | CLOCK_9 | CLOCK_10 | CLOCK_11 | CLOCK_11_5

fun points :: "hand \<Rightarrow> (u8 \<times> u8) list" where
  "points CLOCK_12 = [(63, 6), (63, 5), (63, 4), (0, 0)]"
| "points CLOCK_1 = [(64, 6), (65, 6), (66, 5), (67, 5), (68, 4), (69, 4), (0, 0)]"
| "points CLOCK_2 = [(64, 7), (65, 7), (66, 6), (67, 6), (68, 5), (69, 5), (0, 0)]"
| "points CLOCK_2_5 = [(64, 7), (65, 7), (66, 6), (67, 6), (68, 6), (69, 6), (0, 0)]"
| "points CLOCK_3 = [(64, 7), (65, 7), (66, 7), (67, 7), (68, 7), (69, 7), (0, 0)]"
| "points CLOCK_4 = [(64, 7), (65, 7), (66, 8), (67, 8), (68, 8), (69, 8), (0, 0)]"
| "points CLOCK_5 = [(64, 7), (65, 7), (66, 8), (67, 8), (68, 9), (69, 9), (0, 0)]"
| "points CLOCK_5_5 = [(64, 8), (65, 8), (66, 9), (67, 9), (68, 10), (69, 10), (0, 0)]"
| "points CLOCK_6 = [(63, 8), (63, 9), (63, 10), (0, 0)]"
| "points CLOCK_7 = [(62, 8), (61, 8), (60, 9), (59, 9), (58, 10), (59, 10), (0, 0)]"
| "points CLOCK_8 = [(62, 7), (61, 7), (60, 8), (59, 8), (58, 9), (59, 9), (0, 0)]"
| "points CLOCK_8_5 = [(62, 7), (61, 7), (60, 8), (59, 8), (58, 8), (57, 8), (0, 0)]"
| "points CLOCK_9 = [(62, 7), (61, 7), (60, 7), (59, 7), (58, 7), (57, 7), (0, 0)]"
| "points CLOCK_10 = [(62, 7), (61, 7), (60, 6), (59, 6), (58, 5), (57, 5), (0, 0)]"
| "points CLOCK_11 = [(62, 6), (61, 6), (60, 5), (59, 5), (58, 4), (57, 4), (0, 0)]"
| "points CLOCK_11_5 = [(62, 6), (61, 6), (61, 5), (60, 5), (60, 4), (59, 4), (0, 0)]"

fun p_len :: "(u8 \<times> u8) list \<Rightarrow> fault + u8" where
  "p_len [] = Inl OutOfBounds"
| "p_len ((x, y) # ps) = (if x \<noteq> 0 \<and> y \<noteq> 0 then and_then (p_len ps) (\<lambda>n. Inr (n + 1)) else Inr 0)"

definition is_in :: "u8 \<Rightarrow> u8 \<Rightarrow> (u8 \<times> u8) list \<Rightarrow> fault + bool" where
  "is_in x y coordinates = and_then (p_len coordinates) (\<lambda>n. Inr ((x, y) \<in> set (take (unat n) coordinates)))"

definition is_in_hour :: "u8 \<Rightarrow> u8 \<Rightarrow> hand \<Rightarrow> bool" where
  "is_in_hour x y h = ((x, y) \<in> set (take (if h = CLOCK_12 \<or> h = CLOCK_6 then 2 else 4) (points h)))"

text \<open>The hand for a number of seconds or minutes, and for an hour.\<close>

definition hand_of_sixty :: "u8 \<Rightarrow> hand" where
  "hand_of_sixty t =
     (if t \<le> 3 then CLOCK_12 else if t \<le> 7 then CLOCK_1 else if t \<le> 11 then CLOCK_2 else if t \<le> 15 then CLOCK_2_5
      else if t \<le> 19 then CLOCK_3 else if t \<le> 23 then CLOCK_4 else if t \<le> 27 then CLOCK_5 else if t \<le> 30 then CLOCK_5_5
      else if t \<le> 34 then CLOCK_6 else if t \<le> 38 then CLOCK_7 else if t \<le> 42 then CLOCK_8 else if t \<le> 45 then CLOCK_8_5
      else if t \<le> 49 then CLOCK_9 else if t \<le> 53 then CLOCK_10 else if t \<le> 57 then CLOCK_11 else CLOCK_11_5)"

definition hand_of_hour :: "u8 \<Rightarrow> fault + hand" where
  "hand_of_hour h =
     (if h = 12 \<or> h = 0 then Inr CLOCK_12 else if h = 1 \<or> h = 13 then Inr CLOCK_1 else if h = 2 \<or> h = 14 then Inr CLOCK_2
      else if h = 3 \<or> h = 15 then Inr CLOCK_3 else if h = 4 \<or> h = 16 then Inr CLOCK_4 else if h = 5 \<or> h = 17 then Inr CLOCK_5
      else if h = 6 \<or> h = 18 then Inr CLOCK_6 else if h = 7 \<or> h = 19 then Inr CLOCK_7 else if h = 8 \<or> h = 20 then Inr CLOCK_8
      else if h = 9 \<or> h = 21 then Inr CLOCK_9 else if h = 10 \<or> h = 22 then Inr CLOCK_10 else if h = 11 \<or> h = 23 then Inr CLOCK_11
      else Inl Uninitialised)"

section \<open>The face\<close>

text \<open>One cell of the face; the result is \<open>shell_open\<close> as read for this cell.\<close>

definition clock_cell :: "hand \<Rightarrow> hand \<Rightarrow> hand \<Rightarrow> u8 \<Rightarrow> u8 \<Rightarrow> bool clk" where
  "clock_cell sec_hand min_hand hour_hand r c =
     (let abs_row = 3 + r; abs_col = 55 + c
      in bindc sys_get_is_shell_open (\<lambda>opened.
         bindc (lift (is_in abs_col abs_row (points sec_hand))) (\<lambda>on_sec.
         bindc (lift (is_in abs_col abs_row (points min_hand))) (\<lambda>on_min.
           let color = (if opened then BIOS_BLACK
                 else if abs_row = CLOCK_CENTER_Y \<and> abs_col = CLOCK_CENTER_X then BIOS_WHITE
                 else if on_sec then CLOCK_SECOND
                 else if is_in_hour abs_col abs_row hour_hand then CLOCK_HOUR
                 else if on_min then CLOCK_MINUTE
                 else CLOCK_BG)
           in bindc (draw (lit '' '') 1 color color (3 + r) (55 + c)) (\<lambda>_. return opened)))))"

text \<open>Running the cells keeps the last value read.\<close>

fun run_cells :: "bool \<Rightarrow> bool clk list \<Rightarrow> bool clk" where
  "run_cells opened [] = return opened"
| "run_cells opened (c # cs) = bindc c (\<lambda>opened'. run_cells opened' cs)"

definition clock_border :: "unit clk list" where
  "clock_border =
     concat (map (\<lambda>c. [draw (lit '' '') 1 CLOCK_BORDER CLOCK_BORDER 2 (54 + of_nat c),
       draw (lit '' '') 1 CLOCK_BORDER CLOCK_BORDER 12 (54 + of_nat c)]) [0..<19]) @
     concat (map (\<lambda>r. [draw (lit '' '') 1 CLOCK_BORDER CLOCK_BORDER (2 + of_nat r) 54,
       draw (lit '' '') 1 CLOCK_BORDER CLOCK_BORDER (2 + of_nat r) 53, draw (lit '' '') 1 CLOCK_BORDER CLOCK_BORDER (2 + of_nat r) 72,
       draw (lit '' '') 1 CLOCK_BORDER CLOCK_BORDER (2 + of_nat r) 73]) [0..<11])"

definition create_clock :: "SyscallClockTimeArgs \<Rightarrow> unit clk" where
  "create_clock ct =
     bindc sys_get_keyboard_borders (\<lambda>_.
     bindc sys_get_is_shell_open (\<lambda>opened.
       if opened then return ()
       else
         bindc (lift (hand_of_hour (of_nat ((unat (hour ct) + 7) mod 12)))) (\<lambda>hour_hand.
         bindc (run_cells opened (concat (map (\<lambda>r. map (\<lambda>c.
             clock_cell (hand_of_sixty (second ct)) (hand_of_sixty (minute ct)) hour_hand (of_nat r) (of_nat c)) [0..<17]) [0..<9]))) (\<lambda>opened'.
           if opened' then return () else seqc clock_border))))"

section \<open>The program\<close>

definition clock_start :: "unit clk" where
  "clock_start = seqc [sys_activate_keyboard,
     bindc sys_get_is_shell_open (\<lambda>opened. modify (\<lambda>s. s\<lparr> last_shell_open_status := opened \<rparr>)),
     modify (\<lambda>s. s\<lparr> first_run := True \<rparr>)]"

definition clock_turn :: "rtc_chip \<Rightarrow> SyscallClockTimeArgs \<Rightarrow> unit clk" where
  "clock_turn chip junk =
     bindc (sys_get_clock_time chip junk) (\<lambda>clock_time.
     bindc (modify (\<lambda>s. if second clock_time \<noteq> last_sec s then s\<lparr> last_sec := second clock_time \<rparr> else s)) (\<lambda>_.
     bindc (lift (time_string clock_time)) (\<lambda>time_str.
     bindc (lift (date_string clock_time)) (\<lambda>date_str.
     bindc (draw (sbuf time_str) (slen time_str) BIOS_BLACK BIOS_LIGHT_CYAN 24 71) (\<lambda>_.
     bindc (draw (sbuf date_str) (slen date_str) BIOS_BLACK BIOS_LIGHT_CYAN 23 71) (\<lambda>_.
     bindc (gets first_run) (\<lambda>first.
     bindc (if first then seqc [clear_seconds_bar clock_time, modify (\<lambda>s. s\<lparr> first_run := False \<rparr>)]
            else update_clock clock_time) (\<lambda>_.
       create_clock clock_time))))))))"

end
