(* ===== verification/Clock_Props.thy ===== *)
theory Clock_Props
  imports Clock
begin

text \<open>
  What the clock shows: a turn of the program ends and leaves the time and the date in their places.
\<close>

section \<open>Printing at a place\<close>

lemma puts_at_line:
  assumes "n \<le> length bs" "0 \<notin> set (take n bs)" "unat c + n \<le> 80" "unat r < 25"
  obtains s' where "puts_at_loop fg bg r c n bs s = Inr s'"
    "\<And>i j. j < 80 \<Longrightarrow> glyph s' i j =
       (if i = unat r \<and> unat c \<le> j \<and> j < unat c + n then (bs ! (j - unat c), attr fg bg) else glyph s i j)"
  using assms
proof (induction n arbitrary: bs c s thesis)
  case 0
  show ?case by (rule 0(1)) auto
next
  case (Suc n)
  obtain b bs' where bs: "bs = b # bs'" using Suc.prems(2) by (cases bs) auto
  have c1: "unat (c + 1) = unat c + 1" using Suc.prems(4) by (intro unat_suc_less [of c 80]) (simp add: word_less_nat_alt)
  let ?s = "framebuffer_write r c b fg bg s"
  obtain s' where s': "puts_at_loop fg bg r (c + 1) n bs' ?s = Inr s'"
    "\<And>i j. j < 80 \<Longrightarrow> glyph s' i j =
       (if i = unat r \<and> unat (c + 1) \<le> j \<and> j < unat (c + 1) + n then (bs' ! (j - unat (c + 1)), attr fg bg) else glyph ?s i j)"
    using Suc.IH [where bs = bs' and c = "c + 1" and s = ?s] Suc.prems(2-5) by (auto simp: bs c1)
  have "puts_at_loop fg bg r c (Suc n) bs s = Inr s'" using Suc.prems(3) s'(1) by (simp add: bs)
  moreover have "glyph s' i j =
      (if i = unat r \<and> unat c \<le> j \<and> j < unat c + Suc n then (bs ! (j - unat c), attr fg bg) else glyph s i j)" if "j < 80" for i j
    using s'(2) [OF that] glyph_write [OF that] Suc.prems(4,5) by (auto simp: bs c1 nth_Cons')
  ultimately show ?case by (rule Suc.prems(1))
qed

section \<open>Text\<close>

definition digits :: "nat \<Rightarrow> u8 list" where
  "digits n = [48 + of_nat (n div 10), 48 + of_nat (n mod 10)]"

lemma digit_code: "d < 10 \<Longrightarrow> 48 + of_nat d \<noteq> (0 :: u8)"
proof -
  assume "d < 10"
  then have "unat (of_nat (48 + d) :: u8) = 48 + d" by (intro unat_of_nat_less) simp
  then have "(of_nat (48 + d) :: u8) \<noteq> 0" by (metis add_is_0 numeral_neq_zero unsigned_0)
  then show ?thesis by simp
qed

lemma itoa_digits:
  assumes "n < 60"
  shows "itoa_at n = Inr (digits n @ [0])" "c_string (digits n @ [0]) = digits n" "0 \<notin> set (digits n)"
proof -
  show "itoa_at n = Inr (digits n @ [0])" using assms by (simp add: itoa_at_def itoa60_def digits_def del: upt_rec_numeral)
  show "0 \<notin> set (digits n)" using assms digit_code [of "n div 10"] digit_code [of "n mod 10"] by (auto simp: digits_def)
  then show "c_string (digits n @ [0]) = digits n" by (simp add: c_string_append)
qed

lemma append_all_wf:
  assumes "\<forall>bs \<in> set bss. 0 \<in> set bs" "length (concat (map c_string bss)) \<le> 256"
  shows "\<exists>p. append_all (map Inr bss) = Inr p \<and> stringn_wf p \<and> content p = concat (map c_string bss) \<and>
    unat (slen p) = length (concat (map c_string bss))"
  using assms
proof (induction bss rule: rev_induct)
  case Nil
  then show ?case by (simp add: append_all_def)
next
  case (snoc bs bss)
  then obtain p where p: "append_all (map Inr bss) = Inr p" "stringn_wf p" "content p = concat (map c_string bss)"
    "unat (slen p) = length (concat (map c_string bss))" by auto
  have z: "0 \<in> set bs" using snoc.prems(1) by simp
  obtain q where "stringn_appendstr bs p = Inr q" "stringn_wf q" "content q = content p @ c_string bs"
    "unat (slen q) = unat (slen p) + length (c_string bs)"
    by (rule appendstr_wf [OF p(2) z]) (use snoc.prems(2) p(4) in simp_all)
  then show ?case using p by (simp add: append_all_def)
qed

definition clock_text :: "nat \<Rightarrow> nat \<Rightarrow> nat \<Rightarrow> u8 \<Rightarrow> u8 list" where
  "clock_text a b c sep = digits a @ [sep] @ digits b @ [sep] @ digits c"

lemma three_numbers:
  assumes "a < 60" "b < 60" "c < 60" "of_char sep \<noteq> (0 :: u8)"
  obtains p where "append_all [itoa_at a, Inr (lit [sep]), itoa_at b, Inr (lit [sep]), itoa_at c] = Inr p"
    "unat (slen p) = 8" "length (sbuf p) = 256" "take 8 (sbuf p) = clock_text a b c (of_char sep)" "0 \<notin> set (take 8 (sbuf p))"
proof -
  let ?bss = "[digits a @ [0], lit [sep], digits b @ [0], lit [sep], digits c @ [0]]"
  have s: "c_string (lit [sep]) = [of_char sep]" using assms(4) by (simp add: lit_def c_string_def)
  have tx: "concat (map c_string ?bss) = clock_text a b c (of_char sep)"
    by (simp add: s itoa_digits(2) assms clock_text_def)
  have len: "length (clock_text a b c (of_char sep)) = 8" by (simp add: clock_text_def digits_def)
  have "\<forall>bs \<in> set ?bss. 0 \<in> set bs" by (simp add: lit_def)
  from append_all_wf [OF this, unfolded tx len]
  obtain p where p: "append_all (map Inr ?bss) = Inr p" "stringn_wf p" "content p = clock_text a b c (of_char sep)" "unat (slen p) = 8"
    by auto
  have "append_all [itoa_at a, Inr (lit [sep]), itoa_at b, Inr (lit [sep]), itoa_at c] = Inr p"
    using p(1) by (simp add: itoa_digits(1) assms)
  moreover have "0 \<notin> set (clock_text a b c (of_char sep))" using itoa_digits(3) assms by (auto simp: clock_text_def)
  ultimately show ?thesis using that [of p] p by (simp add: content_def stringn_wf_def)
qed

section \<open>Commands that keep what is shown\<close>

definition steady :: "(clock \<Rightarrow> bool) \<Rightarrow> 'a clk \<Rightarrow> bool" where
  "steady I c \<longleftrightarrow> (\<forall>s. I s \<longrightarrow> (\<exists>x s'. c s = Some (Inr (x, s')) \<and> I s'))"

named_theorems steady

lemma steadyD: "steady I c \<Longrightarrow> I s \<Longrightarrow> \<exists>x s'. c s = Some (Inr (x, s')) \<and> I s'"
  by (simp add: steady_def)

lemma steady_return [steady]: "steady I (return x)" "steady I (gets f)"
  by (simp_all add: steady_def cmd)

lemma steady_bindc [steady]: "steady I c \<Longrightarrow> (\<And>x. steady I (d x)) \<Longrightarrow> steady I (bindc c d)"
  unfolding steady_def by (metis bindc_step)

lemma steady_lift [steady]: "r = Inr x \<Longrightarrow> steady I (f x) \<Longrightarrow> steady I (bindc (lift r) f)"
  by (simp add: steady_def bindc_def lift_def)

lemma steady_seqc [steady]: "(\<And>c. c \<in> set cs \<Longrightarrow> steady I c) \<Longrightarrow> steady I (seqc cs)"
  by (induction cs) (auto simp: seqc_def intro!: steady)

lemma steady_run_cells [steady]: "(\<And>c. c \<in> set cs \<Longrightarrow> steady I c) \<Longrightarrow> steady I (run_cells b cs)"
  by (induction cs arbitrary: b) (auto intro!: steady)

definition showing :: "u8 list \<Rightarrow> u8 list \<Rightarrow> clock \<Rightarrow> bool" where
  "showing t d s \<longleftrightarrow> (\<forall>i < 8. glyph (screen (display s)) 24 (71 + i) = (t ! i, attr 0 0xB) \<and>
     glyph (screen (display s)) 23 (71 + i) = (d ! i, attr 0 0xB))"

lemma draw_result:
  assumes "unat n \<le> length bs" "0 \<notin> set (take (unat n) bs)" "unat c + unat n \<le> 80" "unat r < 25"
  obtains t where "draw bs n fg bg r c s = Some (Inr ((), s\<lparr> display := (display s)\<lparr> screen := t \<rparr> \<rparr>))"
    "\<And>i j. j < 80 \<Longrightarrow> glyph t i j =
       (if i = unat r \<and> unat c \<le> j \<and> j < unat c + unat n then (bs ! (j - unat c), attr (ucast fg) (ucast bg)) else glyph (screen (display s)) i j)"
proof -
  obtain t where "puts_at_loop (ucast fg) (ucast bg) r c (unat n) bs (screen (display s)) = Inr t"
    "\<And>i j. j < 80 \<Longrightarrow> glyph t i j =
       (if i = unat r \<and> unat c \<le> j \<and> j < unat c + unat n then (bs ! (j - unat c), attr (ucast fg) (ucast bg)) else glyph (screen (display s)) i j)"
    using puts_at_line [OF assms] by blast
  then show ?thesis using that [of t] by (simp add: draw_def sys_puts_at_def update_def puts_at_def)
qed

lemma steady_draw:
  assumes "unat n \<le> length bs" "0 \<notin> set (take (unat n) bs)" "unat c + unat n \<le> 80" "unat r < 25"
    "unat r < 23 \<or> unat c + unat n \<le> 71"
  shows "steady (showing t d) (draw bs n fg bg r c)"
  unfolding steady_def
proof (intro allI impI)
  fix s assume I: "showing t d s"
  obtain u where u: "draw bs n fg bg r c s = Some (Inr ((), s\<lparr> display := (display s)\<lparr> screen := u \<rparr> \<rparr>))"
    "\<And>i j. j < 80 \<Longrightarrow> glyph u i j =
       (if i = unat r \<and> unat c \<le> j \<and> j < unat c + unat n then (bs ! (j - unat c), attr (ucast fg) (ucast bg)) else glyph (screen (display s)) i j)"
    using draw_result [OF assms(1-4)] by blast
  have "showing t d (s\<lparr> display := (display s)\<lparr> screen := u \<rparr> \<rparr>)"
    using I assms(5) by (auto simp: showing_def u(2))
  then show "\<exists>x s'. draw bs n fg bg r c s = Some (Inr (x, s')) \<and> showing t d s'" using u(1) by blast
qed

lemma steady_blank [steady]:
  "unat r < 25 \<Longrightarrow> unat c < 80 \<Longrightarrow> unat r < 23 \<or> unat c < 71 \<Longrightarrow> steady (showing t d) (draw (lit '' '') 1 fg bg r c)"
  by (rule steady_draw) (auto simp: lit_def)

lemma steady_modify [steady]: "(\<And>s. display (f s) = display s) \<Longrightarrow> steady (showing t d) (modify f)"
  by (simp add: steady_def showing_def cmd)

lemma steady_print_second [steady]: "unat (second ct) < 60 \<Longrightarrow> steady (showing t d) (print_second ct)"
proof -
  assume lt: "unat (second ct) < 60"
  have "steady (showing t d) (draw (digits (unat (second ct)) @ [0]) 2 BIOS_BLACK BIOS_YELLOW 24 66)"
    by (rule steady_draw) (use itoa_digits(3) [OF lt] in \<open>auto simp: digits_def\<close>)
  then show ?thesis unfolding print_second_def by (intro steady_lift [OF itoa_digits(1) [OF lt]])
qed

lemma unat_plus: "a + b < 256 \<Longrightarrow> unat (of_nat a + of_nat b :: u8) = a + b"
proof -
  assume "a + b < 256"
  then have "unat (of_nat (a + b) :: u8) = a + b" by (intro unat_of_nat_less) simp
  then show ?thesis by simp
qed

lemma p_len_points: "\<exists>n. p_len (points h) = Inr n"
  by (cases h) simp_all

lemma is_in_points: "\<exists>b. is_in x y (points h) = Inr b"
  using p_len_points [of h] by (auto simp: is_in_def)

lemma hand_of_twelve: "\<exists>h. hand_of_hour (of_nat (k mod 12)) = Inr h"
proof -
  have "\<forall>n \<in> set [0..<12]. \<exists>h. hand_of_hour (of_nat n) = Inr h" by (simp add: hand_of_hour_def upt_rec)
  moreover have "k mod 12 \<in> set [0..<12]" by (simp del: upt_rec_numeral)
  ultimately show ?thesis by (rule bspec)
qed

lemma steady_cell:
  assumes "r < 9" "c < 17"
  shows "steady (showing t d) (clock_cell a b h (of_nat r) (of_nat c))"
proof -
  have u: "unat (3 + of_nat r :: u8) = 3 + r" "unat (55 + of_nat c :: u8) = 55 + c"
    using assms unat_plus [of 3 r] unat_plus [of 55 c] by simp_all
  obtain b1 b2 where i: "is_in (55 + of_nat c) (3 + of_nat r) (points a) = Inr b1" "is_in (55 + of_nat c) (3 + of_nat r) (points b) = Inr b2"
    using is_in_points by blast
  show ?thesis
    unfolding clock_cell_def Let_def sys_get_is_shell_open_def i
    by (intro steady_bindc steady_return steady_lift [OF refl] steady_blank) (use assms u in simp_all)
qed

lemma steady_border: "c \<in> set clock_border \<Longrightarrow> steady (showing t d) c"
proof -
  have "unat (54 + of_nat n :: u8) = 54 + n" if "n < 19" for n using that unat_plus [of 54 n] by simp
  moreover have "unat (2 + of_nat n :: u8) = 2 + n" if "n < 11" for n using that unat_plus [of 2 n] by simp
  moreover assume "c \<in> set clock_border"
  ultimately show ?thesis by (auto simp: clock_border_def simp del: upt_rec_numeral intro!: steady_blank)
qed

lemma steady_face: "steady (showing t d) (create_clock ct)"
proof -
  obtain h where h: "hand_of_hour (of_nat ((unat (hour ct) + 7) mod 12)) = Inr h" using hand_of_twelve by blast
  have border: "steady (showing t d) (seqc clock_border)" by (intro steady_seqc steady_border)
  have cells: "steady (showing t d) (run_cells x (concat (map (\<lambda>r. map (\<lambda>c. clock_cell a b h (of_nat r) (of_nat c)) [0..<17]) [0..<9])))" for a b x
    by (intro steady_run_cells) (auto simp del: upt_rec_numeral intro!: steady_cell)
  show ?thesis
    unfolding create_clock_def h sys_get_keyboard_borders_def sys_get_is_shell_open_def
    using border cells by (auto intro!: steady_return steady_lift [OF refl] steady_bindc)
qed

lemma steady_seconds:
  assumes "unat (second ct) < 60"
  shows "steady (showing t d) (clear_seconds_bar ct)" "steady (showing t d) (update_clock ct)"
proof -
  have "unat (of_nat n :: u8) = n" if "n < 66" for n using that by (intro unat_of_nat_less) simp
  then show c: "steady (showing t d) (clear_seconds_bar ct)"
    unfolding clear_seconds_bar_def using assms
    by (intro steady_seqc) (auto simp del: upt_rec_numeral intro!: steady_blank steady_print_second)
  have "unat (6 + second ct) = 6 + unat (second ct)" using assms unat_plus [of 6 "unat (second ct)"] by simp
  then show "steady (showing t d) (update_clock ct)"
    unfolding update_clock_def using assms c by (auto intro!: steady_seqc steady_blank steady_print_second)
qed

text \<open>
  C39: When the clock can be read and gives a time in range, a turn of the clock program returns, and
  then the time, with the hour shifted by 7 hours, and the date stand in their places at the right
  end of the last two rows, whatever the clock face and the bar of seconds have drawn.
\<close>

theorem clock_shows_time:
  assumes "read_rtc chip junk (rtc_reads s) = Some (ct, n)"
    and "unat (minute ct) < 60" "unat (second ct) < 60" "unat (day ct) < 60" "unat (month ct) < 60" "unat (year ct) < 60"
  shows "\<exists>s'. clock_turn chip junk s = Some (Inr ((), s')) \<and> (\<forall>i < 8.
    glyph (screen (display s')) 24 (71 + i) = (clock_text ((unat (hour ct) + 7) mod 24) (unat (minute ct)) (unat (second ct)) 0x3A ! i, 0xB0) \<and>
    glyph (screen (display s')) 23 (71 + i) = (clock_text (unat (day ct)) (unat (month ct)) (unat (year ct)) 0x2F ! i, 0xB0))"
proof -
  have h: "(unat (hour ct) + 7) mod 24 < 60" by (rule less_trans [OF mod_less_divisor]) simp_all
  obtain t where t: "time_string ct = Inr t" "unat (slen t) = 8" "length (sbuf t) = 256"
    "take 8 (sbuf t) = clock_text ((unat (hour ct) + 7) mod 24) (unat (minute ct)) (unat (second ct)) 0x3A" "0 \<notin> set (take 8 (sbuf t))"
    using three_numbers [OF h assms(2,3), of "CHR '':''"] by (auto simp: time_string_def)
  obtain d where d: "date_string ct = Inr d" "unat (slen d) = 8" "length (sbuf d) = 256"
    "take 8 (sbuf d) = clock_text (unat (day ct)) (unat (month ct)) (unat (year ct)) 0x2F" "0 \<notin> set (take 8 (sbuf d))"
    using three_numbers [OF assms(4-6), of "CHR ''/''"] by (auto simp: date_string_def)
  let ?s1 = "(\<lambda>s. if second ct \<noteq> last_sec s then s\<lparr> last_sec := second ct \<rparr> else s) (s\<lparr> rtc_reads := n \<rparr>)"
  obtain t1 where t1: "draw (sbuf t) (slen t) BIOS_BLACK BIOS_LIGHT_CYAN 24 71 ?s1 = Some (Inr ((), ?s1\<lparr> display := (display ?s1)\<lparr> screen := t1 \<rparr> \<rparr>))"
    "\<And>i j. j < 80 \<Longrightarrow> glyph t1 i j = (if i = 24 \<and> 71 \<le> j \<and> j < 79 then (sbuf t ! (j - 71), attr 0 0xB) else glyph (screen (display ?s1)) i j)"
    by (rule draw_result [of "slen t" "sbuf t" 71 24 BIOS_BLACK BIOS_LIGHT_CYAN ?s1]) (use t in simp_all)
  let ?s2 = "?s1\<lparr> display := (display ?s1)\<lparr> screen := t1 \<rparr> \<rparr>"
  obtain t2 where t2: "draw (sbuf d) (slen d) BIOS_BLACK BIOS_LIGHT_CYAN 23 71 ?s2 = Some (Inr ((), ?s2\<lparr> display := (display ?s2)\<lparr> screen := t2 \<rparr> \<rparr>))"
    "\<And>i j. j < 80 \<Longrightarrow> glyph t2 i j = (if i = 23 \<and> 71 \<le> j \<and> j < 79 then (sbuf d ! (j - 71), attr 0 0xB) else glyph (screen (display ?s2)) i j)"
    by (rule draw_result [of "slen d" "sbuf d" 71 23 BIOS_BLACK BIOS_LIGHT_CYAN ?s2]) (use d in simp_all)
  let ?s3 = "?s2\<lparr> display := (display ?s2)\<lparr> screen := t2 \<rparr> \<rparr>"
  let ?T = "take 8 (sbuf t)" and ?D = "take 8 (sbuf d)"
  have sh: "showing ?T ?D ?s3" unfolding showing_def using t1(2) t2(2) by auto
  let ?rest = "bindc (gets first_run) (\<lambda>first. bindc (if first then seqc [clear_seconds_bar ct, modify (\<lambda>s. s\<lparr> first_run := False \<rparr>)]
      else update_clock ct) (\<lambda>_. create_clock ct))"
  have "steady (showing ?T ?D) (seqc [clear_seconds_bar ct, modify (\<lambda>s. s\<lparr> first_run := False \<rparr>)])"
    using steady_seconds(1) [OF assms(3)] by (intro steady_seqc) (auto intro!: steady_modify)
  then have "steady (showing ?T ?D) ?rest"
    using steady_seconds(2) [OF assms(3)] by (intro steady_bindc steady_return) (auto intro: steady_face)
  from steadyD [OF this sh] obtain s' where s': "?rest ?s3 = Some (Inr ((), s'))" "showing ?T ?D s'" by auto
  have "clock_turn chip junk s = ?rest ?s3"
    unfolding clock_turn_def sys_get_clock_time_def
    using assms(1) t(1) d(1) t1(1) t2(1) by (simp add: bindc_def lift_def modify_def)
  moreover have "attr 0 0xB = 0xB0" by (simp add: attr_def)
  ultimately show ?thesis using s' unfolding showing_def t(4) d(4) by simp
qed

definition demo_clock :: clock where
  "demo_clock = \<lparr> kern = demo_kernel, display = shell_tty 5 4, shell_open = False, rtc_reads = 0, last_sec = 0,
     first_run = True, last_shell_open_status = False \<rparr>"

theorem clock_shows_time_witness:
  "\<exists>s'. clock_turn (\<lambda>_. evening) (now 0 0 0 0 0 0) demo_clock = Some (Inr ((), s')) \<and>
     glyph (screen (display s')) 24 71 = (of_char CHR ''0'', 0xB0) \<and> glyph (screen (display s')) 24 72 = (of_char CHR ''4'', 0xB0)"
proof -
  have "read_rtc (\<lambda>_. evening) (now 0 0 0 0 0 0) (rtc_reads demo_clock) = Some (now 21 7 45 31 12 24, 14)"
    using evening_read [of "now 0 0 0 0 0 0" 0] by (simp add: demo_clock_def)
  note clock_shows_time [OF this]
  moreover have "unat (second (now 21 7 45 31 12 24)) = 45" "unat (minute (now 21 7 45 31 12 24)) = 7" "unat (hour (now 21 7 45 31 12 24)) = 21"
    "unat (day (now 21 7 45 31 12 24)) = 31" "unat (month (now 21 7 45 31 12 24)) = 12" "unat (year (now 21 7 45 31 12 24)) = 24"
    by (simp_all add: now_def)
  ultimately obtain s' where "clock_turn (\<lambda>_. evening) (now 0 0 0 0 0 0) demo_clock = Some (Inr ((), s'))"
    and g: "\<forall>i < 8. glyph (screen (display s')) 24 (71 + i) = (clock_text 4 7 45 0x3A ! i, 0xB0)" by auto
  moreover have "clock_text 4 7 45 0x3A ! 0 = 48" "clock_text 4 7 45 0x3A ! 1 = 52" by (simp_all add: clock_text_def digits_def)
  ultimately show ?thesis using g [rule_format, of 0] g [rule_format, of 1] by auto
qed

end
