(* ===== verification/Ata.thy ===== *)
theory Ata
  imports Command Fat32_Layout
begin

text \<open>
  The disk driver of the kernel, \<open>src/src/disk.c\<close>, which the filesystem is linked against when it does
  not run inside \<open>external-inserter.c\<close>.  The drive and the port instructions are not part of the
  source: the driver is a command on the state of an arbitrary machine that answers the four port
  instructions.  The last part relates it to the block operations of \<open>Disk\<close>, for every
  machine that behaves as a drive with programmed input and output.
\<close>

section \<open>Ports\<close>

record 'd port_io =
  port_in :: "u16 \<Rightarrow> 'd \<Rightarrow> u8 \<times> 'd"
  port_out :: "u16 \<Rightarrow> u8 \<Rightarrow> 'd \<Rightarrow> 'd"
  port_in16 :: "u16 \<Rightarrow> 'd \<Rightarrow> u16 \<times> 'd"
  port_out16 :: "u16 \<Rightarrow> u16 \<Rightarrow> 'd \<Rightarrow> 'd"

definition in8 :: "'d port_io \<Rightarrow> u16 \<Rightarrow> ('d, u8) cmd" where
  "in8 io p = (\<lambda>d. Some (Inr (port_in io p d)))"

definition out8 :: "'d port_io \<Rightarrow> u16 \<Rightarrow> u8 \<Rightarrow> ('d, unit) cmd" where
  "out8 io p v = modify (port_out io p v)"

definition in16 :: "'d port_io \<Rightarrow> u16 \<Rightarrow> ('d, u16) cmd" where
  "in16 io p = (\<lambda>d. Some (Inr (port_in16 io p d)))"

definition out16 :: "'d port_io \<Rightarrow> u16 \<Rightarrow> u16 \<Rightarrow> ('d, unit) cmd" where
  "out16 io p v = modify (port_out16 io p v)"

section \<open>The driver\<close>

abbreviation (input) ATA_STATUS_BSY :: u8 where "ATA_STATUS_BSY \<equiv> 0x80"
abbreviation (input) ATA_STATUS_RDY :: u8 where "ATA_STATUS_RDY \<equiv> 0x40"
abbreviation (input) HALF_BLOCK_SIZE :: nat where "HALF_BLOCK_SIZE \<equiv> 256"

partial_function (option) ATA_busy_wait :: "'d port_io \<Rightarrow> 'd \<Rightarrow> (fault + unit \<times> 'd) option" where
  "ATA_busy_wait io d = bindc (in8 io 0x1F7) (\<lambda>st d1.
     if st AND ATA_STATUS_BSY \<noteq> 0 then ATA_busy_wait io d1 else return () d1) d"

partial_function (option) ATA_DRQ_wait :: "'d port_io \<Rightarrow> 'd \<Rightarrow> (fault + unit \<times> 'd) option" where
  "ATA_DRQ_wait io d = bindc (in8 io 0x1F7) (\<lambda>st d1.
     if st AND ATA_STATUS_RDY = 0 then ATA_DRQ_wait io d1 else return () d1) d"

definition ata_command :: "'d port_io \<Rightarrow> u8 \<Rightarrow> u32 \<Rightarrow> u8 \<Rightarrow> ('d, unit) cmd" where
  "ata_command io code logical_block_address block_count =
     seqc [ATA_busy_wait io,
       out8 io 0x1F6 (ucast (0xE0 OR (drop_bit 24 logical_block_address AND 0xF))),
       out8 io 0x1F2 block_count,
       out8 io 0x1F3 (ucast logical_block_address),
       out8 io 0x1F4 (ucast (drop_bit 8 logical_block_address)),
       out8 io 0x1F5 (ucast (drop_bit 16 logical_block_address)),
       out8 io 0x1F7 code]"

lemma out16_step: "bindc (out16 io p v) f d = f () (port_out16 io p v d)"
  by (simp add: out16_def bindc_def modify_def)

text \<open>The result of reading is the bytes stored from \<open>ptr\<close> on: a 16-bit store is little-endian.\<close>

fun read_words :: "'d port_io \<Rightarrow> nat \<Rightarrow> ('d, u8 list) cmd" where
  "read_words io 0 = return []"
| "read_words io (Suc j) = bindc (in16 io 0x1F0) (\<lambda>w. bindc (read_words io j) (\<lambda>bs. return (le16 w @ bs)))"

fun read_sectors :: "'d port_io \<Rightarrow> nat \<Rightarrow> ('d, u8 list) cmd" where
  "read_sectors io 0 = return []"
| "read_sectors io (Suc i) =
     bindc (ATA_busy_wait io) (\<lambda>_. bindc (ATA_DRQ_wait io) (\<lambda>_.
     bindc (read_words io HALF_BLOCK_SIZE) (\<lambda>block. bindc (read_sectors io i) (\<lambda>bs. return (block @ bs)))))"

definition ata_read_blocks :: "'d port_io \<Rightarrow> u32 \<Rightarrow> u8 \<Rightarrow> ('d, u8 list) cmd" where
  "ata_read_blocks io logical_block_address block_count =
     bindc (ata_command io 0x20 logical_block_address block_count) (\<lambda>_. read_sectors io (unat block_count))"

text \<open>\<open>ptr\<close> is the object from the pointer on; a load past its end is out of bounds.\<close>

definition load_word :: "u8 list \<Rightarrow> nat \<Rightarrow> fault + u16" where
  "load_word ptr i = (if length ptr < 2 * i + 2 then Inl OutOfBounds else Inr (from_le16 (drop (2 * i) ptr)))"

definition write_sector :: "'d port_io \<Rightarrow> u8 list \<Rightarrow> nat \<Rightarrow> ('d, unit) cmd" where
  "write_sector io ptr i =
     seqc ([ATA_busy_wait io, ATA_DRQ_wait io] @
       map (\<lambda>j. bindc (lift (load_word ptr (HALF_BLOCK_SIZE * i + j))) (out16 io 0x1F0)) [0..<HALF_BLOCK_SIZE])"

definition ata_write_blocks :: "'d port_io \<Rightarrow> u8 list \<Rightarrow> u32 \<Rightarrow> u8 \<Rightarrow> ('d, unit) cmd" where
  "ata_write_blocks io ptr logical_block_address block_count =
     seqc (ata_command io 0x30 logical_block_address block_count # map (write_sector io ptr) [0..<unat block_count])"

section \<open>The contract of a drive\<close>

text \<open>
  What a drive with programmed input and output is documented to do (ATA/ATAPI-4, the data transfer
  protocols for the device 0 of a channel).  \<open>image\<close> is the contents of the disk, \<open>capacity\<close> its number of
  blocks, \<open>task\<close> the task-file registers.  In the phase \<open>DataIn\<close> the drive delivers words, in \<open>DataOut\<close>
  it collects the bytes of a block and then stores it.
\<close>

datatype ata_phase =
  Idle
  | DataIn "u16 list"  \<comment> \<open>the words to come\<close>
  | DataOut u32 "u8 list" nat  \<comment> \<open>the block, its bytes so far, the number of blocks to come, this one included\<close>

record ata =
  image :: disk
  capacity :: nat
  task :: "u16 \<Rightarrow> u8"
  phase :: ata_phase

definition task_lba :: "'a ata_scheme \<Rightarrow> u32" where
  "task_lba a = push_bit 24 (ucast (task a 0x1F6) AND 0xF) OR push_bit 16 (ucast (task a 0x1F5)) OR
     push_bit 8 (ucast (task a 0x1F4)) OR ucast (task a 0x1F3)"

definition task_count :: "'a ata_scheme \<Rightarrow> nat" where
  "task_count a = (if task a 0x1F2 = 0 then 256 else unat (task a 0x1F2))"

text \<open>A command that the drive carries out: device 0, block addresses, and blocks that it has.\<close>

definition task_ok :: "'a ata_scheme \<Rightarrow> bool" where
  "task_ok a \<longleftrightarrow> task a 0x1F6 AND 0x50 = 0x40 \<and> unat (task_lba a) + task_count a \<le> capacity a"

definition words_of :: "u8 list \<Rightarrow> u16 list" where
  "words_of bs = map (\<lambda>i. from_le16 (drop (2 * i) bs)) [0..<length bs div 2]"

definition sectors :: "'a ata_scheme \<Rightarrow> u16 list" where
  "sectors a = words_of (load_bytes (512 * task_lba a) (512 * task_count a) (image a))"

lemma lba_registers:
  assumes "unat lba < 2 ^ 28"
  shows "push_bit 24 (ucast (ucast (0xE0 OR (drop_bit 24 lba AND 0xF)) :: u8) AND 0xF) OR push_bit 16 (ucast (ucast (drop_bit 16 lba) :: u8)) OR
    push_bit 8 (ucast (ucast (drop_bit 8 lba) :: u8)) OR ucast (ucast lba :: u8) = (lba :: u32)"
proof -
  have m: "(0xF :: u32) = mask 4" "(0xE0 :: u32) = push_bit 5 (mask 3)" by (simp_all add: mask_eq_exp_minus_1)
  have top: "\<not> bit lba n" if "28 \<le> n" for n
  proof -
    have "unat lba < 2 ^ n" using assms that by (rule less_le_trans [OF _ power_increasing]) simp_all
    then have "\<not> bit (unat lba) n" by (simp add: bit_iff_odd)
    then show ?thesis by (simp add: bit_unsigned_iff)
  qed
  show ?thesis unfolding m
  proof (rule bit_word_eqI)
    fix n :: nat
    consider "n < 8" | "8 \<le> n" "n < 16" | "16 \<le> n" "n < 24" | "24 \<le> n" "n < 28" | "28 \<le> n" by linarith
    then show "bit (push_bit 24 (ucast (ucast (push_bit 5 (mask 3) OR (drop_bit 24 lba AND mask 4)) :: u8) AND mask 4 :: u32) OR
        push_bit 16 (ucast (ucast (drop_bit 16 lba) :: u8)) OR push_bit 8 (ucast (ucast (drop_bit 8 lba) :: u8)) OR
        ucast (ucast lba :: u8)) n = bit lba n"
      by cases (auto simp: bit_simps top)
  qed
qed

lemma device_register: "(ucast (0xE0 OR (drop_bit 24 (lba :: u32) AND 0xF)) :: u8) AND 0x50 = 0x40"
proof -
  have "(ucast (0xE0 OR (drop_bit 24 lba AND 0xF)) :: u8) = 0xE0 OR (ucast (drop_bit 24 lba) AND 0xF)"
    by (rule bit_word_eqI) (auto simp: bit_simps)
  moreover have "(0xE0 OR (x AND 0xF)) AND 0x50 = (0x40 :: u8)" for x
    by (simp add: bit.conj_disj_distrib2 and.assoc)
  ultimately show ?thesis by simp
qed

lemma words_of_bytes:
  assumes "length bs = 2 * k"
  shows "length (words_of bs) = k" "concat (map le16 (words_of bs)) = bs"
proof -
  show "length (words_of bs) = k" using assms by (simp add: words_of_def)
  have "concat (map (\<lambda>i. le16 (from_le16 (drop (2 * i) bs))) [0..<j]) = take (2 * j) bs" if "j \<le> k" for j
    using that
  proof (induction j)
    case (Suc j)
    have "le16 (from_le16 (drop (2 * j) bs)) = take 2 (drop (2 * j) bs)" using Suc.prems assms by (intro le16_at) simp
    then show ?case using Suc take_add [of "2 * j" 2 bs] by simp
  qed simp
  from this [of k] show "concat (map le16 (words_of bs)) = bs" using assms by (simp add: words_of_def comp_def)
qed

lemma out8_step [cmd]: "bindc (out8 io p v) f d = f () (port_out io p v d)"
  by (simp add: out8_def cmd)

text \<open>
  \<open>busy\<close> is the number of further status reads that show the drive busy, \<open>lag\<close> the number of status reads
  after those until the drive requests data.  A status read changes nothing but these.  The bits are BSY
  \<open>0x80\<close>, DRDY \<open>0x40\<close>, which a drive that has spun up shows whenever it is not busy, and DRQ \<open>0x08\<close>, which
  it shows when a word may pass the data port.  Registers keep what is written to them while the drive is
  neither busy nor in a transfer, and only then are commands accepted.  A word passes the data port only
  with DRQ; within a block the drive stays ready, at its end it may become busy again.  Nothing is said
  of a register write or a command while the drive is busy, of a command for blocks it does not have, or
  of a word without DRQ.
\<close>

locale ata_drive =
  fixes io :: "'d port_io" and view :: "'d \<Rightarrow> ata" and busy :: "'d \<Rightarrow> nat" and lag :: "'d \<Rightarrow> nat"
  assumes status_read: "port_in io 0x1F7 d = (st, d') \<Longrightarrow>
      view d' = view d \<and> busy d' = busy d - 1 \<and> lag d' = (if busy d = 0 then lag d - 1 else lag d)"
    and status_bits: "port_in io 0x1F7 d = (st, d') \<Longrightarrow>
      (st AND 0x80 = 0 \<longleftrightarrow> busy d = 0) \<and>
      (busy d = 0 \<longrightarrow> st AND 0x40 \<noteq> 0 \<and> (st AND 0x08 \<noteq> 0 \<longleftrightarrow> phase (view d) \<noteq> Idle \<and> lag d = 0))"
    and register_write: "p \<in> {0x1F2, 0x1F3, 0x1F4, 0x1F5, 0x1F6} \<Longrightarrow> busy d = 0 \<Longrightarrow> phase (view d) = Idle \<Longrightarrow>
      view (port_out io p v d) = (view d)\<lparr> task := (task (view d))(p := v) \<rparr> \<and> busy (port_out io p v d) = 0"
    and read_command: "busy d = 0 \<Longrightarrow> phase (view d) = Idle \<Longrightarrow> task_ok (view d) \<Longrightarrow>
      \<exists>t. view (port_out io 0x1F7 0x20 d) = (view d)\<lparr> task := t, phase := DataIn (sectors (view d)) \<rparr>"
    and write_command: "busy d = 0 \<Longrightarrow> phase (view d) = Idle \<Longrightarrow> task_ok (view d) \<Longrightarrow>
      \<exists>t. view (port_out io 0x1F7 0x30 d) =
        (view d)\<lparr> task := t, phase := DataOut (task_lba (view d)) [] (task_count (view d)) \<rparr>"
    and data_in: "phase (view d) = DataIn (w # ws) \<Longrightarrow> busy d = 0 \<Longrightarrow> lag d = 0 \<Longrightarrow> port_in16 io 0x1F0 d = (w', d') \<Longrightarrow>
      w' = w \<and> (\<exists>t. view d' = (view d)\<lparr> task := t, phase := if ws = [] then Idle else DataIn ws \<rparr>) \<and>
      (length ws mod 256 \<noteq> 0 \<longrightarrow> busy d' = 0 \<and> lag d' = 0)"
    and data_out: "phase (view d) = DataOut b bs (Suc n) \<Longrightarrow> length bs + 2 < 512 \<Longrightarrow> busy d = 0 \<Longrightarrow> lag d = 0 \<Longrightarrow>
      view (port_out16 io 0x1F0 w d) = (view d)\<lparr> phase := DataOut b (bs @ le16 w) (Suc n) \<rparr> \<and>
      busy (port_out16 io 0x1F0 w d) = 0 \<and> lag (port_out16 io 0x1F0 w d) = 0"
    and data_last: "phase (view d) = DataOut b bs (Suc n) \<Longrightarrow> length bs + 2 = 512 \<Longrightarrow> busy d = 0 \<Longrightarrow> lag d = 0 \<Longrightarrow>
      \<exists>t. view (port_out16 io 0x1F0 w d) = (view d)\<lparr> image := store_bytes (512 * b) (bs @ le16 w) (image (view d)),
        task := t, phase := if n = 0 then Idle else DataOut (b + 1) [] n \<rparr>"

text \<open>
  Drives that request data no later than two status reads after they stop being busy.  From ATA/ATAPI-4
  on DRQ is set before BSY is cleared, so there is no lag; older drives may take some time.  The driver's
  two waits read the status at least twice after the drive has stopped being busy, without looking at DRQ.
\<close>

locale prompt_drive = ata_drive io view busy lag
  for io :: "'d port_io" and view :: "'d \<Rightarrow> ata" and busy :: "'d \<Rightarrow> nat" and lag :: "'d \<Rightarrow> nat" +
  assumes prompt: "busy d = 0 \<Longrightarrow> lag d \<le> 2"

context ata_drive
begin

text \<open>Waiting ends.\<close>

lemma busy_wait: "\<exists>d' d1. ATA_busy_wait io d = Some (Inr ((), d')) \<and> view d' = view d \<and> busy d' = 0 \<and>
  busy d1 = 0 \<and> lag d' = lag d1 - 1"
proof (induction "busy d" arbitrary: d rule: less_induct)
  case less
  obtain st d1 where p: "port_in io 0x1F7 d = (st, d1)" by force
  note l = status_read [OF p] status_bits [OF p]
  show ?case
  proof (cases "busy d = 0")
    case True
    then show ?thesis using l p
      by (subst ATA_busy_wait.simps) (auto simp: bindc_def in8_def return_def intro!: exI [where x = d])
  next
    case False
    then obtain d' d2 where "ATA_busy_wait io d1 = Some (Inr ((), d'))" "view d' = view d1" "busy d' = 0"
        "busy d2 = 0" "lag d' = lag d2 - 1"
      using less [of d1] l by auto
    then show ?thesis using False l p
      by (subst ATA_busy_wait.simps) (auto simp: bindc_def in8_def intro!: exI [where x = d2])
  qed
qed

lemma drq_wait:
  assumes "busy d = 0"
  shows "\<exists>d'. ATA_DRQ_wait io d = Some (Inr ((), d')) \<and> view d' = view d \<and> busy d' = 0 \<and> lag d' = lag d - 1"
proof -
  obtain st d1 where p: "port_in io 0x1F7 d = (st, d1)" by force
  note l = status_read [OF p] status_bits [OF p]
  then show ?thesis using p assms by (subst ATA_DRQ_wait.simps) (simp add: bindc_def in8_def return_def)
qed

text \<open>Before the command the registers hold the block number and the count.\<close>

lemma command_given:
  assumes "unat lba < 2 ^ 28" and "phase (view d) = Idle"
  obtains d0 t where "ata_command io code lba n d = Some (Inr ((), port_out io 0x1F7 code d0))"
    "view d0 = (view d)\<lparr> task := t \<rparr>" "busy d0 = 0" "task_lba (view d0) = lba" "t 0x1F2 = n" "t 0x1F6 AND 0x50 = 0x40"
proof -
  obtain d1 where d1: "ATA_busy_wait io d = Some (Inr ((), d1))" "view d1 = view d" "busy d1 = 0" using busy_wait by blast
  let ?h = "ucast (0xE0 OR (drop_bit 24 lba AND 0xF)) :: u8"
  let ?d2 = "port_out io 0x1F6 ?h d1" let ?d3 = "port_out io 0x1F2 n ?d2" let ?d4 = "port_out io 0x1F3 (ucast lba) ?d3"
  let ?d5 = "port_out io 0x1F4 (ucast (drop_bit 8 lba)) ?d4" let ?d0 = "port_out io 0x1F5 (ucast (drop_bit 16 lba)) ?d5"
  have r: "view ?d2 = (view d)\<lparr> task := (task (view d))(0x1F6 := ?h) \<rparr>" "busy ?d2 = 0"
    using register_write [of "0x1F6" d1 ?h] d1 assms(2) by simp_all
  then have r3: "view ?d3 = (view d)\<lparr> task := (task (view d))(0x1F6 := ?h, 0x1F2 := n) \<rparr>" "busy ?d3 = 0"
    using register_write [of "0x1F2" ?d2 n] assms(2) by simp_all
  then have r4: "view ?d4 = (view d)\<lparr> task := (task (view d))(0x1F6 := ?h, 0x1F2 := n, 0x1F3 := ucast lba) \<rparr>" "busy ?d4 = 0"
    using register_write [of "0x1F3" ?d3 "ucast lba"] assms(2) by simp_all
  then have r5: "view ?d5 = (view d)\<lparr> task := (task (view d))(0x1F6 := ?h, 0x1F2 := n, 0x1F3 := ucast lba,
      0x1F4 := ucast (drop_bit 8 lba)) \<rparr>" "busy ?d5 = 0"
    using register_write [of "0x1F4" ?d4 "ucast (drop_bit 8 lba)"] assms(2) by simp_all
  then have r0: "view ?d0 = (view d)\<lparr> task := (task (view d))(0x1F6 := ?h, 0x1F2 := n, 0x1F3 := ucast lba,
      0x1F4 := ucast (drop_bit 8 lba), 0x1F5 := ucast (drop_bit 16 lba)) \<rparr>" "busy ?d0 = 0"
    using register_write [of "0x1F5" ?d5 "ucast (drop_bit 16 lba)"] assms(2) by simp_all
  have "ata_command io code lba n d = Some (Inr ((), port_out io 0x1F7 code ?d0))"
    using d1(1) by (simp add: ata_command_def cmd)
  moreover have "task_lba (view ?d0) = lba"
    using lba_registers [OF assms(1)] unfolding r0(1) by (simp add: task_lba_def)
  moreover have "?h AND 0x50 = 0x40" by (rule device_register)
  ultimately show ?thesis using r0
    by (intro that [of ?d0 "(task (view d))(0x1F6 := ?h, 0x1F2 := n, 0x1F3 := ucast lba,
      0x1F4 := ucast (drop_bit 8 lba), 0x1F5 := ucast (drop_bit 16 lba))"]) simp_all
qed

end

context prompt_drive
begin

lemma ready:
  obtains d1 d2 where "ATA_busy_wait io d = Some (Inr ((), d1))" "ATA_DRQ_wait io d1 = Some (Inr ((), d2))"
    "view d2 = view d" "busy d2 = 0" "lag d2 = 0"
proof -
  obtain d1 d0 where d1: "ATA_busy_wait io d = Some (Inr ((), d1))" "view d1 = view d" "busy d1 = 0" "busy d0 = 0" "lag d1 = lag d0 - 1"
    using busy_wait by blast
  obtain d2 where "ATA_DRQ_wait io d1 = Some (Inr ((), d2))" "view d2 = view d1" "busy d2 = 0" "lag d2 = lag d1 - 1"
    using drq_wait [OF d1(3)] by blast
  then show thesis using that d1 prompt [OF d1(4)] by simp
qed

lemma read_words_data:
  assumes "phase (view d) = DataIn (ws @ rest)" "length rest mod 256 = 0" "length ws \<le> 256" "busy d = 0" "lag d = 0" "ws \<noteq> []"
  shows "\<exists>d' t. read_words io (length ws) d = Some (Inr (concat (map le16 ws), d')) \<and>
    view d' = (view d)\<lparr> task := t, phase := if rest = [] then Idle else DataIn rest \<rparr>"
  using assms
proof (induction ws arbitrary: d)
  case (Cons w ws)
  obtain w' d1 where p: "port_in16 io 0x1F0 d = (w', d1)" by force
  have "phase (view d) = DataIn (w # (ws @ rest))" using Cons.prems(1) by simp
  from data_in [OF this Cons.prems(4,5) p] obtain t where
    l: "w' = w" "view d1 = (view d)\<lparr> task := t, phase := if ws @ rest = [] then Idle else DataIn (ws @ rest) \<rparr>"
      "length (ws @ rest) mod 256 \<noteq> 0 \<longrightarrow> busy d1 = 0 \<and> lag d1 = 0" by auto
  show ?case
  proof (cases "ws = []")
    case True
    then show ?thesis using p l by (auto simp: bindc_def in16_def return_def)
  next
    case False
    have "length (ws @ rest) mod 256 = length ws" using Cons.prems(2,3) by (simp add: mod_add_eq [symmetric, of "length ws"])
    then have r: "busy d1 = 0" "lag d1 = 0" using False l(3) by auto
    have "phase (view d1) = DataIn (ws @ rest)" using l(2) False by simp
    then obtain d' t' where "read_words io (length ws) d1 = Some (Inr (concat (map le16 ws), d'))"
        "view d' = (view d1)\<lparr> task := t', phase := if rest = [] then Idle else DataIn rest \<rparr>"
      using Cons.IH [of d1] Cons.prems(2,3) r False by auto
    then show ?thesis using p l by (auto simp: bindc_def in16_def return_def)
  qed
qed simp

lemma read_sectors_data:
  assumes "phase (view d) = DataIn ws" "length ws = 256 * i" "0 < i"
  shows "\<exists>d' t. read_sectors io i d = Some (Inr (concat (map le16 ws), d')) \<and> view d' = (view d)\<lparr> task := t, phase := Idle \<rparr>"
  using assms
proof (induction i arbitrary: d ws)
  case (Suc i)
  obtain d1 d2 where d: "ATA_busy_wait io d = Some (Inr ((), d1))" "ATA_DRQ_wait io d1 = Some (Inr ((), d2))"
    "view d2 = view d" "busy d2 = 0" "lag d2 = 0" by (rule ready)
  let ?a = "take 256 ws" and ?b = "drop 256 ws"
  have len: "length ?a = 256" "length ?b = 256 * i" using Suc.prems(2) by simp_all
  have "phase (view d2) = DataIn (?a @ ?b)" "length ?b mod 256 = 0" "length ?a \<le> 256" "?a \<noteq> []"
    using Suc.prems(1) d(3) len by auto
  from read_words_data [OF this(1-3) d(4,5) this(4)] obtain d3 t where
    d3: "read_words io 256 d2 = Some (Inr (concat (map le16 ?a), d3))"
      "view d3 = (view d)\<lparr> task := t, phase := if ?b = [] then Idle else DataIn ?b \<rparr>"
    unfolding len(1) d(3) by blast
  have c: "concat (map le16 ws) = concat (map le16 ?a) @ concat (map le16 ?b)"
    by (metis append_take_drop_id concat_append map_append)
  have run: "read_sectors io (Suc i) d = bindc (read_sectors io i) (\<lambda>bs. return (concat (map le16 ?a) @ bs)) d3"
    by (simp add: bindc_step [where m = "ATA_busy_wait io", OF d(1)] bindc_step [where m = "ATA_DRQ_wait io", OF d(2)] bindc_step [where m = "read_words io 256", OF d3(1)])
  show ?case
  proof (cases "i = 0")
    case True
    then have "?b = []" using len(2) by simp
    then show ?thesis using d3(2) c True unfolding run by (auto simp: bindc_return return_def bindc_def)
  next
    case False
    then have "?b \<noteq> []" using len(2) by auto
    then have "phase (view d3) = DataIn ?b" using d3(2) by simp
    from Suc.IH [OF this len(2)] False obtain d4 t' where
      d4: "read_sectors io i d3 = Some (Inr (concat (map le16 ?b), d4))" "view d4 = (view d3)\<lparr> task := t', phase := Idle \<rparr>" by auto
    then show ?thesis using d3(2) c unfolding run bindc_step [where m = "read_sectors io i", OF d4(1)] by (intro exI [where x = d4] exI [where x = t']) (simp add: return_def)
  qed
qed simp

lemma read_refines:
  assumes idle: "phase (view d) = Idle" and n: "0 < n" "unat lba + unat n \<le> capacity (view d)" "capacity (view d) \<le> 2 ^ 23"
  shows "\<exists>d'. ata_read_blocks io lba n d = Some (Inr (read_blocks (image (view d)) lba n, d')) \<and>
    image (view d') = image (view d) \<and> phase (view d') = Idle"
proof -
  have "unat lba < 2 ^ 28" using n(2,3) by simp
  then obtain d0 t where d0: "ata_command io 0x20 lba n d = Some (Inr ((), port_out io 0x1F7 0x20 d0))"
    "view d0 = (view d)\<lparr> task := t \<rparr>" "busy d0 = 0" "task_lba (view d0) = lba" "t 0x1F2 = n" "t 0x1F6 AND 0x50 = 0x40"
    by (rule command_given [OF _ idle])
  let ?d1 = "port_out io 0x1F7 0x20 d0"
  have c: "task_count (view d0) = unat n" using d0(2,5) n(1) by (auto simp: task_count_def)
  have "task_ok (view d0)" using d0(2,4,6) n(2) c by (simp add: task_ok_def)
  then obtain t' where v: "view ?d1 = (view d0)\<lparr> task := t', phase := DataIn (sectors (view d0)) \<rparr>"
    using read_command [OF d0(3)] d0(2) idle by auto
  let ?bs = "load_bytes (512 * lba) (512 * unat n) (image (view d))"
  have s: "sectors (view d0) = words_of ?bs" using d0(2,4) c by (simp add: sectors_def)
  have w: "length (words_of ?bs) = 256 * unat n" "concat (map le16 (words_of ?bs)) = ?bs"
    by (rule words_of_bytes, simp)+
  have "0 < unat n" using n(1) by (simp add: unat_gt_0)
  then obtain d' t'' where "read_sectors io (unat n) ?d1 = Some (Inr (concat (map le16 (words_of ?bs)), d'))"
    "view d' = (view ?d1)\<lparr> task := t'', phase := Idle \<rparr>"
    using read_sectors_data [of ?d1 "words_of ?bs"] s w(1) v by auto
  moreover have "ata_read_blocks io lba n d = read_sectors io (unat n) ?d1"
    by (simp add: ata_read_blocks_def cmd d0(1))
  ultimately show ?thesis unfolding w(2) read_blocks_load using d0(2) v by simp
qed


text \<open>The words of one block, the last of which stores it.\<close>

lemma send_words:
  assumes "phase (view d) = DataOut b bs (Suc n)" "length bs + 2 * length ws = 512" "busy d = 0" "lag d = 0" "ws \<noteq> []"
  shows "\<exists>d' t. seqc (map (out16 io 0x1F0) ws) d = Some (Inr ((), d')) \<and>
    view d' = (view d)\<lparr> image := store_bytes (512 * b) (bs @ concat (map le16 ws)) (image (view d)),
      task := t, phase := if n = 0 then Idle else DataOut (b + 1) [] n \<rparr>"
  using assms
proof (induction ws arbitrary: d bs)
  case (Cons w ws)
  let ?d1 = "port_out16 io 0x1F0 w d"
  show ?case
  proof (cases "ws = []")
    case True
    then obtain t where "view ?d1 = (view d)\<lparr> image := store_bytes (512 * b) (bs @ le16 w) (image (view d)),
        task := t, phase := if n = 0 then Idle else DataOut (b + 1) [] n \<rparr>"
      using data_last [OF Cons.prems(1) _ Cons.prems(3,4), of w] Cons.prems(2) by auto
    then show ?thesis using True by (auto simp: seqc_simps out16_step)
  next
    case False
    then have lt: "length bs + 2 < 512" using Cons.prems(2) by (cases ws) simp_all
    from data_out [OF Cons.prems(1) lt Cons.prems(3,4), of w]
    have l: "view ?d1 = (view d)\<lparr> phase := DataOut b (bs @ le16 w) (Suc n) \<rparr>" "busy ?d1 = 0" "lag ?d1 = 0" by auto
    have "phase (view ?d1) = DataOut b (bs @ le16 w) (Suc n)" "length (bs @ le16 w) + 2 * length ws = 512"
      using l(1) Cons.prems(2) by simp_all
    from Cons.IH [OF this l(2,3) False] obtain d' t where
      d': "seqc (map (out16 io 0x1F0) ws) ?d1 = Some (Inr ((), d'))"
        "view d' = (view ?d1)\<lparr> image := store_bytes (512 * b) ((bs @ le16 w) @ concat (map le16 ws)) (image (view ?d1)),
          task := t, phase := if n = 0 then Idle else DataOut (b + 1) [] n \<rparr>" by blast
    then show ?thesis using l(1) by (intro exI [where x = d'] exI [where x = t]) (simp add: seqc_simps out16_step)
  qed
qed simp

lemma write_sector_data:
  assumes "512 * i + 512 \<le> length ptr" "phase (view d) = DataOut b [] (Suc k)"
  shows "\<exists>d' t. write_sector io ptr i d = Some (Inr ((), d')) \<and>
    view d' = (view d)\<lparr> image := store_bytes (512 * b) (take 512 (drop (512 * i) ptr)) (image (view d)),
      task := t, phase := if k = 0 then Idle else DataOut (b + 1) [] k \<rparr>"
proof -
  let ?ws = "words_of (take 512 (drop (512 * i) ptr))"
  have w: "length ?ws = 256" "concat (map le16 ?ws) = take 512 (drop (512 * i) ptr)"
    by (rule words_of_bytes, use assms(1) in simp)+
  obtain d1 d2 where d: "ATA_busy_wait io d = Some (Inr ((), d1))" "ATA_DRQ_wait io d1 = Some (Inr ((), d2))"
    "view d2 = view d" "busy d2 = 0" "lag d2 = 0" by (rule ready)
  have "load_word ptr (256 * i + j) = Inr (?ws ! j)" if "j < 256" for j
  proof -
    have l: "length (take 512 (drop (512 * i) ptr)) div 2 = 256" using assms(1) by simp
    have n: "ptr ! (512 * i + m) = take 512 (drop (512 * i) ptr) ! m" if "m < 512" for m using assms(1) that by simp
    have "from_le16 (drop (2 * (256 * i + j)) ptr) = from_le16 (drop (2 * j) (take 512 (drop (512 * i) ptr)))"
      using that assms(1) by (simp add: from_le16_def distrib_left add.assoc)
    then show ?thesis using that assms(1) l by (simp add: load_word_def words_of_def)
  qed
  then have "map (\<lambda>j. bindc (lift (load_word ptr (256 * i + j))) (out16 io 0x1F0)) [0..<256] = map (\<lambda>j. out16 io 0x1F0 (?ws ! j)) [0..<256]"
    by (intro map_cong refl) (auto simp: fun_eq_iff bindc_def lift_def simp del: upt_rec_numeral)
  also have "\<dots> = map (out16 io 0x1F0) (map ((!) ?ws) [0..<length ?ws])" unfolding w(1) by (simp add: comp_def del: upt_rec_numeral)
  also have "\<dots> = map (out16 io 0x1F0) ?ws" unfolding map_nth ..
  finally have m: "map (\<lambda>j. bindc (lift (load_word ptr (256 * i + j))) (out16 io 0x1F0)) [0..<256] = map (out16 io 0x1F0) ?ws" .
  have "phase (view d2) = DataOut b [] (Suc k)" "length ([] :: u8 list) + 2 * length ?ws = 512" "?ws \<noteq> []"
    using assms(2) d(3) w(1) by auto
  from send_words [OF this(1,2) d(4,5) this(3)] obtain d3 t where d3: "seqc (map (out16 io 0x1F0) ?ws) d2 = Some (Inr ((), d3))"
    "view d3 = (view d)\<lparr> image := store_bytes (512 * b) (take 512 (drop (512 * i) ptr)) (image (view d)),
      task := t, phase := if k = 0 then Idle else DataOut (b + 1) [] k \<rparr>"
    unfolding w append_Nil d(3) by blast
  have "write_sector io ptr i d = seqc (map (out16 io 0x1F0) ?ws) d2"
    unfolding write_sector_def m using d(1,2) by (simp add: seqc_simps cmd)
  then show ?thesis using d3 by auto
qed

lemma write_sectors_data:
  assumes "512 * n \<le> length ptr" "i < n" "phase (view d) = DataOut (lba + of_nat i) [] (n - i)"
  shows "\<exists>d'. seqc (map (write_sector io ptr) [i..<n]) d = Some (Inr ((), d')) \<and>
    image (view d') = fold (write_block_at ptr lba) [i..<n] (image (view d)) \<and> phase (view d') = Idle"
  using assms(2,3)
proof (induction "n - i" arbitrary: i d)
  case (Suc k)
  have u: "[i..<n] = i # [Suc i..<n]" using Suc.hyps(2) by (simp add: upt_conv_Cons)
  have k: "k = n - Suc i" using Suc.hyps(2) by simp
  have "512 * i + 512 \<le> length ptr" using assms(1) Suc.prems(1) by simp
  moreover have "phase (view d) = DataOut (lba + of_nat i) [] (Suc k)" using Suc.hyps(2) Suc.prems(2) by simp
  ultimately obtain d1 t where d1: "write_sector io ptr i d = Some (Inr ((), d1))"
    "view d1 = (view d)\<lparr> image := store_bytes (512 * (lba + of_nat i)) (take 512 (drop (512 * i) ptr)) (image (view d)),
      task := t, phase := if k = 0 then Idle else DataOut (lba + of_nat i + 1) [] k \<rparr>"
    using write_sector_data [of i ptr d "lba + of_nat i" k] by blast
  have img: "image (view d1) = write_block_at ptr lba i (image (view d))" using d1(2) by (simp add: write_block_at_def)
  show ?case
  proof (cases "k = 0")
    case True
    then have e: "[Suc i..<n] = []" using k by simp
    show ?thesis using d1 img True unfolding u e by (simp add: seqc_simps cmd)
  next
    case False
    then have "Suc i < n" "phase (view d1) = DataOut (lba + of_nat (Suc i)) [] (n - Suc i)"
      using k d1(2) by (simp_all add: add.assoc add.commute)
    from Suc.hyps(1) [OF k this] obtain d' where "seqc (map (write_sector io ptr) [Suc i..<n]) d1 = Some (Inr ((), d'))"
      "image (view d') = fold (write_block_at ptr lba) [Suc i..<n] (image (view d1))" "phase (view d') = Idle" by blast
    then show ?thesis using d1(1) img by (simp add: u seqc_simps cmd)
  qed
qed simp

lemma write_refines:
  assumes idle: "phase (view d) = Idle" and n: "0 < n" "unat lba + unat n \<le> capacity (view d)" "capacity (view d) \<le> 2 ^ 23"
    and ptr: "512 * unat n \<le> length ptr"
  shows "\<exists>d'. ata_write_blocks io ptr lba n d = Some (Inr ((), d')) \<and>
    image (view d') = write_blocks ptr lba n (image (view d)) \<and> phase (view d') = Idle"
proof -
  have "unat lba < 2 ^ 28" using n(2,3) by simp
  then obtain d0 t where d0: "ata_command io 0x30 lba n d = Some (Inr ((), port_out io 0x1F7 0x30 d0))"
    "view d0 = (view d)\<lparr> task := t \<rparr>" "busy d0 = 0" "task_lba (view d0) = lba" "t 0x1F2 = n" "t 0x1F6 AND 0x50 = 0x40"
    by (rule command_given [OF _ idle])
  let ?d1 = "port_out io 0x1F7 0x30 d0"
  have c: "task_count (view d0) = unat n" using d0(2,5) n(1) by (auto simp: task_count_def)
  have "task_ok (view d0)" using d0(2,4,6) n(2) c by (simp add: task_ok_def)
  then obtain t' where v: "view ?d1 = (view d0)\<lparr> task := t', phase := DataOut lba [] (unat n) \<rparr>"
    using write_command [OF d0(3)] d0(2,4) idle c by auto
  have "0 < unat n" using n(1) by (simp add: unat_gt_0)
  then obtain d' where "seqc (map (write_sector io ptr) [0..<unat n]) ?d1 = Some (Inr ((), d'))"
    "image (view d') = fold (write_block_at ptr lba) [0..<unat n] (image (view ?d1))" "phase (view d') = Idle"
    using write_sectors_data [OF ptr, of 0 ?d1 lba] v by auto
  moreover have "ata_write_blocks io ptr lba n d = seqc (map (write_sector io ptr) [0..<unat n]) ?d1"
    by (simp add: ata_write_blocks_def seqc_simps cmd d0(1))
  ultimately show ?thesis using d0(2) v by (simp add: write_blocks_def)
qed

end

section \<open>Properties\<close>

text \<open>
  C37: On every drive that keeps the documented protocol and requests data no later than two status reads
  after it stops being busy, reading one or more blocks that the drive has returns, gives the bytes that
  the block operations of the filesystem's model give on the contents of the disk, leaves the disk
  unchanged and the drive idle again.  Every wait of the driver is needed for this: it never looks at the
  bit that requests data, and its two status reads are what covers the time until then.  The bound on
  the capacity is that of the model of the disk, whose bytes have addresses of 32 bits.
\<close>

theorem ata_read_refines:
  assumes "prompt_drive io view busy lag" and "phase (view d) = Idle"
    and "0 < n" "unat lba + unat n \<le> capacity (view d)" "capacity (view d) \<le> 2 ^ 23"
  shows "\<exists>d'. ata_read_blocks io lba n d = Some (Inr (read_blocks (image (view d)) lba n, d')) \<and>
    image (view d') = image (view d) \<and> phase (view d') = Idle"
  by (rule prompt_drive.read_refines [OF assms])

text \<open>
  C38: On the same drives, writing one or more blocks that the drive has, from a buffer that holds them,
  returns, changes the disk as the block operations of the filesystem's model do, and leaves the drive
  idle again.
\<close>

theorem ata_write_refines:
  assumes "prompt_drive io view busy lag" and "phase (view d) = Idle"
    and "0 < n" "unat lba + unat n \<le> capacity (view d)" "capacity (view d) \<le> 2 ^ 23"
    and "512 * unat n \<le> length ptr"
  shows "\<exists>d'. ata_write_blocks io ptr lba n d = Some (Inr ((), d')) \<and>
    image (view d') = write_blocks ptr lba n (image (view d)) \<and> phase (view d') = Idle"
  by (rule prompt_drive.write_refines [OF assms])

section \<open>Two drives\<close>

text \<open>
  The image of \<open>external-inserter.c\<close> behind ports.  The drive is busy for some status reads after a command
  and after each block, and requests data \<open>L\<close> status reads later; a register write, a command or a word
  that comes too early is lost, and the port then reads as all ones.
\<close>

record ata_device = ata +
  waiting :: nat
  missing :: nat

definition device_lag :: "nat \<Rightarrow> ata_device \<Rightarrow> nat" where
  "device_lag L a = min L (missing a)"

lemma device_lag_simps [simp]:
  "device_lag L (a\<lparr> phase := p \<rparr>) = device_lag L a" "device_lag L (a\<lparr> waiting := n \<rparr>) = device_lag L a"
  "device_lag L (a\<lparr> missing := n \<rparr>) = min L n" "device_lag L a \<le> L" "min L (device_lag L a - k) = device_lag L a - k"
  by (auto simp: device_lag_def)

definition device_ports :: "nat \<Rightarrow> ata_device port_io" where
  "device_ports L = \<lparr>
     port_in = (\<lambda>p a.
       if p \<noteq> 0x1F7 then (0, a)
       else if waiting a \<noteq> 0 then (0x80, a\<lparr> waiting := waiting a - 1 \<rparr>)
       else (if phase a \<noteq> Idle \<and> device_lag L a = 0 then 0x58 else 0x50, a\<lparr> missing := device_lag L a - 1 \<rparr>)),
     port_out = (\<lambda>p v a.
       if waiting a \<noteq> 0 \<or> phase a \<noteq> Idle then a
       else if p \<in> {0x1F2, 0x1F3, 0x1F4, 0x1F5, 0x1F6} then a\<lparr> task := (task a)(p := v) \<rparr>
       else if p = 0x1F7 \<and> v = 0x20 \<and> task_ok a then a\<lparr> phase := DataIn (sectors a), waiting := 5, missing := L \<rparr>
       else if p = 0x1F7 \<and> v = 0x30 \<and> task_ok a
       then a\<lparr> phase := DataOut (task_lba a) [] (task_count a), waiting := 5, missing := L \<rparr>
       else a),
     port_in16 = (\<lambda>p a.
       if p \<noteq> 0x1F0 \<or> waiting a \<noteq> 0 \<or> device_lag L a \<noteq> 0 then (0xFFFF, a)
       else case phase a of
         DataIn (w # ws) \<Rightarrow> (w, a\<lparr> phase := if ws = [] then Idle else DataIn ws,
           waiting := if length ws mod 256 = 0 then 3 else 0, missing := if length ws mod 256 = 0 then L else 0 \<rparr>)
       | _ \<Rightarrow> (0xFFFF, a)),
     port_out16 = (\<lambda>p w a.
       if p \<noteq> 0x1F0 \<or> waiting a \<noteq> 0 \<or> device_lag L a \<noteq> 0 then a
       else case phase a of
         DataOut b bs (Suc n) \<Rightarrow>
           if length bs + 2 < 512 then a\<lparr> phase := DataOut b (bs @ le16 w) (Suc n) \<rparr>
           else a\<lparr> image := store_bytes (512 * b) (bs @ le16 w) (image a),
             phase := if n = 0 then Idle else DataOut (b + 1) [] n, waiting := 3, missing := L \<rparr>
       | _ \<Rightarrow> a) \<rparr>"

lemma truncate_simps [simp]:
  "image (ata.truncate a) = image a" "capacity (ata.truncate a) = capacity a" "task (ata.truncate a) = task a"
  "phase (ata.truncate a) = phase a" "sectors (ata.truncate a) = sectors a" "task_ok (ata.truncate a) = task_ok a"
  "task_lba (ata.truncate a) = task_lba a" "task_count (ata.truncate a) = task_count a"
  by (simp_all add: ata.truncate_def sectors_def task_ok_def task_lba_def task_count_def)

lemma truncate_updates [simp]:
  "ata.truncate (a\<lparr> phase := p \<rparr>) = (ata.truncate a)\<lparr> phase := p \<rparr>"
  "ata.truncate (a\<lparr> waiting := n \<rparr>) = ata.truncate a" "ata.truncate (a\<lparr> missing := n \<rparr>) = ata.truncate a"
  by (simp_all add: ata.truncate_def)

lemma same_task: "(ata.truncate a)\<lparr> task := task a \<rparr> = ata.truncate a"
  by (simp add: ata.truncate_def)

interpretation device: ata_drive "device_ports L" ata.truncate waiting "device_lag L" for L
proof unfold_locales
  fix d d' :: ata_device and st w' w :: "8 word" and p v
  show "port_in (device_ports L) 0x1F7 d = (st, d') \<Longrightarrow> ata.truncate d' = ata.truncate d \<and> waiting d' = waiting d - 1 \<and>
      device_lag L d' = (if waiting d = 0 then device_lag L d - 1 else device_lag L d)"
    by (auto simp: device_ports_def ata.truncate_def split: if_splits)
  show "port_in (device_ports L) 0x1F7 d = (st, d') \<Longrightarrow> (st AND 0x80 = 0 \<longleftrightarrow> waiting d = 0) \<and>
      (waiting d = 0 \<longrightarrow> st AND 0x40 \<noteq> 0 \<and> (st AND 0x08 \<noteq> 0 \<longleftrightarrow> phase (ata.truncate d) \<noteq> Idle \<and> device_lag L d = 0))"
    by (auto simp: device_ports_def split: if_splits)
  show "p \<in> {0x1F2, 0x1F3, 0x1F4, 0x1F5, 0x1F6} \<Longrightarrow> waiting d = 0 \<Longrightarrow> phase (ata.truncate d) = Idle \<Longrightarrow>
      ata.truncate (port_out (device_ports L) p v d) = (ata.truncate d)\<lparr> task := (task (ata.truncate d))(p := v) \<rparr> \<and>
      waiting (port_out (device_ports L) p v d) = 0"
    by (auto simp: device_ports_def ata.truncate_def)
  show "waiting d = 0 \<Longrightarrow> phase (ata.truncate d) = Idle \<Longrightarrow> task_ok (ata.truncate d) \<Longrightarrow>
      \<exists>t. ata.truncate (port_out (device_ports L) 0x1F7 0x20 d) =
        (ata.truncate d)\<lparr> task := t, phase := DataIn (sectors (ata.truncate d)) \<rparr>"
    by (intro exI [where x = "task d"]) (simp add: device_ports_def same_task)
  show "waiting d = 0 \<Longrightarrow> phase (ata.truncate d) = Idle \<Longrightarrow> task_ok (ata.truncate d) \<Longrightarrow>
      \<exists>t. ata.truncate (port_out (device_ports L) 0x1F7 0x30 d) =
        (ata.truncate d)\<lparr> task := t, phase := DataOut (task_lba (ata.truncate d)) [] (task_count (ata.truncate d)) \<rparr>"
    by (intro exI [where x = "task d"]) (simp add: device_ports_def same_task)
next
  fix d d' :: ata_device and w w' :: u16 and ws
  assume "phase (ata.truncate d) = DataIn (w # ws)" "waiting d = 0" "device_lag L d = 0" "port_in16 (device_ports L) 0x1F0 d = (w', d')"
  then show "w' = w \<and> (\<exists>t. ata.truncate d' = (ata.truncate d)\<lparr> task := t, phase := if ws = [] then Idle else DataIn ws \<rparr>) \<and>
      (length ws mod 256 \<noteq> 0 \<longrightarrow> waiting d' = 0 \<and> device_lag L d' = 0)"
    by (auto simp: device_ports_def ata.truncate_def intro!: exI [where x = "task d"])
next
  fix d :: ata_device and w :: u16 and b bs n
  assume "phase (ata.truncate d) = DataOut b bs (Suc n)" "length bs + 2 < 512" "waiting d = 0" "device_lag L d = 0"
  then show "ata.truncate (port_out16 (device_ports L) 0x1F0 w d) = (ata.truncate d)\<lparr> phase := DataOut b (bs @ le16 w) (Suc n) \<rparr> \<and>
      waiting (port_out16 (device_ports L) 0x1F0 w d) = 0 \<and> device_lag L (port_out16 (device_ports L) 0x1F0 w d) = 0"
    by (auto simp: device_ports_def ata.truncate_def)
next
  fix d :: ata_device and w :: u16 and b bs n
  assume "phase (ata.truncate d) = DataOut b bs (Suc n)" "length bs + 2 = 512" "waiting d = 0" "device_lag L d = 0"
  then show "\<exists>t. ata.truncate (port_out16 (device_ports L) 0x1F0 w d) =
      (ata.truncate d)\<lparr> image := store_bytes (512 * b) (bs @ le16 w) (image (ata.truncate d)), task := t,
        phase := if n = 0 then Idle else DataOut (b + 1) [] n \<rparr>"
    by (intro exI [where x = "task d"]) (auto simp: device_ports_def ata.truncate_def)
qed

interpretation prompt_device: prompt_drive "device_ports 2" ata.truncate waiting "device_lag 2"
  by unfold_locales simp

definition device_machine :: "disk \<Rightarrow> ata_device" where
  "device_machine d = \<lparr> image = d, capacity = 8192, task = (\<lambda>_. 0), phase = Idle, waiting = 4, missing = 0 \<rparr>"

lemma device_machine_simps [simp]: "image (device_machine d) = d" "capacity (device_machine d) = 8192" "phase (device_machine d) = Idle"
  by (simp_all add: device_machine_def)

theorem ata_read_refines_witness:
  "\<exists>d'. ata_read_blocks (device_ports 2) 8 4 (device_machine (\<lambda>_. 7)) = Some (Inr (read_blocks (\<lambda>_. 7) 8 4, d'))"
  using ata_read_refines [OF prompt_device.prompt_drive_axioms, of "device_machine (\<lambda>_. 7)" 4 8] by auto

theorem ata_write_refines_witness:
  "\<exists>d'. ata_write_blocks (device_ports 2) (replicate 512 1) 8 1 (device_machine (\<lambda>_. 7)) = Some (Inr ((), d')) \<and>
     image d' = write_blocks (replicate 512 1) 8 1 (\<lambda>_. 7)"
  using ata_write_refines [OF prompt_device.prompt_drive_axioms, of "device_machine (\<lambda>_. 7)" 1 8 "replicate 512 1"] by auto

text \<open>On a drive that requests data one status read later still, the driver takes the words too early.\<close>

lemma device_waits:
  "ATA_busy_wait (device_ports L) a = Some (Inr ((), a\<lparr> waiting := 0, missing := device_lag L a - 1 \<rparr>))"
  "waiting a = 0 \<Longrightarrow> ATA_DRQ_wait (device_ports L) a = Some (Inr ((), a\<lparr> missing := device_lag L a - 1 \<rparr>))"
proof -
  show "ATA_busy_wait (device_ports L) a = Some (Inr ((), a\<lparr> waiting := 0, missing := device_lag L a - 1 \<rparr>))"
  proof (induction "waiting a" arbitrary: a)
    case 0
    then show ?case by (subst ATA_busy_wait.simps) (simp add: bindc_def in8_def return_def device_ports_def)
  next
    case (Suc n)
    then have "ATA_busy_wait (device_ports L) (a\<lparr> waiting := n \<rparr>) = Some (Inr ((), a\<lparr> waiting := 0, missing := device_lag L a - 1 \<rparr>))"
      using Suc.hyps(1) [of "a\<lparr> waiting := n \<rparr>"] by simp
    moreover have "in8 (device_ports L) 0x1F7 a = Some (Inr (0x80, a\<lparr> waiting := n \<rparr>))"
      using Suc.hyps(2) [symmetric] by (simp add: in8_def device_ports_def)
    ultimately show ?case by (subst ATA_busy_wait.simps) (simp add: bindc_def)
  qed
  show "waiting a = 0 \<Longrightarrow> ATA_DRQ_wait (device_ports L) a = Some (Inr ((), a\<lparr> missing := device_lag L a - 1 \<rparr>))"
    by (subst ATA_DRQ_wait.simps) (simp add: bindc_def in8_def return_def device_ports_def)
qed

lemma device_early: "0 < device_lag L a \<Longrightarrow> read_words (device_ports L) n a = Some (Inr (replicate (2 * n) 0xFF, a))"
proof (induction n)
  case (Suc n)
  have "in16 (device_ports L) 0x1F0 a = Some (Inr (0xFFFF, a))" using Suc.prems by (simp add: in16_def device_ports_def)
  moreover have "le16 0xFFFF = [0xFF, 0xFF]" by (simp add: le16_def)
  ultimately show ?case using Suc by (simp add: bindc_def return_def)
qed (simp add: return_def)

text \<open>
  A drive within the contract on which every read of a block that it has returns without error and gives
  bytes \<open>0xFF\<close>, whatever is on the disk: the wait for the ready bit is no wait for data.
\<close>

theorem late_drive_misread:
  assumes "unat lba < 8192"
  shows "ata_drive (device_ports 3) ata.truncate waiting (device_lag 3) \<and>
    (\<exists>d'. ata_read_blocks (device_ports 3) lba 1 (device_machine d) = Some (Inr (replicate 512 0xFF, d')))"
proof -
  have "unat lba < 2 ^ 28" "phase (ata.truncate (device_machine d)) = Idle" using assms by simp_all
  then obtain d0 t where d0: "ata_command (device_ports 3) 0x20 lba 1 (device_machine d) = Some (Inr ((), port_out (device_ports 3) 0x1F7 0x20 d0))"
    "ata.truncate d0 = (ata.truncate (device_machine d))\<lparr> task := t \<rparr>" "waiting d0 = 0" "task_lba (ata.truncate d0) = lba"
    "t 0x1F2 = 1" "t 0x1F6 AND 0x50 = 0x40" by (rule device.command_given)
  have v: "phase d0 = Idle" "task d0 = t" "capacity d0 = 8192"
    using arg_cong [OF d0(2), of phase] arg_cong [OF d0(2), of task] arg_cong [OF d0(2), of capacity] by simp_all
  have "task_ok d0" using v d0(4-6) assms by (simp add: task_ok_def task_count_def)
  then have p: "port_out (device_ports 3) 0x1F7 0x20 d0 = d0\<lparr> phase := DataIn (sectors d0), waiting := 5, missing := 3 \<rparr>"
    using v(1) d0(3) by (simp add: device_ports_def)
  let ?a = "d0\<lparr> phase := DataIn (sectors d0), waiting := 0, missing := 1 \<rparr>"
  have "read_sectors (device_ports 3) (Suc 0) (d0\<lparr> phase := DataIn (sectors d0), waiting := 5, missing := 3 \<rparr>) =
      Some (Inr (replicate 512 0xFF, ?a))"
    by (simp add: bindc_def device_waits device_early return_def)
  then have "ata_read_blocks (device_ports 3) lba 1 (device_machine d) = Some (Inr (replicate 512 0xFF, ?a))"
    unfolding ata_read_blocks_def by (simp add: bindc_step [where m = "ata_command (device_ports 3) 0x20 lba 1", OF d0(1)] p)
  then show ?thesis using device.ata_drive_axioms by blast
qed

end
