(* ===== verification/Gdt.thy ===== *)
theory Gdt
  imports Process
begin

text \<open>
  The segment descriptors, \<open>src/src/gdt.c\<close>, and the task state segment of \<open>src/src/interrupt.c\<close>.  A
  descriptor is a record of the packed structure's fields, with the widths of its bit-fields; its eight
  bytes are what the processor reads.  How the processor decodes them is specified after the Intel
  manual, volume 3A.
\<close>

section \<open>Structures\<close>

record SegmentDescriptor =
  segment_low :: u16
  base_low :: u16
  base_mid :: u8
  type_bit :: "4 word"
  non_system :: bool
  desc_priv :: "2 word"
  seg_present :: bool
  seg_limit :: "4 word"
  avail :: bool
  l_bit :: bool
  default_op :: bool
  gran_bit :: bool
  base_high :: u8

record TSSEntry =
  prev_tss :: u32
  esp0 :: u32
  ss0 :: u32
  unused_register :: "u32 list"

record GDTR =
  gdtr_size :: u16
  gdtr_address :: u32

abbreviation (input) GDT_MAX_ENTRY_COUNT :: nat where "GDT_MAX_ENTRY_COUNT \<equiv> 32"
abbreviation (input) GDT_KERNEL_CODE_SEGMENT_SELECTOR :: u16 where "GDT_KERNEL_CODE_SEGMENT_SELECTOR \<equiv> 0x8"
abbreviation (input) GDT_KERNEL_DATA_SEGMENT_SELECTOR :: u16 where "GDT_KERNEL_DATA_SEGMENT_SELECTOR \<equiv> 0x10"
abbreviation (input) GDT_USER_CODE_SEGMENT_SELECTOR :: u16 where "GDT_USER_CODE_SEGMENT_SELECTOR \<equiv> 0x18"
abbreviation (input) GDT_TSS_SELECTOR :: u16 where "GDT_TSS_SELECTOR \<equiv> 0x28"

abbreviation (input) sizeof_TSSEntry :: u32 where "sizeof_TSSEntry \<equiv> 104"
abbreviation (input) sizeof_SegmentDescriptor :: nat where "sizeof_SegmentDescriptor \<equiv> 8"

definition null_descriptor :: SegmentDescriptor where
  "null_descriptor = \<lparr> segment_low = 0, base_low = 0, base_mid = 0, type_bit = 0, non_system = False, desc_priv = 0,
     seg_present = False, seg_limit = 0, avail = False, l_bit = False, default_op = False, gran_bit = False, base_high = 0 \<rparr>"

text \<open>Entries 1 to 4 differ in their type and privilege only.\<close>

definition flat_segment :: "4 word \<Rightarrow> 2 word \<Rightarrow> SegmentDescriptor" where
  "flat_segment ty dpl = null_descriptor\<lparr> segment_low := 0xFFFF, type_bit := ty, non_system := True, desc_priv := dpl,
     seg_present := True, seg_limit := 0xF, default_op := True, gran_bit := True \<rparr>"

definition tss_segment :: SegmentDescriptor where
  "tss_segment = null_descriptor\<lparr> seg_limit := ucast (drop_bit 16 (sizeof_TSSEntry AND push_bit 16 0xF)),
     segment_low := ucast sizeof_TSSEntry, type_bit := 0x9, seg_present := True, default_op := True \<rparr>"

definition global_descriptor_table :: "SegmentDescriptor list" where
  "global_descriptor_table =
     [null_descriptor, flat_segment 0xA 0, flat_segment 0x2 0, flat_segment 0xA 3, flat_segment 0x2 3, tss_segment] @
     replicate (GDT_MAX_ENTRY_COUNT - 6) null_descriptor"

text \<open>The linker chooses the address of the table.\<close>

definition gdt_gdtr :: "u32 \<Rightarrow> GDTR" where
  "gdt_gdtr addr = \<lparr> gdtr_size = of_nat (sizeof_SegmentDescriptor * GDT_MAX_ENTRY_COUNT) - 1, gdtr_address = addr \<rparr>"

definition interrupt_tss_entry :: TSSEntry where
  "interrupt_tss_entry = \<lparr> prev_tss = 0, esp0 = 0, ss0 = ucast GDT_KERNEL_DATA_SEGMENT_SELECTOR, unused_register = replicate 23 0 \<rparr>"

section \<open>Operations\<close>

text \<open>The argument is the address of \<open>_interrupt_tss_entry\<close>.\<close>

definition gdt_install_tss :: "u32 \<Rightarrow> SegmentDescriptor list \<Rightarrow> SegmentDescriptor list" where
  "gdt_install_tss base t = t[5 := (t ! 5)\<lparr>
     base_high := ucast (drop_bit 24 (base AND push_bit 24 0xFF)),
     base_mid := ucast (drop_bit 16 (base AND push_bit 16 0xFF)),
     base_low := ucast (base AND 0xFFFF) \<rparr>]"

text \<open>The argument is the frame pointer \<open>ebp\<close> of the call.\<close>

definition set_tss_kernel_current_stack :: "u32 \<Rightarrow> TSSEntry \<Rightarrow> TSSEntry" where
  "set_tss_kernel_current_stack ebp tss = tss\<lparr> esp0 := ebp + 8 \<rparr>"

section \<open>The bytes of a descriptor\<close>

definition encode_descriptor :: "SegmentDescriptor \<Rightarrow> u8 list" where
  "encode_descriptor d =
     le16 (segment_low d) @ le16 (base_low d) @
     [base_mid d,
      ucast (type_bit d) OR (if non_system d then 0x10 else 0) OR push_bit 5 (ucast (desc_priv d)) OR (if seg_present d then 0x80 else 0),
      ucast (seg_limit d) OR (if avail d then 0x10 else 0) OR (if l_bit d then 0x20 else 0) OR
        (if default_op d then 0x40 else 0) OR (if gran_bit d then 0x80 else 0),
      base_high d]"

definition encode_tss :: "TSSEntry \<Rightarrow> u8 list" where
  "encode_tss t = concat (map le32 ([prev_tss t, esp0 t, ss0 t] @ unused_register t))"

text \<open>What the processor makes of them: the first and the last address of the segment, and the access byte.\<close>

definition segment_base :: "u8 list \<Rightarrow> u32" where
  "segment_base b = ucast (b ! 2) OR push_bit 8 (ucast (b ! 3)) OR push_bit 16 (ucast (b ! 4)) OR push_bit 24 (ucast (b ! 7))"

definition segment_limit :: "u8 list \<Rightarrow> u32" where
  "segment_limit b =
     (let raw = ucast (b ! 0) OR push_bit 8 (ucast (b ! 1)) OR push_bit 16 (ucast (b ! 6 AND 0xF))
      in if bit (b ! 6) 7 then push_bit 12 raw OR 0xFFF else raw)"

definition segment_type :: "u8 list \<Rightarrow> u8" where "segment_type b = b ! 5 AND 0x1F"
definition segment_dpl :: "u8 list \<Rightarrow> u8" where "segment_dpl b = drop_bit 5 (b ! 5) AND 3"
definition segment_present :: "u8 list \<Rightarrow> bool" where "segment_present b = bit (b ! 5) 7"

text \<open>The descriptor a selector names: the table is read while the entry lies within the limit of the GDTR.\<close>

definition descriptor_of :: "GDTR \<Rightarrow> SegmentDescriptor list \<Rightarrow> u16 \<Rightarrow> u8 list option" where
  "descriptor_of r t sel =
     (let i = unat (drop_bit 3 sel)
      in if i = 0 \<or> bit sel 2 \<or> unat (gdtr_size r) < 8 * i + 7 then None else Some (encode_descriptor (t ! i)))"

text \<open>
  Port access from ring 3 with I/O privilege level 0: the bitmap lies where the last half-word of the
  task state segment says, both bytes that are read for the port must be within the segment's limit, and
  its bit must be clear.
\<close>

definition io_permitted :: "u32 \<Rightarrow> u8 list \<Rightarrow> u16 \<Rightarrow> bool" where
  "io_permitted limit tss port =
     (let k = unat (tss ! 102) + 256 * unat (tss ! 103) + unat port div 8
      in k < unat limit \<and> k < length tss \<and> \<not> bit (tss ! k) (unat port mod 8))"

section \<open>Segments\<close>

lemma encode_descriptor_nth [simp]:
  "encode_descriptor d ! 0 = ucast (segment_low d)" "encode_descriptor d ! 1 = ucast (drop_bit 8 (segment_low d))"
  "encode_descriptor d ! 2 = ucast (base_low d)" "encode_descriptor d ! 3 = ucast (drop_bit 8 (base_low d))"
  "encode_descriptor d ! 4 = base_mid d" "encode_descriptor d ! 7 = base_high d" "length (encode_descriptor d) = 8"
  by (simp_all add: encode_descriptor_def le16_def)

lemma low_masks: "(0xFF :: u32) = mask 8" "(0xFFFF :: u32) = mask 16"
  by (simp_all add: mask_eq_exp_minus_1)

text \<open>The three pieces of a base address join to the address.\<close>

lemma base_pieces:
  "ucast (ucast (ucast (b AND 0xFFFF) :: u16) :: u8) OR push_bit 8 (ucast (ucast (drop_bit 8 (ucast (b AND 0xFFFF) :: u16)) :: u8)) OR
     push_bit 16 (ucast (ucast (drop_bit 16 (b AND push_bit 16 0xFF)) :: u8)) OR
     push_bit 24 (ucast (ucast (drop_bit 24 (b AND push_bit 24 0xFF)) :: u8)) = (b :: u32)"
  (is "?l = b")
proof (rule bit_word_eqI)
  fix n assume "n < LENGTH(32)"
  then have "n < 8 \<or> 8 \<le> n \<and> n < 16 \<or> 16 \<le> n \<and> n < 24 \<or> 24 \<le> n \<and> n < 32" by auto
  then show "bit ?l n \<longleftrightarrow> bit b n"
    by (elim disjE conjE) (auto simp: low_masks bit_simps)
qed

definition segment_bytes :: "SegmentDescriptor \<Rightarrow> u32 \<times> u32 \<times> bool \<times> u8 \<times> u8" where
  "segment_bytes d = (let b = encode_descriptor d
     in (segment_base b, segment_limit b, segment_present b, segment_type b, segment_dpl b))"

lemma flat_segments:
  "segment_bytes (flat_segment 0xA 0) = (0, 0xFFFFFFFF, True, 0x1A, 0)"
  "segment_bytes (flat_segment 0x2 0) = (0, 0xFFFFFFFF, True, 0x12, 0)"
  "segment_bytes (flat_segment 0xA 3) = (0, 0xFFFFFFFF, True, 0x1A, 3)"
  "segment_bytes (flat_segment 0x2 3) = (0, 0xFFFFFFFF, True, 0x12, 3)"
  by code_simp+

text \<open>The table as the kernel leaves it.\<close>

abbreviation installed :: "u32 \<Rightarrow> SegmentDescriptor list" where
  "installed base \<equiv> gdt_install_tss base global_descriptor_table"

lemma tss_segment_bytes: "segment_bytes (installed base ! 5) = (base, 104, True, 0x09, 0)"
proof -
  have "segment_base (encode_descriptor (installed base ! 5)) = base"
    using base_pieces [of base] by (simp add: segment_base_def gdt_install_tss_def global_descriptor_table_def)
  moreover have "(let b = encode_descriptor (installed base ! 5)
      in (segment_limit b, segment_present b, segment_type b, segment_dpl b)) =
    (let b = encode_descriptor tss_segment in (segment_limit b, segment_present b, segment_type b, segment_dpl b))"
    by (simp add: gdt_install_tss_def global_descriptor_table_def segment_limit_def segment_present_def
        segment_type_def segment_dpl_def encode_descriptor_def tss_segment_def le16_def)
  moreover have "(let b = encode_descriptor tss_segment
      in (segment_limit b, segment_present b, segment_type b, segment_dpl b)) = (104, True, 0x09, 0)" by code_simp
  ultimately show ?thesis by (simp add: segment_bytes_def Let_def)
qed

lemma null_segment_bytes: "segment_present (encode_descriptor null_descriptor) = False"
  by code_simp

lemma installed_length [simp]: "length (installed base) = 32"
  by (simp add: gdt_install_tss_def global_descriptor_table_def)

lemma installed_nth:
  "installed base ! 1 = flat_segment 0xA 0" "installed base ! 2 = flat_segment 0x2 0"
  "installed base ! 3 = flat_segment 0xA 3" "installed base ! 4 = flat_segment 0x2 3"
  "i < 32 \<Longrightarrow> i = 0 \<or> 6 \<le> i \<Longrightarrow> installed base ! i = null_descriptor"
  by (auto simp: gdt_install_tss_def global_descriptor_table_def nth_append)

lemma descriptor_of_index:
  "drop_bit 3 sel = of_nat i \<Longrightarrow> \<not> bit sel 2 \<Longrightarrow> 0 < i \<Longrightarrow> i < 32 \<Longrightarrow> descriptor_of (gdt_gdtr addr) t sel = Some (encode_descriptor (t ! i))"
  by (simp add: descriptor_of_def gdt_gdtr_def unat_of_nat take_bit_nat_eq_self)

definition segment_of :: "GDTR \<Rightarrow> SegmentDescriptor list \<Rightarrow> u16 \<Rightarrow> (u32 \<times> u32 \<times> bool \<times> u8 \<times> u8) option" where
  "segment_of r t sel = map_option (\<lambda>b. (segment_base b, segment_limit b, segment_present b, segment_type b, segment_dpl b))
     (descriptor_of r t sel)"

lemma segment_of_index:
  "drop_bit 3 sel = of_nat i \<Longrightarrow> \<not> bit sel 2 \<Longrightarrow> 0 < i \<Longrightarrow> i < 32 \<Longrightarrow> segment_bytes (t ! i) = x \<Longrightarrow>
   segment_of (gdt_gdtr addr) t sel = Some x"
  by (simp add: segment_of_def descriptor_of_index segment_bytes_def Let_def)

lemma installed_bytes:
  "segment_bytes (installed base ! 1) = (0, 0xFFFFFFFF, True, 0x1A, 0)" "segment_bytes (installed base ! 2) = (0, 0xFFFFFFFF, True, 0x12, 0)"
  "segment_bytes (installed base ! 3) = (0, 0xFFFFFFFF, True, 0x1A, 3)" "segment_bytes (installed base ! 4) = (0, 0xFFFFFFFF, True, 0x12, 3)"
  by (simp_all only: installed_nth flat_segments)

lemma installed_selectors:
  "segment_of (gdt_gdtr addr) (installed base) 0x8 = Some (0, 0xFFFFFFFF, True, 0x1A, 0)"
  "segment_of (gdt_gdtr addr) (installed base) 0x10 = Some (0, 0xFFFFFFFF, True, 0x12, 0)"
  "segment_of (gdt_gdtr addr) (installed base) 0x18 = Some (0, 0xFFFFFFFF, True, 0x1A, 3)"
  "segment_of (gdt_gdtr addr) (installed base) (ucast (0x20 :: u32)) = Some (0, 0xFFFFFFFF, True, 0x12, 3)"
  "segment_of (gdt_gdtr addr) (installed base) 0x28 = Some (base, 104, True, 0x09, 0)"
  by ((rule segment_of_index [OF _ _ _ _ installed_bytes(1)]; code_simp),
      (rule segment_of_index [OF _ _ _ _ installed_bytes(2)]; code_simp),
      (rule segment_of_index [OF _ _ _ _ installed_bytes(3)]; code_simp),
      (rule segment_of_index [OF _ _ _ _ installed_bytes(4)]; code_simp),
      (rule segment_of_index [OF _ _ _ _ tss_segment_bytes]; code_simp))

text \<open>
  In the descriptor table that the kernel installs, the selectors it uses name what their names say:
  code and data of the kernel in ring 0 and of the user in ring 3, each the whole address space, and
  the task state segment at its address, split over the fields of its descriptor; the table's register
  covers the table, and no other entry of it is present.
\<close>

theorem installed_segments:
  "segment_of (gdt_gdtr addr) (installed base) GDT_KERNEL_CODE_SEGMENT_SELECTOR = Some (0, 0xFFFFFFFF, True, 0x1A, 0) \<and>
   segment_of (gdt_gdtr addr) (installed base) GDT_KERNEL_DATA_SEGMENT_SELECTOR = Some (0, 0xFFFFFFFF, True, 0x12, 0) \<and>
   segment_of (gdt_gdtr addr) (installed base) GDT_USER_CODE_SEGMENT_SELECTOR = Some (0, 0xFFFFFFFF, True, 0x1A, 3) \<and>
   segment_of (gdt_gdtr addr) (installed base) (ucast GDT_USER_DATA_SEGMENT_SELECTOR) = Some (0, 0xFFFFFFFF, True, 0x12, 3) \<and>
   segment_of (gdt_gdtr addr) (installed base) GDT_TSS_SELECTOR = Some (base, sizeof_TSSEntry, True, 0x09, 0) \<and>
   {i. i < length (installed base) \<and> segment_present (encode_descriptor (installed base ! i))} = {1, 2, 3, 4, 5}"
proof (intro conjI)
  have s: "segment_present (encode_descriptor (installed base ! i)) = (fst (snd (snd (segment_bytes (installed base ! i)))))" for i
    by (simp add: segment_bytes_def Let_def)
  have "segment_present (encode_descriptor (installed base ! i)) \<longleftrightarrow> i \<in> {1, 2, 3, 4, 5}" if "i < 32" for i
  proof (cases "i = 0 \<or> 6 \<le> i")
    case True
    then show ?thesis using that installed_nth(5) [OF that True] null_segment_bytes by auto
  next
    case False
    then have "i = 1 \<or> i = 2 \<or> i = 3 \<or> i = 4 \<or> i = 5" by arith
    then show ?thesis unfolding s by (elim disjE) (simp_all only: installed_nth flat_segments tss_segment_bytes, auto)
  qed
  then show "{i. i < length (installed base) \<and> segment_present (encode_descriptor (installed base ! i))} = {1, 2, 3, 4, 5}"
    by auto
qed (simp_all only: installed_selectors)

section \<open>Ports\<close>

lemma tss_bytes:
  "encode_tss (set_tss_kernel_current_stack ebp interrupt_tss_entry) =
     [0, 0, 0, 0] @ le32 (ebp + 8) @ [0x10, 0, 0, 0] @ replicate 92 0"
proof -
  have "concat (map le32 (replicate n 0)) = replicate (4 * n) 0" for n
    by (induction n) (simp_all add: le32_def replicate_add numeral_eq_Suc)
  from this [of 23] show ?thesis
    by (simp add: encode_tss_def set_tss_kernel_current_stack_def interrupt_tss_entry_def le32_def)
qed

lemma tss_byte:
  assumes "12 \<le> k" "k < 104"
  shows "encode_tss (set_tss_kernel_current_stack ebp interrupt_tss_entry) ! k = 0"
proof -
  have "encode_tss (set_tss_kernel_current_stack ebp interrupt_tss_entry) ! (12 + (k - 12)) = 0"
    unfolding tss_bytes using assms by (simp add: nth_append le32_def)
  then show ?thesis using assms by simp
qed

text \<open>
  C25: The task state segment is left without an I/O permission bitmap of its own: its bitmap pointer is
  zero, so the processor takes the segment itself for the bitmap, and programs in ring 3 may read and
  write every port from 0x60 to 0x33F, among them the ports of the keyboard, of the real-time clock and
  of the disk.
\<close>

theorem user_ports_open:
  assumes "0x60 \<le> port" "segment_of (gdt_gdtr addr) (installed base) GDT_TSS_SELECTOR = Some (tss_base, limit, present, ty, dpl)"
  shows "io_permitted limit (encode_tss (set_tss_kernel_current_stack ebp interrupt_tss_entry)) port \<longleftrightarrow> port < 0x340"
proof -
  have limit: "limit = 104"
    using assms(2) by (simp add: installed_selectors)
  have p: "96 \<le> unat port" and q: "port < 0x340 \<longleftrightarrow> unat port < 832"
    using assms(1) by (simp_all add: word_le_nat_alt word_less_nat_alt)
  have l: "length (encode_tss (set_tss_kernel_current_stack ebp interrupt_tss_entry)) = 104"
    unfolding tss_bytes by (simp add: le32_def)
  have "12 \<le> unat port div 8" using p by linarith
  then have "unat port div 8 < 104 \<Longrightarrow> \<not> bit (encode_tss (set_tss_kernel_current_stack ebp interrupt_tss_entry) ! (unat port div 8)) (unat port mod 8)"
    by (simp add: tss_byte)
  moreover have "unat port div 8 < 104 \<longleftrightarrow> unat port < 832" by linarith
  ultimately show ?thesis
    unfolding io_permitted_def q by (auto simp: tss_byte l limit Let_def)
qed

theorem user_ports_open_witness:
  "list_all (io_permitted 104 (encode_tss (set_tss_kernel_current_stack 0xC0300000 interrupt_tss_entry))) [0x60, 0x70, 0x71, 0x1F0, 0x1F7] \<and>
   \<not> io_permitted 104 (encode_tss (set_tss_kernel_current_stack 0xC0300000 interrupt_tss_entry)) 0x3D4"
proof -
  have seg: "segment_of (gdt_gdtr 0xC0100000) (installed 0xC0200000) GDT_TSS_SELECTOR = Some (0xC0200000, 104, True, 0x09, 0)"
    by (rule installed_selectors)
  show ?thesis using user_ports_open [OF _ seg, where ebp = "0xC0300000"] by simp
qed

end
