(* ===== verification/Idt.thy ===== *)
theory Idt
  imports Gdt
begin

text \<open>
  The interrupt descriptor table, \<open>src/src/idt.c\<close>.  The handlers' addresses come from the assembly file
  \<open>intsetup.s\<close>: the stub table is an argument.  The entry of an interrupt through the tables is specified
  after the Intel manual, volume 3A.
\<close>

section \<open>Structures\<close>

record IDTGate =
  offset_low :: u16
  segment :: u16
  gate_reserved :: "5 word"
  r_bit_1 :: "3 word"
  r_bit_2 :: "3 word"
  gate_32 :: bool
  r_bit_3 :: bool
  dpl :: "2 word"
  valid_bit :: bool
  offset_high :: u16

record IDTR =
  idtr_size :: u16
  idtr_location :: u32

abbreviation (input) IDT_MAX_ENTRY_COUNT :: nat where "IDT_MAX_ENTRY_COUNT \<equiv> 256"
abbreviation (input) ISR_STUB_TABLE_LIMIT :: nat where "ISR_STUB_TABLE_LIMIT \<equiv> 64"
abbreviation (input) INTERRUPT_GATE_R_BIT_1 :: "3 word" where "INTERRUPT_GATE_R_BIT_1 \<equiv> 0"
abbreviation (input) INTERRUPT_GATE_R_BIT_2 :: "3 word" where "INTERRUPT_GATE_R_BIT_2 \<equiv> 6"
abbreviation (input) INTERRUPT_GATE_R_BIT_3 :: bool where "INTERRUPT_GATE_R_BIT_3 \<equiv> False"

definition zero_gate :: IDTGate where
  "zero_gate = \<lparr> offset_low = 0, segment = 0, gate_reserved = 0, r_bit_1 = 0, r_bit_2 = 0, gate_32 = False, r_bit_3 = False,
     dpl = 0, valid_bit = False, offset_high = 0 \<rparr>"

definition interrupt_descriptor_table :: "IDTGate list" where
  "interrupt_descriptor_table = replicate IDT_MAX_ENTRY_COUNT zero_gate"

definition idt_idtr :: "u32 \<Rightarrow> IDTR" where
  "idt_idtr addr = \<lparr> idtr_size = of_nat (8 * IDT_MAX_ENTRY_COUNT) - 1, idtr_location = addr \<rparr>"

section \<open>Operations\<close>

definition set_interrupt_gate :: "u8 \<Rightarrow> u32 \<Rightarrow> u16 \<Rightarrow> u8 \<Rightarrow> IDTGate list \<Rightarrow> IDTGate list" where
  "set_interrupt_gate int_vector handler_offset gdt_seg_selector privilege t =
     t[unat int_vector := (t ! unat int_vector)\<lparr>
       offset_low := ucast (handler_offset AND 0xFFFF),
       offset_high := ucast (drop_bit 16 handler_offset AND 0xFFFF),
       segment := gdt_seg_selector,
       dpl := ucast privilege,
       r_bit_1 := INTERRUPT_GATE_R_BIT_1, r_bit_2 := INTERRUPT_GATE_R_BIT_2, r_bit_3 := INTERRUPT_GATE_R_BIT_3,
       gate_32 := True, valid_bit := True \<rparr>]"

definition initialize_idt :: "(nat \<Rightarrow> u32) \<Rightarrow> IDTGate list \<Rightarrow> IDTGate list" where
  "initialize_idt isr_stub_table t =
     set_interrupt_gate 0x30 (isr_stub_table 0x30) GDT_KERNEL_CODE_SEGMENT_SELECTOR 3
       (fold (\<lambda>i. set_interrupt_gate (of_nat i) (isr_stub_table i) GDT_KERNEL_CODE_SEGMENT_SELECTOR 0) [0..<ISR_STUB_TABLE_LIMIT] t)"

section \<open>The bytes of a gate\<close>

definition encode_gate :: "IDTGate \<Rightarrow> u8 list" where
  "encode_gate g =
     le16 (offset_low g) @ le16 (segment g) @
     [ucast (gate_reserved g) OR push_bit 5 (ucast (r_bit_1 g)),
      ucast (r_bit_2 g) OR (if gate_32 g then 0x08 else 0) OR (if r_bit_3 g then 0x10 else 0) OR push_bit 5 (ucast (dpl g)) OR
        (if valid_bit g then 0x80 else 0)] @
     le16 (offset_high g)"

text \<open>What the processor reads from them; the type of a 32-bit interrupt gate is 0x0E.\<close>

definition gate_offset :: "u8 list \<Rightarrow> u32" where
  "gate_offset b = ucast (b ! 0) OR push_bit 8 (ucast (b ! 1)) OR push_bit 16 (ucast (b ! 6)) OR push_bit 24 (ucast (b ! 7))"

definition gate_selector :: "u8 list \<Rightarrow> u16" where
  "gate_selector b = ucast (b ! 2) OR push_bit 8 (ucast (b ! 3))"

text \<open>
  The entry of vector \<open>v\<close> in ring \<open>cpl\<close>: the linear address of the handler, its ring, and the stack
  segment and pointer loaded when the ring changes.  An \<open>int\<close> instruction needs a gate whose privilege
  level is not below the ring; an interrupt of a device does not.  \<open>None\<close> is a protection fault.
\<close>

definition enter_gate ::
  "GDTR \<Rightarrow> SegmentDescriptor list \<Rightarrow> IDTR \<Rightarrow> IDTGate list \<Rightarrow> TSSEntry \<Rightarrow> u8 \<Rightarrow> bool \<Rightarrow> u8 \<Rightarrow> (u32 \<times> u8 \<times> (u32 \<times> u32) option) option" where
  "enter_gate gdtr gdt idtr idt tss cpl software v =
     (let b = encode_gate (idt ! unat v)
      in if unat (idtr_size idtr) < 8 * unat v + 7 \<or> \<not> segment_present b \<or> segment_type b \<noteq> 0x0E \<or> (software \<and> segment_dpl b < cpl) then None
         else case segment_of gdtr gdt (gate_selector b) of
                None \<Rightarrow> None
              | Some (base, limit, present, ty, ring) \<Rightarrow>
                  if \<not> present \<or> ty AND 0x18 \<noteq> 0x18 \<or> cpl < ring \<or> limit < gate_offset b then None
                  else Some (base + gate_offset b, ring, if ring < cpl then Some (ss0 tss, esp0 tss) else None))"

section \<open>The table after initialisation\<close>

definition stub_gate :: "u32 \<Rightarrow> u8 \<Rightarrow> IDTGate" where
  "stub_gate handler privilege = zero_gate\<lparr> offset_low := ucast (handler AND 0xFFFF),
     offset_high := ucast (drop_bit 16 handler AND 0xFFFF), segment := GDT_KERNEL_CODE_SEGMENT_SELECTOR, dpl := ucast privilege,
     r_bit_2 := INTERRUPT_GATE_R_BIT_2, gate_32 := True, valid_bit := True \<rparr>"

abbreviation idt_ready :: "(nat \<Rightarrow> u32) \<Rightarrow> IDTGate list" where
  "idt_ready stubs \<equiv> initialize_idt stubs interrupt_descriptor_table"

lemma set_gate_nth:
  "i < length t \<Longrightarrow> gate_reserved (t ! i) = 0 \<Longrightarrow>
   set_interrupt_gate v h GDT_KERNEL_CODE_SEGMENT_SELECTOR p t ! i = (if i = unat v then stub_gate h p else t ! i)"
  by (cases "t ! i") (auto simp: set_interrupt_gate_def stub_gate_def zero_gate_def nth_list_update)

lemma stub_loop:
  "n \<le> 64 \<Longrightarrow> i < 256 \<Longrightarrow>
   length (fold (\<lambda>i. set_interrupt_gate (of_nat i) (stubs i) GDT_KERNEL_CODE_SEGMENT_SELECTOR 0) [0..<n] interrupt_descriptor_table) = 256 \<and>
   fold (\<lambda>i. set_interrupt_gate (of_nat i) (stubs i) GDT_KERNEL_CODE_SEGMENT_SELECTOR 0) [0..<n] interrupt_descriptor_table ! i =
     (if i < n then stub_gate (stubs i) 0 else zero_gate)"
proof (induction n)
  case (Suc n)
  let ?t = "fold (\<lambda>i. set_interrupt_gate (of_nat i) (stubs i) GDT_KERNEL_CODE_SEGMENT_SELECTOR 0) [0..<n] interrupt_descriptor_table"
  have "unat (of_nat n :: u8) = n" using Suc.prems by (simp add: unat_of_nat take_bit_nat_eq_self)
  moreover have "length ?t = 256" "?t ! i = (if i < n then stub_gate (stubs i) 0 else zero_gate)" using Suc by simp_all
  moreover have "length (set_interrupt_gate v h s p t) = length t" for v h s p t by (simp add: set_interrupt_gate_def)
  ultimately show ?case using Suc.prems
    by (auto simp: set_gate_nth stub_gate_def zero_gate_def less_Suc_eq)
qed (simp add: interrupt_descriptor_table_def)

lemma idt_ready_nth:
  "i < 256 \<Longrightarrow> idt_ready stubs ! i =
     (if i = 0x30 then stub_gate (stubs i) 3 else if i < 64 then stub_gate (stubs i) 0 else zero_gate)"
  using stub_loop [of 64 i stubs] unfolding initialize_idt_def
  by (subst set_gate_nth) (auto simp: stub_gate_def zero_gate_def)

text \<open>The two halves of a handler's address join to the address.\<close>

lemma offset_pieces:
  "ucast (ucast (ucast (b AND 0xFFFF) :: u16) :: u8) OR push_bit 8 (ucast (ucast (drop_bit 8 (ucast (b AND 0xFFFF) :: u16)) :: u8)) OR
     push_bit 16 (ucast (ucast (ucast (drop_bit 16 b AND 0xFFFF) :: u16) :: u8)) OR
     push_bit 24 (ucast (ucast (drop_bit 8 (ucast (drop_bit 16 b AND 0xFFFF) :: u16)) :: u8)) = (b :: u32)"
  (is "?l = b")
proof (rule bit_word_eqI)
  fix n assume "n < LENGTH(32)"
  then have "n < 8 \<or> 8 \<le> n \<and> n < 16 \<or> 16 \<le> n \<and> n < 24 \<or> 24 \<le> n \<and> n < 32" by auto
  then show "bit ?l n \<longleftrightarrow> bit b n"
    by (elim disjE conjE) (auto simp: low_masks bit_simps)
qed

definition gate_bytes :: "IDTGate \<Rightarrow> bool \<times> u8 \<times> u8 \<times> u16" where
  "gate_bytes g = (let b = encode_gate g in (segment_present b, segment_type b, segment_dpl b, gate_selector b))"

lemma stub_gate_bytes:
  "gate_bytes (stub_gate h 0) = (True, 0x0E, 0, 8)" "gate_bytes (stub_gate h 3) = (True, 0x0E, 3, 8)"
proof -
  have "gate_bytes (stub_gate h p) = gate_bytes (stub_gate 0 p)" for p
    by (simp add: gate_bytes_def encode_gate_def stub_gate_def segment_present_def segment_type_def segment_dpl_def
        gate_selector_def le16_def zero_gate_def)
  moreover have "gate_bytes (stub_gate 0 0) = (True, 0x0E, 0, 8)" "gate_bytes (stub_gate 0 3) = (True, 0x0E, 3, 8)" by code_simp+
  ultimately show "gate_bytes (stub_gate h 0) = (True, 0x0E, 0, 8)" "gate_bytes (stub_gate h 3) = (True, 0x0E, 3, 8)" by simp_all
qed

lemma stub_gate_offset: "gate_offset (encode_gate (stub_gate h p)) = h"
  using offset_pieces [of h] by (simp add: gate_offset_def encode_gate_def stub_gate_def le16_def zero_gate_def)

lemma zero_gate_absent: "\<not> segment_present (encode_gate zero_gate)"
  by code_simp

section \<open>Entering the kernel\<close>

lemma enter_stub:
  assumes "idt ! unat v = stub_gate h p" "p \<in> {0, 3}"
  shows "enter_gate (gdt_gdtr gaddr) (installed base) (idt_idtr iaddr) idt tss cpl software v =
    (if software \<and> p < cpl then None else Some (h, 0, if 0 < cpl then Some (ss0 tss, esp0 tss) else None))"
proof -
  have "gate_bytes (stub_gate h p) = (True, 0x0E, p, 8)" using assms(2) stub_gate_bytes by auto
  moreover have "unat v < 2 ^ LENGTH(8)" by (rule unsigned_less)
  then have "\<not> unat (idtr_size (idt_idtr iaddr)) < 8 * unat v + 7" by (simp add: idt_idtr_def)
  moreover have "unat h < 2 ^ LENGTH(32)" by (rule unsigned_less)
  then have "\<not> 0xFFFFFFFF < h" by (simp add: word_less_nat_alt)
  ultimately show ?thesis
    unfolding enter_gate_def assms(1) by (simp add: gate_bytes_def Let_def installed_selectors stub_gate_offset)
qed

lemma enter_absent:
  "idt ! unat v = zero_gate \<Longrightarrow> enter_gate gdtr gdt idtr idt tss cpl software v = None"
  using zero_gate_absent by (simp add: enter_gate_def Let_def)

text \<open>
  C17: Through the tables that the kernel installs, a program in ring 3 enters the kernel by \<open>int 0x30\<close>
  only: every other vector faults.  An exception or a device enters through each of the vectors below 64
  and no other.  Every entry goes to the stub of its vector, in ring 0 and on the kernel stack recorded in
  the task state segment.
\<close>

theorem kernel_entries:
  "enter_gate (gdt_gdtr gaddr) (installed base) (idt_idtr iaddr) (idt_ready stubs)
     (set_tss_kernel_current_stack ebp interrupt_tss_entry) 3 software v =
   (if (if software then v = 0x30 else v < 64) then Some (stubs (unat v), 0, Some (0x10, ebp + 8)) else None)"
proof -
  let ?idt = "idt_ready stubs" and ?tss = "set_tss_kernel_current_stack ebp interrupt_tss_entry"
  have tss: "ss0 ?tss = 0x10" "esp0 ?tss = ebp + 8" by (simp_all add: set_tss_kernel_current_stack_def interrupt_tss_entry_def)
  have "unat v < 2 ^ LENGTH(8)" by (rule unsigned_less)
  then have r: "unat v < 256" by simp
  have n: "unat v = 0x30 \<longleftrightarrow> v = 0x30" "unat v < 64 \<longleftrightarrow> v < 64"
    by (simp_all add: word_less_nat_alt word_unat_eq_iff)
  show ?thesis
  proof (cases "v < 64")
    case True
    then show ?thesis
      using idt_ready_nth [OF r, of stubs] n
        enter_stub [of ?idt v "stubs (unat v)" "if v = 0x30 then 3 else 0" gaddr base iaddr ?tss 3 software]
      by (auto simp: tss)
  next
    case False
    then have "?idt ! unat v = zero_gate" "v \<noteq> 0x30" using idt_ready_nth [OF r, of stubs] n by auto
    then show ?thesis using enter_absent False by simp
  qed
qed

end
