(* ===== verification/Interrupt.thy ===== *)
theory Interrupt
  imports Syscall
begin

text \<open>
  The interrupt side of the kernel, \<open>src/src/interrupt.c\<close> and the timer set-up of
  \<open>src/src/scheduler.c\<close>: the initialisation of the two interrupt controllers and of the interval
  timer as the sequences of bytes they send to ports, and the branches of \<open>main_interrupt_handler\<close>
  for the timer and the keyboard on the state of the whole kernel.
\<close>

section \<open>Ports\<close>

abbreviation (input) PIC1_OFFSET :: u8 where "PIC1_OFFSET \<equiv> 0x20"
abbreviation (input) PIC2_OFFSET :: u8 where "PIC2_OFFSET \<equiv> 0x28"
abbreviation (input) PIC1_DATA :: u16 where "PIC1_DATA \<equiv> 0x21"
abbreviation (input) PIC2_DATA :: u16 where "PIC2_DATA \<equiv> 0xA1"
abbreviation (input) PIC_DISABLE_ALL_MASK :: u8 where "PIC_DISABLE_ALL_MASK \<equiv> 0xFF"
abbreviation (input) ICW1_ICW4 :: u8 where "ICW1_ICW4 \<equiv> 0x01"
abbreviation (input) ICW1_INIT :: u8 where "ICW1_INIT \<equiv> 0x10"
abbreviation (input) ICW4_8086 :: u8 where "ICW4_8086 \<equiv> 0x01"
abbreviation (input) IRQ_TIMER :: nat where "IRQ_TIMER \<equiv> 0"
abbreviation (input) IRQ_KEYBOARD :: nat where "IRQ_KEYBOARD \<equiv> 1"
abbreviation (input) PIT_TIMER_COUNTER :: u32 where "PIT_TIMER_COUNTER \<equiv> 1193182 div 1000"
abbreviation (input) PIT_COMMAND_REGISTER_PIO :: u16 where "PIT_COMMAND_REGISTER_PIO \<equiv> 0x43"
abbreviation (input) PIT_COMMAND_VALUE :: u8 where
  "PIT_COMMAND_VALUE \<equiv> 0 OR push_bit 1 3 OR push_bit 4 3 OR push_bit 6 0"
abbreviation (input) PIT_CHANNEL_0_DATA_PIO :: u16 where "PIT_CHANNEL_0_DATA_PIO \<equiv> 0x40"

definition io_wait :: "(u16 \<times> u8) list" where
  "io_wait = [(0x80, 0)]"

definition pic_remap :: "(u16 \<times> u8) list" where
  "pic_remap =
     [(PIC1_COMMAND, ICW1_INIT OR ICW1_ICW4)] @ io_wait @
     [(PIC2_COMMAND, ICW1_INIT OR ICW1_ICW4)] @ io_wait @
     [(PIC1_DATA, PIC1_OFFSET)] @ io_wait @ [(PIC2_DATA, PIC2_OFFSET)] @ io_wait @
     [(PIC1_DATA, 4)] @ io_wait @ [(PIC2_DATA, 2)] @ io_wait @
     [(PIC1_DATA, ICW4_8086)] @ io_wait @ [(PIC2_DATA, ICW4_8086)] @ io_wait @
     [(PIC1_DATA, PIC_DISABLE_ALL_MASK), (PIC2_DATA, PIC_DISABLE_ALL_MASK)]"

text \<open>The argument is the mask that the code reads back from the data port of the first controller.\<close>

definition activate_keyboard_interrupt :: "u8 \<Rightarrow> (u16 \<times> u8) list" where
  "activate_keyboard_interrupt cur = [(PIC1_DATA, cur AND NOT (push_bit IRQ_KEYBOARD 1))]"

definition activate_timer_interrupt :: "u8 \<Rightarrow> (u16 \<times> u8) list" where
  "activate_timer_interrupt cur =
     [(PIT_COMMAND_REGISTER_PIO, PIT_COMMAND_VALUE),
      (PIT_CHANNEL_0_DATA_PIO, ucast (PIT_TIMER_COUNTER AND 0xFF)),
      (PIT_CHANNEL_0_DATA_PIO, ucast (drop_bit 8 PIT_TIMER_COUNTER AND 0xFF)),
      (PIC1_DATA, cur AND NOT (push_bit IRQ_TIMER 1))]"

definition scheduler_init :: "u8 \<Rightarrow> (u16 \<times> u8) list" where
  "scheduler_init = activate_timer_interrupt"

section \<open>Handlers\<close>

definition send :: "(u16 \<times> u8) list \<Rightarrow> 'a system_scheme \<Rightarrow> 'a system_scheme" where
  "send bs s = s\<lparr> display := (display s)\<lparr> ports := ports (display s) @ bs \<rparr> \<rparr>"

text \<open>The timer branch: save, acknowledge, switch.\<close>

definition timer_irq :: "InterruptFrame \<Rightarrow> 'a system_scheme \<Rightarrow> (fault + Context \<times> 'a system_scheme) option" where
  "timer_irq f s =
     (case scheduler_save_context_to_current_running_pcb (frame_context f) (kern s) of
        Inl e \<Rightarrow> Some (Inl e)
      | Inr k1 \<Rightarrow>
          let s1 = send (pic_ack (of_nat IRQ_TIMER)) (s\<lparr> kern := k1 \<rparr>)
          in map_option (\<lambda>(ctx, k2). Inr (ctx, s1\<lparr> kern := k2 \<rparr>)) (scheduler_switch_to_next_process (kern s1)))"

definition keyboard_irq :: "u8 \<Rightarrow> 'a system_scheme \<Rightarrow> 'a system_scheme" where
  "keyboard_irq scancode s = s\<lparr> display := keyboard_isr scancode (display s) \<rparr>"

section \<open>Properties\<close>

text \<open>The timer branch is the timer interrupt of the process table with one acknowledgement.\<close>

lemma timer_irq_eq:
  "timer_irq f s = map_option (map_sum id (\<lambda>(ctx, k). (ctx, (send [(PIC1_COMMAND, PIC_ACK)] s)\<lparr> kern := k \<rparr>)))
     (timer_interrupt f (kern s))"
proof (cases "scheduler_save_context_to_current_running_pcb (frame_context f) (kern s)")
  case (Inr k1)
  show ?thesis
    by (cases "scheduler_switch_to_next_process k1") (auto simp: Inr timer_irq_def timer_interrupt_def Let_def send_def pic_ack_def)
qed (simp add: timer_irq_def timer_interrupt_def)

definition no_ports :: "'a system_scheme \<Rightarrow> 'a system_scheme" where
  "no_ports s = s\<lparr> display := (display s)\<lparr> ports := [] \<rparr> \<rparr>"

lemma keyboard_isr_ports:
  "(keyboard_isr c t)\<lparr> ports := [] \<rparr> = (keyboard_isr c (t\<lparr> ports := [] \<rparr>))\<lparr> ports := [] \<rparr>"
  by (simp add: keyboard_isr_def upd_kbd_def Let_def)

text \<open>
  The order of a timer and a keyboard interrupt does not matter: the same process is resumed with
  the same context and the kernel is in the same state, but for the order of the bytes sent to the
  interrupt controller.
\<close>

theorem interrupts_commute:
  "map_option (map_sum id (\<lambda>(ctx, s'). (ctx, no_ports (keyboard_irq c s')))) (timer_irq f s) =
   map_option (map_sum id (\<lambda>(ctx, s'). (ctx, no_ports s'))) (timer_irq f (keyboard_irq c s))"
proof -
  have "no_ports (keyboard_irq c ((send bs s)\<lparr> kern := k \<rparr>)) = no_ports ((send bs (keyboard_irq c s))\<lparr> kern := k \<rparr>)" for bs k
    using keyboard_isr_ports [of c "(display s)\<lparr> ports := ports (display s) @ bs \<rparr>"] keyboard_isr_ports [of c "display s"]
    by (simp add: no_ports_def keyboard_irq_def send_def)
  then have "(\<lambda>(ctx, s'). (ctx, no_ports (keyboard_irq c s'))) ((\<lambda>(ctx, k). (ctx, (send bs s)\<lparr> kern := k \<rparr>)) r) =
      (\<lambda>(ctx, s'). (ctx, no_ports s')) ((\<lambda>(ctx, k). (ctx, (send bs (keyboard_irq c s))\<lparr> kern := k \<rparr>)) r)" for bs and r :: "Context \<times> kernel"
    by (cases r) simp
  then show ?thesis
    unfolding timer_irq_eq by (simp add: keyboard_irq_def option.map_comp sum.map_comp comp_def)
qed

text \<open>The mask of the first controller after a sequence of port writes: the last byte sent to its data port.\<close>

definition last_mask :: "(u16 \<times> u8) list \<Rightarrow> u8" where
  "last_mask bs = last (map snd (filter (\<lambda>(p, b). p = PIC1_DATA) bs))"

lemma boot_mask:
  "last_mask (activate_keyboard_interrupt (last_mask pic_remap)) = 0xFD"
  "last_mask (activate_timer_interrupt 0xFD) = 0xFC"
  by (simp_all add: last_mask_def pic_remap_def io_wait_def activate_keyboard_interrupt_def activate_timer_interrupt_def)

end
