(* ===== verification/Kernel.thy ===== *)
theory Kernel
  imports Idt Interrupt
begin

text \<open>
  The start of the kernel, \<open>kernel_setup\<close> in \<open>src/src/kernel.c\<close>, which the assembly loader calls, and the
  drawing helpers of that file.  What the linker places, the handlers' stubs, the frame pointer and the
  interrupt controller's answer to a read of its mask are arguments.  The last step, the switch to the
  first process, does not return: the context it loads is the result.
\<close>

section \<open>State\<close>

record boot =
  gdt_addr :: u32
  idt_addr :: u32
  tss_addr :: u32
  isr_stub_table :: "nat \<Rightarrow> u32"
  frame_pointer :: u32
  pic1_mask :: "(u16 \<times> u8) list \<Rightarrow> u8"

record machine = system +
  gdt :: "SegmentDescriptor list"
  idt :: "IDTGate list"
  tss :: TSSEntry
  gdtr :: "GDTR option"
  idtr :: "IDTR option"
  task_register :: u16
  interrupt_flag :: bool

section \<open>Drawing\<close>

fun write_string :: "u32 \<Rightarrow> u32 \<Rightarrow> u8 list \<Rightarrow> u32 \<Rightarrow> u32 \<Rightarrow> screen \<Rightarrow> fault + screen" where
  "write_string r c [] fg bg s = Inl OutOfBounds"
| "write_string r c (b # bs) fg bg s =
     (if b = 0 then Inr s else write_string r (c + 1) bs fg bg (framebuffer_write (ucast r) (ucast c) b (ucast fg) (ucast bg) s))"

definition write_bg :: "u32 \<Rightarrow> u32 \<Rightarrow> u32 \<Rightarrow> screen \<Rightarrow> screen" where
  "write_bg i j color = framebuffer_write (ucast i) (ucast j) 0 0 (ucast color)"

text \<open>The picture \<open>bg\<close> of \<open>header/background.h\<close> is an argument.\<close>

definition create_bg :: "(nat \<Rightarrow> nat \<Rightarrow> u32) \<Rightarrow> screen \<Rightarrow> screen" where
  "create_bg bg = for_cells 0 25 0 79 (\<lambda>i j. write_bg (of_nat i) (of_nat j) (bg i j))"

section \<open>The start\<close>

abbreviation (input) BIN_CLUSTER_NUMBER :: u32 where "BIN_CLUSTER_NUMBER \<equiv> 5"

definition shell_request :: FAT32DriverRequest where
  "shell_request = \<lparr> rq_buf = 0, rq_name = map of_char ''shell'' @ [0, 0, 0], rq_ext = [0, 0, 0],
     parent_cluster_number = BIN_CLUSTER_NUMBER, buffer_size = 0x100000 \<rparr>"

text \<open>Loading the tables, and the steps that touch the controller.\<close>

definition load_tables :: "boot \<Rightarrow> machine \<Rightarrow> machine" where
  "load_tables b s =
     (let s1 = send pic_remap (s\<lparr> gdtr := Some (gdt_gdtr (gdt_addr b)), interrupt_flag := False \<rparr>);
          s2 = s1\<lparr> idt := initialize_idt (isr_stub_table b) (idt s1), idtr := Some (idt_idtr (idt_addr b)), interrupt_flag := True \<rparr>
      in send (activate_keyboard_interrupt (pic1_mask b (ports (display s2)))) s2)"

definition setup_user_mode :: "boot \<Rightarrow> machine \<Rightarrow> machine" where
  "setup_user_mode b s = s\<lparr> gdt := gdt_install_tss (tss_addr b) (gdt s), task_register := GDT_TSS_SELECTOR \<rparr>"

definition start_timer :: "boot \<Rightarrow> machine \<Rightarrow> machine" where
  "start_timer b s = send (scheduler_init (pic1_mask b (ports (display s)))) (s\<lparr> interrupt_flag := False \<rparr>)"

definition map_first_page :: "machine \<Rightarrow> fault + machine" where
  "map_first_page s = and_then (paging_allocate_user_page_frame (kernel_pd_addr (paging_state (kern s))) 0 (paging_state (kern s)))
     (\<lambda>(_, pg). Inr (s\<lparr> kern := (kern s)\<lparr> paging_state := pg \<rparr> \<rparr>))"

definition switch :: "(machine, Context) cmd" where
  "switch = (\<lambda>s. map_option (\<lambda>(ctx, k). Inr (ctx, s\<lparr> kern := k, interrupt_flag := bit (eflags ctx) 9 \<rparr>))
     (scheduler_switch_to_next_process (kern s)))"

definition kernel_setup :: "boot \<Rightarrow> (machine, Context) cmd" where
  "kernel_setup b =
     bindc (seqc [
       modify (load_tables b),
       modify (\<lambda>s. set_fs (initialize_filesystem_fat32 (fs_of s)) s),
       modify (setup_user_mode b),
       update map_first_page,
       modify (\<lambda>s. s\<lparr> tss := set_tss_kernel_current_stack (frame_pointer b) (tss s) \<rparr>),
       bindc (sys_create_process shell_request) (\<lambda>_. return ()),
       modify (start_timer b)]) (\<lambda>_. switch)"

end
