(* ===== verification/Kernel_Props.thy ===== *)
theory Kernel_Props
  imports Kernel
begin

text \<open>
  What the start of the kernel leaves: with an intact shell on the disk it ends in the shell's first
  instruction, in ring 3 and with timer and keyboard enabled; without one it enters an empty process.
\<close>

section \<open>Up to the first process\<close>

definition boot_kernel :: "paging \<Rightarrow> fat32 \<Rightarrow> mem \<Rightarrow> kernel" where
  "boot_kernel pg f m = initial_kernel (alloc_pg KernelPD 0 pg) (initialize_filesystem_fat32 f) m"

definition prepared :: "boot \<Rightarrow> paging \<Rightarrow> fat32 \<Rightarrow> mem \<Rightarrow> machine \<Rightarrow> machine" where
  "prepared b pg f m s = (setup_user_mode b (load_tables b s))
     \<lparr> kern := boot_kernel pg f m, tss := set_tss_kernel_current_stack (frame_pointer b) (tss s) \<rparr>"

lemma machine_parts [simp]:
  "kern (load_tables b s) = kern s" "tss (load_tables b s) = tss s"
  "kern (setup_user_mode b s) = kern s" "tss (setup_user_mode b s) = tss s" "display (setup_user_mode b s) = display s"
  "kern (start_timer b s) = kern s"
  by (simp_all add: load_tables_def setup_user_mode_def start_timer_def send_def Let_def)

lemma kernel_setup_prepared:
  assumes k: "kern s = initial_kernel pg f m" and pg: "paging_inv pg"
  shows "kernel_setup b s = bindc (sys_create_process shell_request) (\<lambda>_ s'. switch (start_timer b s')) (prepared b pg f m s)"
proof -
  obtain r where r: "paging_allocate_user_page_frame (kernel_pd_addr pg) 0 pg = Inr (r, alloc_pg KernelPD 0 pg)"
    using alloc_call [OF paging_invD(1) [OF pg], of KernelPD 0] by (auto simp: pd_addr_def)
  let ?s = "setup_user_mode b (set_fs (initialize_filesystem_fat32 f) (load_tables b s))"
  have "kern ?s = initial_kernel pg (initialize_filesystem_fat32 f) m" by (simp add: set_fs_def k) (simp add: initial_kernel_def)
  then have "map_first_page ?s = Inr (?s\<lparr> kern := boot_kernel pg f m \<rparr>)"
    by (simp add: map_first_page_def boot_kernel_def initial_kernel_def r)
  then have u: "update map_first_page ?s = Some (Inr ((), ?s\<lparr> kern := boot_kernel pg f m \<rparr>))" by (simp add: update_def)
  have fs: "fs_of s = f" by (simp add: k initial_kernel_def)
  have "(?s\<lparr> kern := boot_kernel pg f m \<rparr>)\<lparr> tss := set_tss_kernel_current_stack (frame_pointer b) (tss s) \<rparr> = prepared b pg f m s"
    by (simp add: prepared_def setup_user_mode_def set_fs_def)
  moreover have "tss ?s = tss s" by (simp add: set_fs_def)
  ultimately show ?thesis
    unfolding kernel_setup_def seqc_simps bindc_assoc
    by (simp add: cmd u fs bindc_return seqc_empty)
qed

section \<open>The kernel before the shell\<close>

lemma boot_frames_free:
  assumes inv: "paging_inv pg" and frames: "page_frame_map pg = replicate 32 False"
  shows "lowest_free (alloc_pg KernelPD 0 pg) = Some 2" and "unat (free_page_frame_count (alloc_pg KernelPD 0 pg)) = 31"
proof -
  have c: "free_page_frame_count pg = 32"
    using paging_invD(3) [OF inv] by (simp add: pool_wf_def frames count_free_def filter_replicate)
  have "lowest_free pg = Some 1" by (simp add: lowest_free_Some frames)
  then have a: "alloc_pg KernelPD 0 pg = allocated 1 KernelPD 0 pg" by (simp add: alloc_pg_def c)
  have mp: "page_frame_map (allocated 1 KernelPD 0 pg) = (replicate 32 False)[1 := True]"
    by (simp add: allocated_def put_entry_def frames)
  have "(replicate 32 False)[1 := True] ! j = (j = 1)" if "j < 32" for j :: nat using that by (simp add: nth_list_update)
  then show "lowest_free (alloc_pg KernelPD 0 pg) = Some 2" unfolding a lowest_free_Some mp by auto
  show "unat (free_page_frame_count (alloc_pg KernelPD 0 pg)) = 31" unfolding a by (simp add: allocated_def c)
qed

lemma boot_kernel_facts:
  assumes inv: "paging_inv pg" and frames: "page_frame_map pg = replicate 32 False" and free: "\<forall>i < 32. \<not> page_directory_used pg ! i"
  shows "proc_inv (boot_kernel pg f m)" and "admits shell_request (boot_kernel pg f m)"
    and "lowest_free (paging_state (boot_kernel pg f m)) = Some 2"
proof -
  show "proc_inv (boot_kernel pg f m)"
    unfolding boot_kernel_def using alloc_pg_inv [OF inv, of KernelPD 0] free by (intro initial_proc_inv) simp_all
  show "lowest_free (paging_state (boot_kernel pg f m)) = Some 2"
    using boot_frames_free(1) [OF inv frames] by (simp add: boot_kernel_def initial_kernel_def)
  have a: "unat (0x500000 :: u32) < 2 ^ 24" and b: "(4194304 :: u32) = 2 ^ 22" by simp_all
  have "ceil_div (0x500000 :: u32) 4194304 = 2" unfolding ceil_div_exact [OF a _ b, simplified] by simp
  then have "page_frames_needed 0x100000 = 2" by (simp add: page_frames_needed_def)
  moreover have "paging_allocate_check 2 (alloc_pg KernelPD 0 pg)"
    using allocate_check_eq [of 2 "alloc_pg KernelPD 0 pg"] boot_frames_free(2) [OF inv frames] by simp
  ultimately show "admits shell_request (boot_kernel pg f m)"
    by (simp add: admits_def shell_request_def boot_kernel_def initial_kernel_def)
qed

text \<open>With slot 0 alone in use, the switch enters it.\<close>

definition first_slot :: "bool list" where
  "first_slot = (replicate 16 False)[0 := True]"

lemma next_first: "next_process first_slot 0 = Some 0"
proof -
  have "first_slot ! j = (j = 0)" if "j < 16" for j :: nat using that by (simp add: first_slot_def nth_list_update)
  then have "next_process first_slot (slot_after 0 0) = Some (slot_after 0 (Suc 15))" by (intro next_process_found) simp_all
  then show ?thesis by (simp add: slot_after_def)
qed

lemma switch_first:
  assumes "process_list_used (kern s) = first_slot" "current_running_pid (kern s) = NO_PROCESS_RUNNING"
  shows "switch s = (let ctx = pcontext (process_list (kern s) ! 0); k1 = upd_pcb 0 (\<lambda>b. b\<lparr> pstate := PROCESS_STATE_RUNNING \<rparr>) (kern s)
    in Some (Inr (ctx, s\<lparr> kern := k1\<lparr> current_running_pid := 0,
         paging_state := paging_use_page_directory (page_directory_virtual_addr ctx) (paging_state k1) \<rparr>,
       interrupt_flag := bit (eflags ctx) 9 \<rparr>)))"
  using next_first by (simp add: switch_def scheduler_switch_to_next_process_def assms Let_def)

section \<open>Into the shell\<close>

lemma boot_ports:
  assumes "\<forall>bs. pic1_mask b bs = last_mask bs"
  shows "last_mask (ports (display (start_timer b ((prepared b pg f m s)\<lparr> kern := k \<rparr>)))) = 0xFC"
  using assms boot_mask
  by (simp add: start_timer_def prepared_def load_tables_def send_def last_mask_def scheduler_init_def Let_def
      activate_timer_interrupt_def activate_keyboard_interrupt_def pic_remap_def io_wait_def)

lemma boot_kernel_simps [simp]:
  "filesystem (boot_kernel pg f m) = initialize_filesystem_fat32 f" "phys (boot_kernel pg f m) = m"
  "process_list_used (boot_kernel pg f m) = replicate 16 False" "current_running_pid (boot_kernel pg f m) = NO_PROCESS_RUNNING"
  "paging_state (boot_kernel pg f m) = alloc_pg KernelPD 0 pg" "process_list (boot_kernel pg f m) = replicate 16 zero_pcb"
  by (simp_all add: boot_kernel_def initial_kernel_def)

lemma boot_slot: "process_list_get_inactive_index (boot_kernel pg f m) = Some 0"
proof -
  have "find (\<lambda>i. \<not> replicate 16 False ! i) [0..<16] = Some (0 :: nat)" unfolding find_upt_Some by simp
  then show ?thesis by (simp add: process_list_get_inactive_index_def)
qed

text \<open>The state after the switch to slot 0, for the process that creation left there.\<close>

lemma boot_switch:
  assumes k: "k' = (if ok then upd_pcb 0 (init_pcb shell_request 0) (loaded shell_request 0 i m' (boot_kernel pg f m))
      else loaded shell_request 0 i m' (boot_kernel pg f m))"
    and inv: "paging_inv pg" and i: "i < 32"
    and mask: "\<forall>bs. pic1_mask b bs = last_mask bs"
  shows "\<exists>s' ctx. switch (start_timer b ((prepared b pg f m s)\<lparr> kern := k' \<rparr>)) = Some (Inr (ctx, s')) \<and>
    (if ok then eip ctx = 0 \<and> eflags ctx = 0x202 \<and> reg_esp (cpu ctx) = 0xBFFFFFFC \<and> reg_ds (cpu ctx) = 0x23
     else eip ctx = 0 \<and> eflags ctx = 0 \<and> cpu ctx = zero_cpu) \<and>
    interrupt_flag s' = ok \<and> current_running_pid (kern s') = 0 \<and> process_list_used (kern s') = first_slot \<and>
    pstate (process_list (kern s') ! 0) = PROCESS_STATE_RUNNING \<and>
    current_directory (paging_state (kern s')) = Some (get_pd (claimed_pg shell_request i (alloc_pg KernelPD 0 pg)) (UserPD i)) \<and>
    phys (kern s') = m' \<and> last_mask (ports (display s')) = 0xFC"
proof -
  let ?s = "start_timer b ((prepared b pg f m s)\<lparr> kern := k' \<rparr>)"
  let ?pg = "alloc_pg KernelPD 0 pg" and ?ctx = "pcontext (process_list k' ! 0)"
  have ks: "kern ?s = k'" by simp
  have pd: "page_directory_virtual_addr ?ctx = user_pd_addr ?pg i"
    by (simp add: k upd_pcb_def loaded_def claimed_def claimed_pcb_def claim_pcb_def init_pcb_def)
  have inv': "paging_inv ?pg" using alloc_pg_inv [OF inv, of KernelPD 0] by simp
  note cf = claimed_pg_facts [OF inv' i, where rq = shell_request]
  have high: "KERNEL_VIRTUAL_ADDRESS_BASE < user_pd_addr ?pg i" by (rule user_pd_addr_high [OF paging_invD(1) [OF inv'] i])
  have dir: "current_directory (paging_use_page_directory (user_pd_addr ?pg i) (paging_state k')) =
      Some (get_pd (claimed_pg shell_request i ?pg) (UserPD i))"
  proof -
    have e: "paging_use_page_directory (user_pd_addr ?pg i) (paging_state k') =
        (claimed_pg shell_request i ?pg)\<lparr> cr3 := user_pd_addr ?pg i - KERNEL_VIRTUAL_ADDRESS_BASE \<rparr>"
      using high by (simp add: k upd_pcb_def loaded_def claimed_def paging_use_page_directory_def)
    have "pd_deref (claimed_pg shell_request i ?pg) (user_pd_addr ?pg i) = Some (UserPD i)"
      using pd_deref_addr [OF paging_invD(1) [OF cf(1)], of "UserPD i"] i by (simp add: pd_addr_def cf(5))
    then have "pd_deref ((claimed_pg shell_request i ?pg)\<lparr> cr3 := c \<rparr>) (user_pd_addr ?pg i) = Some (UserPD i)" for c
      by (simp only: pd_deref_cr3)
    then show ?thesis unfolding e by (simp add: current_directory_def)
  qed
  have used: "process_list_used (kern ?s) = first_slot" and run: "current_running_pid (kern ?s) = NO_PROCESS_RUNNING"
    unfolding ks by (simp_all add: k upd_pcb_def loaded_def claimed_def first_slot_def)
  have len: "length (process_list k') = 16" by (simp add: k upd_pcb_def loaded_def claimed_def)
  note sw = switch_first [OF used run, unfolded ks Let_def]
  have c: "if ok then eip ?ctx = 0 \<and> eflags ?ctx = 0x202 \<and> reg_esp (cpu ?ctx) = 0xBFFFFFFC \<and> reg_ds (cpu ?ctx) = 0x23
     else eip ?ctx = 0 \<and> eflags ?ctx = 0 \<and> cpu ?ctx = zero_cpu"
    by (simp add: k upd_pcb_def loaded_def claimed_def claimed_pcb_def claim_pcb_def init_pcb_def zero_pcb_def zero_context_def zero_cpu_def shell_request_def)
  have fl: "bit (eflags ?ctx) 9 = ok" using c by (auto simp: bit_numeral_rec split: if_splits)
  have m': "phys k' = m'" by (simp add: k upd_pcb_def loaded_def)
  show ?thesis
    unfolding sw using c fl m' len dir boot_ports [OF mask, where pg = pg and f = f and m = m and s = s and k = k'] used
    by (simp add: upd_pcb_def pd ks del: get_pd.simps)
qed

lemma create_command:
  assumes "process_create_user_process shell_request (boot_kernel pg f m) = Some (Inr (c, k'))"
  shows "bindc (sys_create_process shell_request) (\<lambda>_ s'. switch (start_timer b s')) (prepared b pg f m s) =
    switch (start_timer b ((prepared b pg f m s)\<lparr> kern := k' \<rparr>))"
proof -
  have "kern (prepared b pg f m s) = boot_kernel pg f m" by (simp add: prepared_def)
  then have "sys_create_process shell_request (prepared b pg f m s) = Some (Inr (c, (prepared b pg f m s)\<lparr> kern := k' \<rparr>))"
    using assms by (simp add: sys_create_process_def)
  then show ?thesis by (rule bindc_step)
qed

text \<open>
  C15: When the disk, after mounting, has a directory in cluster 5 with an intact file \<open>shell\<close> of at most
  4 MiB, the start of the kernel returns and ends in that program: in a user context at address 0, with
  the stack just below the kernel and interrupts enabled, as the only process, in an address space
  where address 0 is mapped for the user to physical memory that holds exactly the file's clusters; of
  the devices, the timer and the keyboard are enabled.
\<close>

theorem boot_runs_shell:
  assumes k: "kern s = initial_kernel pg f m"
    and pg: "paging_inv pg" "page_frame_map pg = replicate 32 False" "\<forall>i < 32. \<not> page_directory_used pg ! i"
    and mask: "\<forall>bs. pic1_mask b bs = last_mask bs"
    and f': "f' = initialize_filesystem_fat32 f"
    and dir: "cluster_map f' ! 5 = FAT32_FAT_END_OF_FILE"
    and e: "find (entry_matches shell_request) (table_at f' 5) = Some e" "attribute e \<noteq> ATTR_SUBDIRECTORY"
    and chain: "is_chain (cluster_map f') cs" "hd cs = entry_cluster e" "2048 * length cs \<le> 2 ^ 22"
  shows "\<exists>ctx s' pd a. kernel_setup b s = Some (Inr (ctx, s')) \<and>
    eip ctx = 0 \<and> eflags ctx = 0x202 \<and> reg_esp (cpu ctx) = 0xBFFFFFFC \<and> reg_ds (cpu ctx) = 0x23 \<and> interrupt_flag s' \<and>
    current_running_pid (kern s') = 0 \<and> process_list_used (kern s') = first_slot \<and>
    pstate (process_list (kern s') ! 0) = PROCESS_STATE_RUNNING \<and>
    current_directory (paging_state (kern s')) = Some pd \<and> user_translate pd 0 = Some a \<and>
    load_bytes a (2048 * length cs) (phys (kern s')) = chain_bytes (storage f') cs \<and>
    last_mask (ports (display s')) = 0xFC"
proof -
  let ?k = "boot_kernel pg f m"
  note bk = boot_kernel_facts [OF pg, where f = f and m = m]
  have rq: "parent_cluster_number shell_request = 5" "rq_buf shell_request = 0" "buffer_size shell_request = 0x100000"
    by (simp_all add: shell_request_def)
  have n: "unat (clusters_needed (filesize e)) < 2 ^ LENGTH(8)" by (rule unsigned_less)
  then have "unat (ucast (clusters_needed (filesize e)) :: u32) = unat (clusters_needed (filesize e))"
    by (simp add: unsigned_ucast_eq take_bit_nat_eq_self)
  with n have buf: "\<not> (0x100000 :: u32) div 2048 < ucast (clusters_needed (filesize e))"
    by (simp add: word_less_nat_alt)
  obtain p i a m' where c: "process_create_user_process shell_request ?k =
        Some (Inr (0, upd_pcb p (init_pcb shell_request p) (loaded shell_request p i m' ?k)))"
      "process_list_get_inactive_index ?k = Some p" "i < 32"
      "user_translate (get_pd (claimed_pg shell_request i (paging_state ?k)) (UserPD i)) (rq_buf shell_request) = Some a"
      "load_bytes a (2048 * length cs) m' = chain_bytes (storage (filesystem ?k)) cs"
    by (rule create_loads_state [OF bk(1,2) _ _ _ e(2) _ _ chain(2) _ _ bk(3)])
      (use dir e chain buf in \<open>simp_all add: rq f' [symmetric] page_index_eq\<close>)
  have p: "p = 0" using c(2) boot_slot by simp
  have "\<exists>s' ctx. kernel_setup b s = Some (Inr (ctx, s')) \<and>
    (if True then eip ctx = 0 \<and> eflags ctx = 0x202 \<and> reg_esp (cpu ctx) = 0xBFFFFFFC \<and> reg_ds (cpu ctx) = 0x23
     else eip ctx = 0 \<and> eflags ctx = 0 \<and> cpu ctx = zero_cpu) \<and>
    interrupt_flag s' = True \<and> current_running_pid (kern s') = 0 \<and> process_list_used (kern s') = first_slot \<and>
    pstate (process_list (kern s') ! 0) = PROCESS_STATE_RUNNING \<and>
    current_directory (paging_state (kern s')) = Some (get_pd (claimed_pg shell_request i (alloc_pg KernelPD 0 pg)) (UserPD i)) \<and>
    phys (kern s') = m' \<and> last_mask (ports (display s')) = 0xFC"
    unfolding kernel_setup_prepared [OF k pg(1)] create_command [OF c(1)] by (rule boot_switch [OF _ pg(1) c(3) mask]) (simp add: p)
  then show ?thesis using c(4,5) by (auto simp: rq f' simp del: get_pd.simps)
qed

text \<open>
  C22: When cluster 5 is not a directory, or holds no file \<open>shell\<close>, as on a disk that was just formatted,
  the start of the kernel ignores that the process could not be created: its slot stays in use, and the
  kernel enters a context of zeros, at address 0 of an address space without a program and with
  interrupts disabled.
\<close>

theorem boot_without_shell:
  assumes k: "kern s = initial_kernel pg f m"
    and pg: "paging_inv pg" "page_frame_map pg = replicate 32 False" "\<forall>i < 32. \<not> page_directory_used pg ! i"
    and mask: "\<forall>bs. pic1_mask b bs = last_mask bs"
    and f': "f' = initialize_filesystem_fat32 f"
    and missing: "cluster_map f' ! 5 \<noteq> FAT32_FAT_END_OF_FILE \<or> find (entry_matches shell_request) (table_at f' 5) = None"
  shows "\<exists>ctx s'. kernel_setup b s = Some (Inr (ctx, s')) \<and> eip ctx = 0 \<and> eflags ctx = 0 \<and> cpu ctx = zero_cpu \<and>
    \<not> interrupt_flag s' \<and> current_running_pid (kern s') = 0 \<and> process_list_used (kern s') = first_slot \<and> phys (kern s') = m"
proof -
  let ?k = "boot_kernel pg f m"
  note bk = boot_kernel_facts [OF pg, where f = f and m = m]
  have rq: "parent_cluster_number shell_request = 5" by (simp add: shell_request_def)
  obtain i where i: "i < 32" "process_create_user_process shell_request ?k = Some (Inr (4, loaded shell_request 0 i m ?k))"
  proof (rule create_admitted [OF bk(1,2)])
    fix p i assume a: "process_list_get_inactive_index ?k = Some p" "i < 32"
      and eq: "process_create_user_process shell_request ?k =
      map_option (\<lambda>r. and_then r (\<lambda>(code, k2).
        let k3 = k2\<lparr> paging_state := paging_use_page_directory (cr3 (paging_state ?k) + KERNEL_VIRTUAL_ADDRESS_BASE) (paging_state k2) \<rparr>
        in if code \<noteq> 0 then Inr (PROCESS_CREATE_FAIL_FS_READ_FAILURE, k3)
           else Inr (PROCESS_CREATE_SUCCESS, upd_pcb p (init_pcb shell_request p) k3)))
      (map_option (\<lambda>r. and_then r (\<lambda>(code, m). case m of None \<Rightarrow> Inl PageFault
          | Some m' \<Rightarrow> Inr (code, (claimed shell_request p i ?k)\<lparr> phys := m' \<rparr>)))
        (read (paged_store (get_pd (claimed_pg shell_request i (paging_state ?k)) (UserPD i))) (filesystem ?k) shell_request (Some (phys ?k))))"
    have "read st f' shell_request (Some m) = Some (Inr (2, Some m))" for st :: "u32 \<Rightarrow> u8 list \<Rightarrow> mem option \<Rightarrow> mem option"
      using missing by (auto simp: read_def rq)
    then have "process_create_user_process shell_request ?k = Some (Inr (4, loaded shell_request p i m ?k))"
      unfolding eq by (simp add: f' loaded_def Let_def claimed_def del: get_pd.simps)
    moreover have "p = 0" using a(1) boot_slot by simp
    ultimately show thesis using that a(2) by blast
  qed
  have "\<exists>s' ctx. kernel_setup b s = Some (Inr (ctx, s')) \<and>
    (if False then eip ctx = 0 \<and> eflags ctx = 0x202 \<and> reg_esp (cpu ctx) = 0xBFFFFFFC \<and> reg_ds (cpu ctx) = 0x23
     else eip ctx = 0 \<and> eflags ctx = 0 \<and> cpu ctx = zero_cpu) \<and>
    interrupt_flag s' = False \<and> current_running_pid (kern s') = 0 \<and> process_list_used (kern s') = first_slot \<and>
    pstate (process_list (kern s') ! 0) = PROCESS_STATE_RUNNING \<and>
    current_directory (paging_state (kern s')) = Some (get_pd (claimed_pg shell_request i (alloc_pg KernelPD 0 pg)) (UserPD i)) \<and>
    phys (kern s') = m \<and> last_mask (ports (display s')) = 0xFC"
    unfolding kernel_setup_prepared [OF k pg(1)] create_command [OF i(2)] by (rule boot_switch [OF _ pg(1) i(1) mask]) simp
  then show ?thesis by auto
qed

section \<open>A disk with a shell\<close>

definition shell_entry :: FAT32DirectoryEntry where
  "shell_entry = zero_entry\<lparr> de_name := map of_char ''shell'' @ [0, 0, 0], user_attribute := UATTR_NOT_EMPTY, cluster_low := 6, filesize := 2000 \<rparr>"

definition shell_fs :: fat32 where
  "shell_fs = (let cm = (cluster_map fresh_fs)[5 := FAT32_FAT_END_OF_FILE, 6 := FAT32_FAT_END_OF_FILE]
     in fresh_fs\<lparr> cluster_map := cm, storage := write_clusters (encode_dir_table (zero_table[2 := shell_entry])) 5 1
          (write_clusters (encode_fat cm) 1 1 (storage fresh_fs)) \<rparr>)"

lemma shell_fs_facts:
  "initialize_filesystem_fat32 shell_fs = shell_fs" "cluster_map shell_fs ! 5 = FAT32_FAT_END_OF_FILE"
  "cluster_map shell_fs ! 6 = FAT32_FAT_END_OF_FILE" "table_at shell_fs 5 = zero_table[2 := shell_entry]"
proof -
  have f: "length (cluster_map fresh_fs) = 512" "cluster_map fresh_fs ! 0 = CLUSTER_0_VALUE" "cluster_map fresh_fs ! 1 = CLUSTER_1_VALUE"
    "cluster_map fresh_fs ! 2 = FAT32_FAT_END_OF_FILE" "read_blocks (storage fresh_fs) 0 1 = fs_signature"
    using fs_wf_fresh by (simp_all add: fs_wf_def)
  have w: "table_wf (zero_table[2 := shell_entry])"
    by (intro table_wf_update) (simp_all add: shell_entry_def entry_wf_def zero_entry_def)
  have "fs_wf shell_fs"
    using f w by (simp add: fs_wf_def shell_fs_def Let_def read_write_other boot_write_cluster)
  from remount [OF this, of "cluster_map shell_fs"] show "initialize_filesystem_fat32 shell_fs = shell_fs" by simp
  show "cluster_map shell_fs ! 5 = FAT32_FAT_END_OF_FILE" "cluster_map shell_fs ! 6 = FAT32_FAT_END_OF_FILE"
    using f(1) by (simp_all add: shell_fs_def Let_def)
  show "table_at shell_fs 5 = zero_table[2 := shell_entry]" using w by (simp add: shell_fs_def Let_def codec)
qed

definition demo_machine :: "fat32 \<Rightarrow> machine" where
  "demo_machine f = \<lparr> kern = initial_kernel boot_paging f (\<lambda>_. 0),
     display = \<lparr> kbd = keyboard_state, screen = (\<lambda>_. 0), ports = [] \<rparr>, shell_open = False,
     gdt = global_descriptor_table, idt = interrupt_descriptor_table, tss = interrupt_tss_entry,
     gdtr = None, idtr = None, task_register = 0, interrupt_flag = False \<rparr>"

definition demo_boot :: boot where
  "demo_boot = \<lparr> gdt_addr = 0xC0110000, idt_addr = 0xC0120000, tss_addr = 0xC0130000, isr_stub_table = (\<lambda>i. 0xC0100000 + 16 * of_nat i),
     frame_pointer = 0xC03FFFE0, pic1_mask = last_mask \<rparr>"

lemma demo_machine_kern: "kern (demo_machine f) = initial_kernel boot_paging f (\<lambda>_. 0)"
  by (simp add: demo_machine_def)

lemma boot_paging_unused: "page_frame_map boot_paging = replicate 32 False" "\<forall>i < 32. \<not> page_directory_used boot_paging ! i"
  by (simp_all add: boot_paging_def initial_paging_def)

lemma demo_boot_mask: "\<forall>bs. pic1_mask demo_boot bs = last_mask bs"
  by (simp add: demo_boot_def)

theorem boot_runs_shell_witness:
  "\<exists>ctx s' a. kernel_setup demo_boot (demo_machine shell_fs) = Some (Inr (ctx, s')) \<and> eip ctx = 0 \<and> current_running_pid (kern s') = 0 \<and>
     load_bytes a 2048 (phys (kern s')) = chain_bytes (storage shell_fs) [6]"
proof -
  have l: "length zero_table = 64" by (simp add: zero_table_def)
  have z: "zero_table ! 0 = zero_entry" "zero_table ! Suc 0 = zero_entry" by (simp_all add: zero_table_def)
  have m: "entry_matches shell_request shell_entry" "\<not> entry_matches shell_request zero_entry" by code_simp+
  have "find (entry_matches shell_request) (zero_table[2 := shell_entry]) = Some shell_entry"
    unfolding find_Some_iff using m z
    by (intro exI [where x = 2]) (auto simp: l nth_list_update less_2_cases_iff)
  then have e: "find (entry_matches shell_request) (table_at shell_fs 5) = Some shell_entry" unfolding shell_fs_facts(4) .
  show ?thesis
    using boot_runs_shell [OF demo_machine_kern boot_inv boot_paging_unused demo_boot_mask shell_fs_facts(1) [symmetric] shell_fs_facts(2) e,
        of "[6]"] shell_fs_facts(3)
    by (simp add: shell_entry_def zero_entry_def data_cluster_def entry_cluster_def) blast
qed

theorem boot_without_shell_witness:
  "\<exists>ctx s'. kernel_setup demo_boot (demo_machine blank_fs) = Some (Inr (ctx, s')) \<and> eflags ctx = 0"
proof -
  have "initialize_filesystem_fat32 blank_fs = fresh_fs"
    using blank_storage_empty by (simp add: initialize_filesystem_fat32_def fresh_fs_def)
  moreover have "cluster_map fresh_fs ! 5 \<noteq> FAT32_FAT_END_OF_FILE" by (simp add: fresh_fs_def create_cluster_map)
  ultimately show ?thesis
    using boot_without_shell [OF demo_machine_kern boot_inv boot_paging_unused demo_boot_mask refl, where f = blank_fs] by auto
qed

end
