(* ===== verification/Dispatch.thy ===== *)
theory Dispatch
  imports Interrupt Rtc
begin

text \<open>
  The dispatch of interrupts and system calls, \<open>main_interrupt_handler\<close> and \<open>syscall\<close> in
  \<open>src/src/interrupt.c\<close>, on the machine's state: the arguments of a call are decoded from the registers of
  the frame and from user memory, and its results are stored there, through the page directory in use.
  A pointer at or above the kernel's half would reach the modelled variables themselves; following one is
  the fault \<open>BadPointer\<close>.
\<close>

section \<open>State and environment\<close>

record os = system +
  clock_reads :: nat

record environment =
  scancode :: u8
  chip :: rtc_chip
  junk_flags :: "nat \<Rightarrow> PageDirectoryEntryFlag"

abbreviation directory_of :: "os \<Rightarrow> page_directory option" where
  "directory_of s \<equiv> current_directory (paging_state (kern s))"

definition set_phys :: "mem \<Rightarrow> os \<Rightarrow> os" where
  "set_phys m s = s\<lparr> kern := (kern s)\<lparr> phys := m \<rparr> \<rparr>"

section \<open>User memory\<close>

definition user_byte :: "os \<Rightarrow> u32 \<Rightarrow> fault + u8" where
  "user_byte s p =
     (if KERNEL_VIRTUAL_ADDRESS_BASE \<le> p then Inl BadPointer
      else case directory_of s of
             None \<Rightarrow> Inl BadPointer
           | Some pd \<Rightarrow> (case translate pd p of None \<Rightarrow> Inl PageFault | Some a \<Rightarrow> Inr (phys (kern s) a)))"

fun load_from :: "os \<Rightarrow> u32 \<Rightarrow> nat \<Rightarrow> fault + u8 list" where
  "load_from s p 0 = Inr []"
| "load_from s p (Suc n) = and_then (user_byte s p) (\<lambda>b. and_then (load_from s (p + 1) n) (\<lambda>bs. Inr (b # bs)))"

definition load_user :: "u32 \<Rightarrow> nat \<Rightarrow> (os, u8 list) cmd" where
  "load_user p n = (\<lambda>s. lift (load_from s p n) s)"

text \<open>A store that stays below the kernel's half; \<open>None\<close> is a page fault.\<close>

definition user_store :: "page_directory \<Rightarrow> u32 \<Rightarrow> u8 list \<Rightarrow> mem option \<Rightarrow> mem option" where
  "user_store pd p bs m = (if unat p + length bs \<le> unat KERNEL_VIRTUAL_ADDRESS_BASE then paged_store pd p bs m else None)"

definition store_user :: "u32 \<Rightarrow> u8 list \<Rightarrow> (os, unit) cmd" where
  "store_user p bs = update (\<lambda>s. case directory_of s of
       None \<Rightarrow> Inl BadPointer
     | Some pd \<Rightarrow> (case user_store pd p bs (Some (phys (kern s))) of None \<Rightarrow> Inl PageFault | Some m \<Rightarrow> Inr (set_phys m s)))"

text \<open>
  The characters behind a pointer: up to \<open>n\<close> of them, ending with the first null character or before the
  first byte that cannot be read.
\<close>

fun string_from :: "os \<Rightarrow> u32 \<Rightarrow> nat \<Rightarrow> u8 list" where
  "string_from s p 0 = []"
| "string_from s p (Suc n) =
     (case user_byte s p of Inl e \<Rightarrow> [] | Inr b \<Rightarrow> if b = 0 then [b] else b # string_from s (p + 1) n)"

section \<open>Arguments\<close>

definition field_at :: "u8 list \<Rightarrow> nat \<Rightarrow> u32" where
  "field_at bs i = from_le32 (take 4 (drop i bs))"

definition get_request :: "u32 \<Rightarrow> (os, FAT32DriverRequest) cmd" where
  "get_request p = bindc (load_user p 23) (\<lambda>bs. return
     \<lparr> rq_buf = field_at bs 0, rq_name = take 8 (drop 4 bs), rq_ext = take 3 (drop 12 bs),
       parent_cluster_number = field_at bs 15, buffer_size = field_at bs 19 \<rparr>)"

definition get_puts_args :: "u32 \<Rightarrow> (os, SyscallPutsArgs) cmd" where
  "get_puts_args p = bindc (load_user p 16) (\<lambda>bs. bindc (gets (\<lambda>s. string_from s (field_at bs 0) (unat (field_at bs 4)))) (\<lambda>str. return
     \<lparr> buf = str, count = field_at bs 4, fg_color = field_at bs 8, bg_color = field_at bs 12 \<rparr>))"

definition get_puts_at_args :: "u32 \<Rightarrow> (os, SyscallPutsAtArgs) cmd" where
  "get_puts_at_args p = bindc (load_user p 18) (\<lambda>bs. bindc (gets (\<lambda>s. string_from s (field_at bs 0) (unat (field_at bs 4)))) (\<lambda>str. return
     \<lparr> buf = str, count = field_at bs 4, fg_color = field_at bs 8, bg_color = field_at bs 12, at_row = bs ! 16, at_col = bs ! 17 \<rparr>))"

definition get_info_args :: "u32 \<Rightarrow> (os, SyscallProcessInfoArgs) cmd" where
  "get_info_args p = bindc (load_user p 52) (\<lambda>bs. return
     \<lparr> info_pid = field_at bs 0, info_name = take 32 (drop 4 bs), info_state = take 8 (drop 36 bs), process_exists = (bs ! 44 \<noteq> 0),
       info_page_frame_used_count = field_at bs 48 \<rparr>)"

definition put_info_args :: "u32 \<Rightarrow> SyscallProcessInfoArgs \<Rightarrow> (os, unit) cmd" where
  "put_info_args p args = bindc (store_user (p + 44) [if process_exists args then 1 else 0]) (\<lambda>_.
     if process_exists args
     then seqc [store_user (p + 4) (info_name args), store_user (p + 36) (info_state args), store_user (p + 48) (le32 (info_page_frame_used_count args))]
     else return ())"

definition put_bool :: "u32 \<Rightarrow> bool \<Rightarrow> (os, unit) cmd" where
  "put_bool p b = store_user p [if b then 1 else 0]"

text \<open>The return codes of the driver are signed bytes.\<close>

definition put_code :: "u32 \<Rightarrow> int \<Rightarrow> (os, unit) cmd" where
  "put_code p code = store_user p [word_of_int code]"

section \<open>Files in user memory\<close>

definition do_read :: "FAT32DriverRequest \<Rightarrow> (os, int) cmd" where
  "do_read rq = (\<lambda>s. case directory_of s of
       None \<Rightarrow> Some (Inl BadPointer)
     | Some pd \<Rightarrow> map_option (\<lambda>r. and_then r (\<lambda>(code, m). case m of
             None \<Rightarrow> Inl PageFault | Some m' \<Rightarrow> Inr (code, set_phys m' s)))
           (read (user_store pd) (fs_of s) rq (Some (phys (kern s)))))"

definition do_read_directory :: "FAT32DriverRequest \<Rightarrow> (os, int) cmd" where
  "do_read_directory rq = (\<lambda>s. case directory_of s of
       None \<Rightarrow> Some (Inl BadPointer)
     | Some pd \<Rightarrow> (case read_directory (user_store pd) (fs_of s) rq (Some (phys (kern s))) of
             (code, None) \<Rightarrow> Some (Inl PageFault) | (code, Some m') \<Rightarrow> Some (Inr (code, set_phys m' s))))"

text \<open>A write that succeeds has read the clusters of the file from the buffer; they must be readable.\<close>

definition user_load :: "os \<Rightarrow> u32 \<Rightarrow> nat \<Rightarrow> unit \<Rightarrow> u8 list" where
  "user_load s p n _ = map (\<lambda>i. case user_byte s (p + of_nat i) of Inr b \<Rightarrow> b | Inl _ \<Rightarrow> 0) [0..<n]"

definition do_write :: "FAT32DriverRequest \<Rightarrow> (os, int) cmd" where
  "do_write rq = (\<lambda>s. Some (and_then (write_fat32 (user_load s) () rq (fs_of s)) (\<lambda>(code, f).
     if code = 0 then and_then (load_from s (rq_buf rq) (2048 * unat (clusters_needed (buffer_size rq)))) (\<lambda>_. Inr (code, set_fs f s))
     else Inr (code, set_fs f s))))"

section \<open>The calls\<close>

definition syscall_files :: "u32 \<Rightarrow> u32 \<Rightarrow> u32 \<Rightarrow> (os, unit) cmd" where
  "syscall_files eax ebx ecx =
     bindc (get_request ebx) (\<lambda>rq.
     bindc (if eax = 0 then do_read rq else if eax = 1 then do_read_directory rq else if eax = 2 then do_write rq else sys_delete rq)
       (put_code ecx))"

definition syscall_screen :: "u32 \<Rightarrow> u32 \<Rightarrow> u32 \<Rightarrow> (os, unit) cmd" where
  "syscall_screen eax ebx ecx =
     (if eax = 4 then bindc sys_getchar (\<lambda>c. store_user ebx [c])
      else if eax = 5 then bindc (store_user (ebx + 4) (le32 1)) (\<lambda>_. bindc (get_puts_args ebx) sys_putchar)
      else if eax = 6 then bindc (get_puts_args ebx) sys_puts
      else if eax = 7 then bindc (get_puts_at_args ebx) sys_puts_at
      else if eax = 8 then sys_activate_keyboard
      else if eax = 9 then sys_deactivate_keyboard
      else if eax = 10 then bindc sys_get_keyboard_borders (\<lambda>k. store_user ebx [up k, down k, left k, right k])
      else if eax = 11 then bindc (load_user ebx 4) (\<lambda>bs. sys_set_keyboard_borders
             \<lparr> up = bs ! 0, down = bs ! 1, left = bs ! 2, right = bs ! 3 \<rparr>)
      else if eax = 13 then bindc sys_keyboard_press_ctrl (put_bool ebx)
      else if eax = 14 then sys_clear_screen
      else if eax = 15 then sys_set_cursor ebx ecx
      else if eax = 16 then bindc sys_get_cursor_row (\<lambda>r. store_user ebx [r])
      else if eax = 17 then bindc sys_get_cursor_col (\<lambda>c. store_user ebx [c])
      else return ())"

definition get_clock_time :: "environment \<Rightarrow> (os, SyscallClockTimeArgs) cmd" where
  "get_clock_time env = (\<lambda>s. map_option (\<lambda>(ct, n). Inr (ct, s\<lparr> clock_reads := n \<rparr>)) (read_rtc (chip env)
     \<lparr> hour = 0, minute = 0, second = 0, day = 0, month = 0, year = 0 \<rparr> (clock_reads s)))"

definition syscall_system :: "environment \<Rightarrow> u32 \<Rightarrow> u32 \<Rightarrow> u32 \<Rightarrow> (os, unit) cmd" where
  "syscall_system env eax ebx ecx =
     (if eax = 18 then bindc (gets (\<lambda>s. read_clusters (storage (fs_of s)) ecx 1)) (store_user ebx)
      else if eax = 19 then sys_terminate_process (junk_flags env)
      else if eax = 20 then bindc (get_request ebx) (\<lambda>rq. bindc (sys_create_process rq) (\<lambda>code. store_user ecx (le32 (word_of_int code))))
      else if eax = 21 then bindc sys_get_max_process_count (\<lambda>n. store_user ebx (le32 n))
      else if eax = 22 then bindc (get_info_args ebx) (\<lambda>args. bindc (sys_get_process_info args) (put_info_args ebx))
      else if eax = 23 then bindc (get_clock_time env) (\<lambda>t. store_user ebx [hour t, minute t, second t, day t, month t, year t])
      else if eax = 24 then bindc sys_get_is_shell_open (put_bool ebx)
      else if eax = 25 then sys_set_is_shell_open ebx
      else if eax = 26 then bindc (load_user ebx 2048) (\<lambda>bs. modify (\<lambda>s. set_fs ((fs_of s)\<lparr> storage := write_clusters bs ecx 1 (storage (fs_of s)) \<rparr>) s))
      else if eax = 27 then sys_kill_process (junk_flags env) ebx
      else return ())"

definition syscall :: "environment \<Rightarrow> InterruptFrame \<Rightarrow> (os, unit) cmd" where
  "syscall env frame =
     (let eax = reg_eax (frame_cpu frame); ebx = reg_ebx (frame_cpu frame); ecx = reg_ecx (frame_cpu frame)
      in if eax \<le> 3 then syscall_files eax ebx ecx
         else if eax \<le> 17 then syscall_screen eax ebx ecx
         else syscall_system env eax ebx ecx)"

text \<open>The result is the context that a timer interrupt switches to; the other branches return to the interrupted program.\<close>

definition main_interrupt_handler :: "environment \<Rightarrow> InterruptFrame \<Rightarrow> (os, Context option) cmd" where
  "main_interrupt_handler env frame =
     (if int_number frame = 0x20 then (\<lambda>s. map_option (map_sum id (\<lambda>(ctx, s'). (Some ctx, s'))) (timer_irq frame s))
      else if int_number frame = 0x21 then bindc (modify (keyboard_irq (scancode env))) (\<lambda>_. return None)
      else if int_number frame = 0x30 then bindc (syscall env frame) (\<lambda>_. return None)
      else return None)"

end
