(* ===== verification/Process_Runs.thy ===== *)
theory Process_Runs
  imports Scheduler
begin

text \<open>
  The invariant of the process table and the page manager over everything that happens to them: creation,
  destruction of any slot, saving of contexts and switching.  The counter of processes is left out: a
  destruction of a slot that is not in use lowers it all the same.
\<close>

section \<open>The invariant\<close>

abbreviation with_count :: "u32 \<Rightarrow> kernel \<Rightarrow> kernel" where
  "with_count n k \<equiv> k\<lparr> active_process_count := n \<rparr>"

text \<open>A slot that is not in use has no page directory and no page on record.\<close>

definition idle_pcb :: "ProcessControlBlock \<Rightarrow> bool" where
  "idle_pcb b \<longleftrightarrow> page_directory_virtual_addr (pcontext b) = 0 \<and> (\<forall>i < 8. \<not> data_virtual_addr_used b ! i)"

definition kernel_inv :: "kernel \<Rightarrow> bool" where
  "kernel_inv k \<longleftrightarrow> (\<exists>n. proc_inv (with_count n k)) \<and> (\<forall>p < 16. \<not> process_list_used k ! p \<longrightarrow> idle_pcb (process_list k ! p))"

lemma kernel_invE:
  assumes "kernel_inv k"
  obtains n where "proc_inv (with_count n k)"
  using assms unfolding kernel_inv_def by blast

lemma kernel_inv_idle: "kernel_inv k \<Longrightarrow> p < 16 \<Longrightarrow> \<not> process_list_used k ! p \<Longrightarrow> idle_pcb (process_list k ! p)"
  unfolding kernel_inv_def by blast

lemma kernel_inv_paging: "kernel_inv k \<Longrightarrow> paging_inv (paging_state k)"
  by (auto simp: kernel_inv_def proc_inv_def)

lemma kernel_inv_lengths: "kernel_inv k \<Longrightarrow> length (process_list k) = 16 \<and> length (process_list_used k) = 16"
  by (auto simp: kernel_inv_def proc_inv_def table_ok_def)

lemma zero_pcb_idle [simp]: "idle_pcb zero_pcb" "pcb_wf zero_pcb"
  by (auto simp: idle_pcb_def zero_pcb_def zero_context_def pcb_wf_def count_used_def)

text \<open>What the invariant does not look at: contexts other than their page directories, and idle slots.\<close>

lemma proc_inv_tables:
  assumes inv: "proc_inv k"
    and "process_list_used k' = process_list_used k" "active_process_count k' = active_process_count k"
    and pg: "paging_inv (paging_state k')" "frame_at (paging_state k') = frame_at (paging_state k)"
      "user_pd_addr (paging_state k') = user_pd_addr (paging_state k)" "page_directory_used (paging_state k') = page_directory_used (paging_state k)"
    and "length (process_list k') = 16" and "\<And>q. q < 16 \<Longrightarrow> pcb_wf (process_list k' ! q)"
    and "\<And>q. q < 16 \<Longrightarrow> process_list_used k ! q \<Longrightarrow> pcb_dir k' q = pcb_dir k q \<and>
      pcb_pages (process_list k' ! q) = pcb_pages (process_list k ! q)"
  shows "proc_inv k'"
  using inv assms(8,9,10) unfolding proc_inv_def table_ok_def dirs_ok_def assms(2,3) pg(2-4)
  by (simp add: pg(1)) metis

lemma kernel_inv_tables:
  assumes inv: "kernel_inv k" and "process_list_used k' = process_list_used k"
    and "paging_state k' = paging_state k \<or> (\<exists>a. paging_state k' = paging_use_page_directory a (paging_state k))"
    and "length (process_list k') = 16"
    and pcb: "\<And>q. q < 16 \<Longrightarrow> pcb_wf (process_list k ! q) \<Longrightarrow> pcb_wf (process_list k' ! q)"
      "\<And>q. q < 16 \<Longrightarrow> process_list_used k ! q \<Longrightarrow> pcb_dir k' q = pcb_dir k q \<and> pcb_pages (process_list k' ! q) = pcb_pages (process_list k ! q)"
      "\<And>q. q < 16 \<Longrightarrow> idle_pcb (process_list k ! q) \<Longrightarrow> idle_pcb (process_list k' ! q)"
  shows "kernel_inv k'"
proof -
  obtain n where n: "proc_inv (with_count n k)" by (rule kernel_invE [OF inv])
  note idle = kernel_inv_idle [OF inv]
  have wf: "pcb_wf (process_list k ! q)" if "q < 16" for q using proc_invD(2) [OF n] that by (simp add: table_ok_def)
  have "proc_inv (with_count n k')"
  proof (rule proc_inv_tables [OF n])
    have "paging_inv (paging_state k)" using proc_invD(1) [OF n] by simp
    then show "paging_inv (paging_state (with_count n k'))" using assms(3) by (auto simp: use_keeps)
    show "frame_at (paging_state (with_count n k')) = frame_at (paging_state (with_count n k))"
      "user_pd_addr (paging_state (with_count n k')) = user_pd_addr (paging_state (with_count n k))"
      "page_directory_used (paging_state (with_count n k')) = page_directory_used (paging_state (with_count n k))"
      using assms(3) by (auto simp: fun_eq_iff frame_at_def user_pd_addr_def paging_use_page_directory_def)
  qed (use assms(2,4) pcb(1,2) wf in \<open>auto simp: pcb_dir_def\<close>)
  then show ?thesis using idle pcb(3) assms(2) unfolding kernel_inv_def by auto
qed

text \<open>A change of a block that leaves its bookkeeping and its directory alone.\<close>

lemma kernel_inv_upd:
  assumes "kernel_inv k"
    and "\<And>b. virtual_addr_used (f b) = virtual_addr_used b \<and> data_virtual_addr_used (f b) = data_virtual_addr_used b \<and>
      page_frame_used_count (f b) = page_frame_used_count b \<and>
      page_directory_virtual_addr (pcontext (f b)) = page_directory_virtual_addr (pcontext b)"
  shows "kernel_inv (upd_pcb p f k)"
proof -
  have "process_list (upd_pcb p f k) ! q = process_list k ! q \<or> process_list (upd_pcb p f k) ! q = f (process_list k ! q)" if "q < 16" for q
    using that kernel_inv_lengths [OF assms(1)] by (cases "q = p") (simp_all add: upd_pcb_def)
  then have same: "virtual_addr_used (process_list (upd_pcb p f k) ! q) = virtual_addr_used (process_list k ! q)"
    "data_virtual_addr_used (process_list (upd_pcb p f k) ! q) = data_virtual_addr_used (process_list k ! q)"
    "page_frame_used_count (process_list (upd_pcb p f k) ! q) = page_frame_used_count (process_list k ! q)"
    "page_directory_virtual_addr (pcontext (process_list (upd_pcb p f k) ! q)) = page_directory_virtual_addr (pcontext (process_list k ! q))"
    if "q < 16" for q using assms(2) that by metis+
  show ?thesis
    using kernel_inv_lengths [OF assms(1)]
    by (intro kernel_inv_tables [OF assms(1)])
      (simp_all add: same pcb_wf_def idle_pcb_def pcb_pages_def pcb_dir_def, simp_all add: upd_pcb_def)
qed

lemma kernel_inv_other:
  assumes "kernel_inv k" and "process_list_used k' = process_list_used k" "process_list k' = process_list k"
    and "paging_state k' = paging_state k \<or> (\<exists>a. paging_state k' = paging_use_page_directory a (paging_state k))"
  shows "kernel_inv k'"
  using kernel_inv_lengths [OF assms(1)] assms(2-4) by (intro kernel_inv_tables [OF assms(1)]) (simp_all add: pcb_dir_def)

section \<open>Switching\<close>

lemma save_keeps:
  assumes "kernel_inv k" and "scheduler_save_context_to_current_running_pcb ctx k = Inr k'"
  shows "kernel_inv k'"
  using assms by (auto simp: scheduler_save_context_to_current_running_pcb_def split: option.splits if_splits intro!: kernel_inv_upd)

lemma switch_keeps:
  assumes "kernel_inv k" and "scheduler_switch_to_next_process k = Some (ctx, k')"
  shows "kernel_inv k'"
proof -
  obtain i where k': "k' = (upd_pcb (unat i) (\<lambda>b. b\<lparr> pstate := PROCESS_STATE_RUNNING \<rparr>) k)\<lparr> current_running_pid := i,
      paging_state := paging_use_page_directory (page_directory_virtual_addr ctx) (paging_state k) \<rparr>"
    using assms(2) by (auto simp: scheduler_switch_to_next_process_def upd_pcb_def Let_def)
  have "kernel_inv (upd_pcb (unat i) (\<lambda>b. b\<lparr> pstate := PROCESS_STATE_RUNNING \<rparr>) k)" by (intro kernel_inv_upd assms(1)) simp
  then show ?thesis by (rule kernel_inv_other) (auto simp: k' upd_pcb_def)
qed

section \<open>Destruction\<close>

lemma destroy_frames_idle:
  "set is \<subseteq> {..<8} \<Longrightarrow> idle_pcb b \<Longrightarrow> destroy_frames junk a b is pg = Inr pg"
  by (induction "is") (auto simp: idle_pcb_def)

lemma destroy_with_count:
  "process_destroy junk p (with_count n k) =
     map_sum id (\<lambda>(r, k'). (r, with_count (if of_nat PROCESS_COUNT_MAX \<le> p then n else n - 1) k')) (process_destroy junk p k)"
  by (cases "destroy_frames junk (page_directory_virtual_addr (pcontext (process_list k ! unat p))) (process_list k ! unat p)
      [0..<PROCESS_PAGE_FRAME_COUNT_MAX] (paging_state k)")
     (simp_all add: process_destroy_def Let_def)

lemma destroy_keeps:
  assumes inv: "kernel_inv k" and d: "process_destroy junk p k = Inr (r, k')"
  shows "kernel_inv k'"
proof (cases "16 \<le> p")
  case True
  then show ?thesis using inv d by (simp add: process_destroy_def)
next
  case False
  let ?p = "unat p"
  have p: "?p < 16" "of_nat ?p = p" using False by (simp_all add: word_le_nat_alt)
  note l = kernel_inv_lengths [OF inv]
  obtain n where n: "proc_inv (with_count n k)" by (rule kernel_invE [OF inv])
  note idle = kernel_inv_idle [OF inv]
  show ?thesis
  proof (cases "process_list_used k ! ?p")
    case True
    then obtain i where i: "i < 32" "pcb_dir (with_count n k) ?p = user_pd_addr (paging_state (with_count n k)) i"
      using proc_invD(3) [OF n] p(1) unfolding dirs_ok_def by auto
    have e: "process_destroy junk p (with_count n k) = Inr (True, destroyed junk ?p i (with_count n k))"
      using destroy_eq [OF n p(1) i, of junk] p(2) by simp
    have "proc_inv (destroyed junk ?p i (with_count n k))"
      using True by (intro destroyed_inv [OF n p(1) _ i]) simp
    moreover have "with_count (n - 1) k' = destroyed junk ?p i (with_count n k)"
      using e d False by (simp add: destroy_with_count)
    ultimately have "\<exists>n. proc_inv (with_count n k')" by metis
    moreover have "process_list_used k' = (process_list_used k)[?p := False]" "process_list k' = (process_list k)[?p := zero_pcb]"
      using d False by (auto simp: process_destroy_def Let_def)
    ultimately show ?thesis using idle l p(1) by (auto simp: kernel_inv_def nth_list_update)
  next
    case unused: False
    then have z: "idle_pcb (process_list k ! ?p)" using idle p(1) by blast
    have fr: "destroy_frames junk 0 (process_list k ! ?p) [0..<8] (paging_state k) = Inr (paging_state k)"
      by (rule destroy_frames_idle [OF _ z]) auto
    have "find (\<lambda>i. user_pd_addr (paging_state k) i = 0) [0..<32] = None"
      using user_pd_addr_high [OF paging_invD(1) [OF kernel_inv_paging [OF inv]]] unfolding find_upt_None
      by fastforce
    then have "paging_free_page_directory 0 (paging_state k) = (False, paging_state k)"
      unfolding free_directory_eq by simp
    then have k': "k' = k\<lparr> process_list := (process_list k)[?p := zero_pcb], process_list_used := (process_list_used k)[?p := False],
        active_process_count := active_process_count k - 1 \<rparr>"
      using d False fr z
      by (auto simp: process_destroy_def Let_def idle_pcb_def simp del: upt.simps upt_rec_numeral)
    have "(process_list_used k)[?p := False] = process_list_used k" using unused by (simp add: list_update_same_conv l p(1))
    then show ?thesis using l p(1) unused
      by (intro kernel_inv_tables [OF inv]) (auto simp: k' nth_list_update pcb_dir_def)
  qed
qed

section \<open>Creation\<close>

lemma allocate_with_count:
  "process_allocate_page_frame p va (with_count n k) = map_sum id (with_count n) (process_allocate_page_frame p va k)"
proof (cases "find (\<lambda>i. \<not> data_virtual_addr_used (process_list k ! p) ! i) [0..<PROCESS_PAGE_FRAME_COUNT_MAX]")
  case (Some i)
  show ?thesis
    by (cases "paging_allocate_user_page_frame (page_directory_virtual_addr (pcontext (process_list k ! p))) va (paging_state k)")
      (use Some in \<open>auto simp: process_allocate_page_frame_def upd_pcb_def Let_def simp del: upt.simps upt_rec_numeral\<close>)
qed (simp add: process_allocate_page_frame_def Let_def del: upt.simps upt_rec_numeral)

lemma claim_with_count:
  "process_claim rq p (with_count n k) = map_sum id (with_count (n + 1)) (process_claim rq p k)"
proof -
  obtain a pg where c: "paging_create_new_page_directory (paging_state k) = (a, pg)" by force
  let ?k = "\<lambda>n. upd_pcb p (claim_pcb a) (k\<lparr> active_process_count := n, process_list_used := (process_list_used k)[p := True],
      paging_state := paging_use_page_directory a pg \<rparr>)"
  have "?k (n + 1) = with_count (n + 1) (?k (active_process_count k + 1))" by (simp add: upd_pcb_def)
  then have "process_allocate_page_frame p (rq_buf rq) (?k (n + 1)) =
      map_sum id (with_count (n + 1)) (process_allocate_page_frame p (rq_buf rq) (?k (active_process_count k + 1)))"
    by (simp only: allocate_with_count)
  then show ?thesis
    by (cases "process_allocate_page_frame p (rq_buf rq) (?k (active_process_count k + 1))")
      (simp_all add: process_claim_def c allocate_with_count)
qed

lemma load_with_count:
  "load_executable rq (with_count n k) = map_option (map_sum id (\<lambda>(c, k'). (c, with_count n k'))) (load_executable rq k)"
proof (cases "current_directory (paging_state k)")
  case (Some pd)
  show ?thesis
  proof (cases "read (paged_store pd) (filesystem k) rq (Some (phys k))")
    case r: (Some x)
    then show ?thesis using Some by (cases x) (auto simp: load_executable_def split: option.split)
  qed (simp add: load_executable_def Some)
qed (simp add: load_executable_def)

lemma admits_iff: "admits rq k \<longleftrightarrow> \<not> 16 \<le> active_process_count k \<and> \<not> KERNEL_VIRTUAL_ADDRESS_BASE \<le> rq_buf rq \<and>
    paging_allocate_check (page_frames_needed (buffer_size rq)) (paging_state k) \<and> \<not> 8 < page_frames_needed (buffer_size rq)"
  by (auto simp: admits_def)

text \<open>Two counters below 16 make no difference but for the counter.\<close>

lemma create_with_count:
  assumes "\<not> 16 \<le> n" and "admits rq k"
  shows "process_create_user_process rq (with_count n k) =
    map_option (map_sum id (\<lambda>(c, k'). (c, with_count (n + 1) k'))) (process_create_user_process rq k)"
proof (cases "process_list_get_inactive_index k")
  case None
  then show ?thesis using assms
    by (simp add: process_create_user_process_def process_list_get_inactive_index_def admits_iff Let_def)
next
  case (Some p)
  then have s: "process_list_get_inactive_index (with_count n k) = Some p" by (simp add: process_list_get_inactive_index_def)
  show ?thesis
  proof (cases "process_claim rq p k")
    case (Inl e)
    then show ?thesis using assms Some s
      by (simp add: process_create_user_process_def claim_with_count admits_iff Let_def)
  next
    case (Inr k1)
    show ?thesis
    proof (cases "load_executable rq k1")
      case None
      then show ?thesis using assms Some s Inr
        by (simp add: process_create_user_process_def claim_with_count load_with_count admits_iff Let_def)
    next
      case (Some x)
      then show ?thesis using assms \<open>process_list_get_inactive_index k = Some p\<close> s Inr
        by (cases x) (auto simp: process_create_user_process_def claim_with_count load_with_count admits_iff Let_def upd_pcb_def)
    qed
  qed
qed

lemma create_cases:
  assumes "process_create_user_process rq k = Some (Inr (c, k'))"
  obtains "k' = k" "c \<in> {1, 2, 3}" | "admits rq k" "process_list_get_inactive_index k \<noteq> None"
proof -
  have "k' = k \<and> c \<in> {1, 2, 3} \<or> admits rq k \<and> process_list_get_inactive_index k \<noteq> None"
    using assms unfolding process_create_user_process_def admits_iff
    by (auto simp: Let_def split: if_splits option.splits)
  then show thesis using that by blast
qed

text \<open>An admitted creation, with the counter corrected.\<close>

lemma create_corrected:
  assumes inv: "kernel_inv k" and c: "process_create_user_process rq k = Some (Inr (c, k'))" and ok: "admits rq k"
    and slot: "process_list_get_inactive_index k \<noteq> None"
  obtains n where "proc_inv (with_count n k)" "admits rq (with_count n k)"
    "process_create_user_process rq (with_count n k) = Some (Inr (c, with_count (n + 1) k'))"
proof -
  obtain n where n: "proc_inv (with_count n k)" by (rule kernel_invE [OF inv])
  obtain p where p: "process_list_get_inactive_index k = Some p" using slot by (elim option.exhaust_sel [THEN notE] | auto)+
  then have "p < 16" "\<not> process_list_used k ! p"
    by (auto simp: process_list_get_inactive_index_def find_upt_Some simp del: upt.simps)
  then have "count_used (process_list_used k) \<noteq> 16"
    using count_used_full [of "process_list_used k"] kernel_inv_lengths [OF inv] by metis
  moreover have "count_used (process_list_used k) \<le> 16" using count_used_le [of "process_list_used k"] kernel_inv_lengths [OF inv] by simp
  ultimately have lt: "\<not> 16 \<le> n" using count_u32 [OF proc_invD(2) [OF n]] by (simp add: word_le_nat_alt)
  have "process_create_user_process rq (with_count n k) = Some (Inr (c, with_count (n + 1) k'))"
    using create_with_count [OF lt ok] c by simp
  moreover have "admits rq (with_count n k)" using ok lt by (simp add: admits_iff)
  ultimately show thesis using that n by blast
qed

lemma create_keeps:
  assumes inv: "kernel_inv k" and c: "process_create_user_process rq k = Some (Inr (c, k'))"
  shows "kernel_inv k'"
proof (cases rule: create_cases [OF c])
  case 1
  then show ?thesis using inv by simp
next
  case 2
  obtain n where n: "proc_inv (with_count n k)" "admits rq (with_count n k)"
    "process_create_user_process rq (with_count n k) = Some (Inr (c, with_count (n + 1) k'))"
    by (rule create_corrected [OF inv c 2])
  obtain p i code m where p: "p < 16" "\<not> process_list_used (with_count n k) ! p"
    and i: "i < 32" "\<not> page_directory_used (paging_state (with_count n k)) ! i"
    and "process_list_get_inactive_index (with_count n k) = Some p"
    and "read (paged_store (get_pd (claimed_pg rq i (paging_state (with_count n k))) (UserPD i))) (filesystem (with_count n k)) rq
        (Some (phys (with_count n k))) = Some (Inr (code, Some m))"
    and e: "(c, with_count (n + 1) k') = (if code \<noteq> 0 then (4, loaded rq p i m (with_count n k))
      else (0, upd_pcb p (init_pcb rq p) (loaded rq p i m (with_count n k))))"
    by (rule create_result [OF n])
  note li = loaded_inv [OF n(1) p i, of rq m]
  have "proc_inv (with_count (n + 1) k')" using e li by (cases "code = 0") auto
  moreover have "process_list_used (with_count (n + 1) k') = (process_list_used k)[p := True] \<and>
      (\<forall>q. q \<noteq> p \<longrightarrow> process_list (with_count (n + 1) k') ! q = process_list k ! q)"
    using e by (cases "code = 0") (auto simp: upd_pcb_def loaded_def claimed_def)
  ultimately show ?thesis
    using kernel_inv_idle [OF inv] p(1) kernel_inv_lengths [OF inv] unfolding kernel_inv_def
    by (intro conjI exI [where x = "n + 1"]) (auto simp: nth_list_update split: if_splits)
qed

lemma initial_kernel_inv:
  assumes "layout_ok (initial_paging ka la)"
  shows "kernel_inv (initial_kernel (initial_paging ka la) f m)"
proof -
  have "proc_inv (initial_kernel (initial_paging ka la) f m)"
    using initial_inv [OF assms] by (intro initial_proc_inv) (auto simp: initial_paging_def)
  moreover have "with_count (active_process_count k) k = k" for k :: kernel by simp
  ultimately show ?thesis unfolding kernel_inv_def by (metis initial_kernel_def kernel.select_convs(4) nth_replicate zero_pcb_idle(1))
qed

end
