(* ===== verification/Dispatch_Effects.thy ===== *)
theory Dispatch_Effects
  imports Dispatch Process_Runs
begin

text \<open>
  Commands related to their effect by a preorder on states: the interface as a locale, what every system
  call keeps that neither creates nor destroys a process, and the invariant of the process table and the
  page manager over whole runs of interrupts.
\<close>

section \<open>Effects\<close>

definition stays :: "('s \<Rightarrow> 's \<Rightarrow> bool) \<Rightarrow> ('s, 'a) cmd \<Rightarrow> bool" where
  "stays R m \<longleftrightarrow> (\<forall>s x s'. m s = Some (Inr (x, s')) \<longrightarrow> R s s')"

definition yields :: "('s, 'a) cmd \<Rightarrow> ('a \<Rightarrow> bool) \<Rightarrow> bool" where
  "yields m Q \<longleftrightarrow> (\<forall>s x s'. m s = Some (Inr (x, s')) \<longrightarrow> Q x)"

lemma staysD: "stays R m \<Longrightarrow> m s = Some (Inr (x, s')) \<Longrightarrow> R s s'"
  by (auto simp: stays_def)

lemma staysI: "(\<And>s x s'. m s = Some (Inr (x, s')) \<Longrightarrow> R s s') \<Longrightarrow> stays R m"
  by (auto simp: stays_def)

lemma stays_if: "stays R a \<Longrightarrow> stays R b \<Longrightarrow> stays R (if c then a else b)"
  by simp

text \<open>
  The interface: a preorder \<open>R\<close>.  Reading the state is within it, and sequences of commands within it
  stay within it.
\<close>

locale effect =
  fixes R :: "'s \<Rightarrow> 's \<Rightarrow> bool"
  assumes refl: "R s s"
    and trans: "R s t \<Longrightarrow> R t u \<Longrightarrow> R s u"
begin

lemma pure [intro!]: "stays R (return x)" "stays R (gets g)" "stays R (lift r)"
  by (auto simp: stays_def return_def gets_def lift_Inr refl)

lemma bindc [intro]: "stays R m \<Longrightarrow> (\<And>x. stays R (f x)) \<Longrightarrow> stays R (bindc m f)"
  unfolding stays_def bindc_Inr by (metis trans)

lemma bindc_yields: "stays R m \<Longrightarrow> yields m Q \<Longrightarrow> (\<And>x. Q x \<Longrightarrow> stays R (f x)) \<Longrightarrow> stays R (bindc m f)"
  unfolding stays_def yields_def bindc_Inr by (metis trans)

lemma seqc [intro]: "(\<And>c. c \<in> set cs \<Longrightarrow> stays R c) \<Longrightarrow> stays R (seqc cs)"
proof (induction cs)
  case Nil
  then show ?case by (simp add: seqc_def) (rule pure)
next
  case (Cons c cs)
  then show ?case by (simp add: seqc_simps) (rule bindc, simp_all)
qed

lemma modify: "(\<And>s. R s (g s)) \<Longrightarrow> stays R (modify g)"
  by (auto simp: stays_def modify_def)

lemma update: "(\<And>s s'. g s = Inr s' \<Longrightarrow> R s s') \<Longrightarrow> stays R (update g)"
  by (auto simp: stays_def update_Inr)

end

text \<open>The two reads change physical memory only.\<close>

lemma do_read_result:
  assumes "do_read rq s = Some (Inr (x, s'))"
  obtains pd m where "directory_of s = Some pd" and "s' = set_phys m s"
    and "read (user_store pd) (fs_of s) rq (Some (phys (kern s))) = Some (Inr (x, Some m))"
proof -
  obtain pd where "directory_of s = Some pd" using assms by (cases "directory_of s") (simp_all add: do_read_def)
  then show ?thesis
    using assms that by (auto simp: do_read_def simp del: current_directory_def split: option.splits)
qed

lemma do_read_directory_result:
  assumes "do_read_directory rq s = Some (Inr (x, s'))"
  obtains pd m where "directory_of s = Some pd" and "s' = set_phys m s"
    and "read_directory (user_store pd) (fs_of s) rq (Some (phys (kern s))) = (x, Some m)"
proof -
  obtain pd where "directory_of s = Some pd" using assms by (cases "directory_of s") (simp_all add: do_read_directory_def)
  then show ?thesis
    using assms that by (auto simp: do_read_directory_def simp del: current_directory_def split: option.splits prod.splits)
qed

section \<open>The calls that leave the processes alone\<close>

text \<open>The parts of the kernel that only creation, destruction and switching touch, and physical memory.\<close>

definition calm :: "'a system_scheme \<Rightarrow> 'a system_scheme \<Rightarrow> bool" where
  "calm s s' \<longleftrightarrow> phys (kern s') = phys (kern s) \<and> paging_state (kern s') = paging_state (kern s) \<and>
     process_list (kern s') = process_list (kern s) \<and> process_list_used (kern s') = process_list_used (kern s)"

text \<open>
  What a client provides: that calm steps, stores into user memory and the two reads stay within \<open>R\<close>.
\<close>

locale call_effect = effect R for R :: "os \<Rightarrow> os \<Rightarrow> bool" +
  assumes calm: "calm s s' \<Longrightarrow> R s s'"
    and store: "stays R (store_user p bs)"
    and reads: "stays R (do_read rq)" "stays R (do_read_directory rq)"
begin

lemma calm_cmd: "(\<And>s x s'. m s = Some (Inr (x, s')) \<Longrightarrow> calm s s') \<Longrightarrow> stays R m"
  unfolding stays_def using calm by blast

lemma parts [intro!]: "stays R (load_user p n)" "stays R (get_request p)" "stays R (get_puts_args p)"
  "stays R (get_puts_at_args p)" "stays R (get_info_args p)" "stays R (put_info_args p args)"
  "stays R (put_bool p b)" "stays R (put_code p c)"
proof -
  show load: "stays R (load_user p n)" for p n by (rule calm_cmd) (auto simp: load_user_def lift_Inr calm_def)
  show "stays R (get_request p)" "stays R (get_puts_args p)" "stays R (get_puts_at_args p)"
    "stays R (get_info_args p)" "stays R (put_info_args p args)" "stays R (put_bool p b)" "stays R (put_code p c)"
    unfolding get_request_def get_puts_args_def get_puts_at_args_def get_info_args_def put_info_args_def put_bool_def put_code_def
    by (auto intro!: pure bindc seqc load store)
qed

lemma quiet_calls [intro!]: "stays R (do_write rq)" "stays R (sys_delete rq)" "stays R sys_getchar"
  "stays R (sys_puts a)" "stays R (sys_putchar a)" "stays R (sys_puts_at a')"
  "stays R sys_activate_keyboard" "stays R sys_deactivate_keyboard" "stays R (sys_set_keyboard_borders b)"
  "stays R sys_clear_screen" "stays R (sys_set_cursor r c)" "stays R (get_clock_time env)"
  "stays R (sys_get_process_info args)" "stays R (modify (\<lambda>s. set_fs (f s) s))" "stays R (modify (\<lambda>s. s\<lparr> shell_open := o' \<rparr>))"
  by (rule calm_cmd; auto simp: calm_def do_write_def sys_delete_def sys_getchar_def sys_puts_def sys_putchar_def sys_puts_at_def
      sys_activate_keyboard_def sys_deactivate_keyboard_def sys_set_keyboard_borders_def sys_clear_screen_def sys_set_cursor_def
      get_clock_time_def sys_get_process_info_def get_keyboard_buffer_def lift_Inr update_Inr modify_def set_fs_def on_kbd_def split: if_splits)+

lemmas call_parts = pure parts quiet_calls store reads

lemma syscall_stays:
  assumes "reg_eax (frame_cpu frame) \<notin> {19, 20, 27}"
  shows "stays R (syscall env frame)"
proof -
  have f: "stays R (syscall_files eax ebx ecx)" for eax ebx ecx
    unfolding syscall_files_def by (intro bindc) (auto intro!: call_parts split: if_split)
  have c: "stays R (syscall_screen eax ebx ecx)" for eax ebx ecx
    unfolding syscall_screen_def sys_get_keyboard_borders_def sys_keyboard_press_ctrl_def sys_get_cursor_row_def sys_get_cursor_col_def
    by (simp split: if_split) (intro conjI impI; (rule bindc)?; (auto intro!: call_parts bindc)?)
  have "stays R (syscall_system env eax ebx ecx)" if "eax \<notin> {19, 20, 27}" for eax ebx ecx
    using that unfolding syscall_system_def sys_get_max_process_count_def sys_get_is_shell_open_def sys_set_is_shell_open_def
    by (simp split: if_split) (intro conjI impI; (rule bindc)?; (auto intro!: call_parts bindc)?)
  then show ?thesis using assms f c by (simp add: syscall_def Let_def)
qed

end

section \<open>The invariant over runs\<close>

definition keeps_inv :: "os \<Rightarrow> os \<Rightarrow> bool" where
  "keeps_inv s s' \<longleftrightarrow> (kernel_inv (kern s) \<longrightarrow> kernel_inv (kern s'))"

lemma keeps_inv_same:
  assumes "process_list_used (kern s') = process_list_used (kern s)" "process_list (kern s') = process_list (kern s)"
    and "paging_state (kern s') = paging_state (kern s)"
  shows "keeps_inv s s'"
  unfolding keeps_inv_def using kernel_inv_other [OF _ assms(1,2)] assms(3) by simp

lemma keeps_inv_phys: "keeps_inv s (set_phys m s)"
  by (rule keeps_inv_same) (simp_all add: set_phys_def)

interpretation inv: call_effect keeps_inv
proof unfold_locales
  fix s s' p bs rq
  show "calm s s' \<Longrightarrow> keeps_inv s s'" by (rule keeps_inv_same) (simp_all add: calm_def)
  show "stays keeps_inv (store_user p bs)"
    by (rule staysI) (auto simp: store_user_def update_Inr keeps_inv_phys split: option.splits)
  show "stays keeps_inv (do_read rq)" by (rule staysI, erule do_read_result) (simp add: keeps_inv_phys)
  show "stays keeps_inv (do_read_directory rq)" by (rule staysI, erule do_read_directory_result) (simp add: keeps_inv_phys)
qed (auto simp: keeps_inv_def)

lemma process_calls:
  "stays keeps_inv (sys_kill_process junk p)" "stays keeps_inv (sys_terminate_process junk)" "stays keeps_inv (sys_create_process rq)"
proof -
  show kill: "stays keeps_inv (sys_kill_process junk p)" for p
    by (rule staysI) (auto simp: sys_kill_process_def update_Inr keeps_inv_def intro: destroy_keeps)
  show "stays keeps_inv (sys_terminate_process junk)"
    unfolding sys_terminate_process_def by (rule inv.bindc [OF inv.pure(2) kill])
  show "stays keeps_inv (sys_create_process rq)"
    by (rule staysI) (auto simp: sys_create_process_def keeps_inv_def intro: create_keeps)
qed

lemma syscall_keeps: "stays keeps_inv (syscall env frame)"
proof (cases "reg_eax (frame_cpu frame) \<in> {19, 20, 27}")
  case True
  then show ?thesis
    by (auto simp: syscall_def syscall_system_def Let_def intro!: process_calls inv.bindc inv.parts inv.store)
qed (rule inv.syscall_stays)

lemma handler_keeps: "stays keeps_inv (main_interrupt_handler env frame)"
proof -
  have "keeps_inv s s'" if "timer_irq frame s = Some (Inr (ctx, s'))" for ctx and s s' :: os
    using that by (auto simp: timer_irq_def keeps_inv_def send_def Let_def split: sum.splits intro: switch_keeps [OF save_keeps])
  then have "stays keeps_inv (\<lambda>s :: os. map_option (map_sum id (\<lambda>(ctx, s'). (Some ctx, s'))) (timer_irq frame s))"
    by (auto simp: stays_def)
  moreover have "stays keeps_inv (modify (keyboard_irq ch))" for ch
    by (rule inv.modify) (simp add: keyboard_irq_def keeps_inv_def)
  ultimately show ?thesis
    unfolding main_interrupt_handler_def by (auto intro!: inv.bindc inv.pure syscall_keeps split: if_split)
qed

section \<open>Runs of the machine\<close>

text \<open>Between two interrupts the running program may change memory at will.\<close>

inductive interrupts :: "os \<Rightarrow> os \<Rightarrow> bool" where
  start: "interrupts s s"
| program: "interrupts s t \<Longrightarrow> interrupts s (set_phys m t)"
| interrupt: "interrupts s t \<Longrightarrow> main_interrupt_handler env frame t = Some (Inr (r, u)) \<Longrightarrow> interrupts s u"

lemma interrupts_keep: "interrupts s t \<Longrightarrow> kernel_inv (kern s) \<Longrightarrow> kernel_inv (kern t)"
proof (induction rule: interrupts.induct)
  case (program s t m)
  then show ?case using keeps_inv_phys [of t m] by (simp add: keeps_inv_def)
next
  case (interrupt s t env frame r u)
  then show ?case using staysD [OF handler_keeps interrupt.hyps(2)] by (simp add: keeps_inv_def)
qed simp


definition demo_os :: os where
  "demo_os = \<lparr> kern = demo_kernel, display = \<lparr> kbd = keyboard_state, screen = (\<lambda>_. 0), ports = [] \<rparr>, shell_open = False, clock_reads = 0 \<rparr>"

definition demo_environment :: environment where
  "demo_environment = \<lparr> scancode = 0x1E, chip = (\<lambda>n r. 0), junk_flags = (\<lambda>_. zero_flag) \<rparr>"

definition call_frame :: "u32 \<Rightarrow> u32 \<Rightarrow> u32 \<Rightarrow> InterruptFrame" where
  "call_frame eax ebx ecx = \<lparr> frame_cpu = zero_cpu\<lparr> reg_eax := eax, reg_ebx := ebx, reg_ecx := ecx \<rparr>, int_number = 0x30,
     int_stack = \<lparr> is_error_code = 0, is_eip = 0, is_cs = 0x1B, is_eflags = 0x202 \<rparr> \<rparr>"

lemma demo_call: "main_interrupt_handler env (call_frame 8 0 0) s = Some (Inr (None, s\<lparr> display := keyboard_state_activate (display s) \<rparr>))"
  by (simp add: main_interrupt_handler_def call_frame_def syscall_def syscall_screen_def sys_activate_keyboard_def cmd Let_def)


end
