(* ===== verification/Dispatch_Props.thy ===== *)
theory Dispatch_Props
  imports Dispatch_Effects
begin

text \<open>
  Properties of the dispatch: system calls of one process leave the memory of the others alone, what the
  exit stub of the user programs calls, and what a process is left with that terminates itself.
\<close>

section \<open>Confinement\<close>

text \<open>The physical addresses a directory gives to the user's half of the address space.\<close>

definition reached :: "page_directory \<Rightarrow> u32 set" where
  "reached pd = {a. \<exists>va < KERNEL_VIRTUAL_ADDRESS_BASE. translate pd va = Some a}"

definition confined :: "os \<Rightarrow> os \<Rightarrow> bool" where
  "confined s s' \<longleftrightarrow> directory_of s' = directory_of s \<and>
     (\<forall>x. phys (kern s') x \<noteq> phys (kern s) x \<longrightarrow> (\<exists>pd. directory_of s = Some pd \<and> x \<in> reached pd))"

text \<open>Stores go where the directory leads; the bound keeps them in the user's half.\<close>

lemma paged_store_mapped:
  assumes "paged_store pd p bs (Some m) = Some m'" "m' x \<noteq> m x"
  shows "\<exists>va. translate pd va = Some x \<and> (unat p + length bs \<le> 0xC0000000 \<longrightarrow> va < KERNEL_VIRTUAL_ADDRESS_BASE)"
  using assms
proof (induction bs arbitrary: p m)
  case (Cons b bs)
  obtain a where a: "translate pd p = Some a" "paged_store pd (p + 1) bs (Some (m(a := b))) = Some m'"
    using Cons.prems(1) by (cases "translate pd p") simp_all
  show ?case
  proof (cases "x = a")
    case True
    have "unat p + length (b # bs) \<le> 0xC0000000 \<longrightarrow> p < 0xC0000000" by (simp add: word_less_nat_alt)
    then show ?thesis using a(1) True by (intro exI [where x = p]) simp
  next
    case False
    have "unat p + length (b # bs) \<le> 0xC0000000 \<Longrightarrow> unat (p + 1) = unat p + 1" using unat_add_lem [of p 1] by simp
    then show ?thesis using Cons.IH [OF a(2)] Cons.prems False by fastforce
  qed
qed simp

lemma user_store_reached: "user_store pd p bs (Some m) = Some m' \<Longrightarrow> m' x \<noteq> m x \<Longrightarrow> x \<in> reached pd"
  by (fastforce simp: user_store_def reached_def dest: paged_store_mapped split: if_splits)

lemma user_store_None [simp]: "user_store pd p bs None = None"
  by (cases bs) (simp_all add: user_store_def)

lemma paged_store_None [simp]: "paged_store pd p bs None = None"
  by (cases bs) simp_all

text \<open>A read stores only where its store function does.\<close>

lemma read_chain_stores:
  assumes "read_chain st f b c n mo = Some r" and "r = Inr (Some m')"
    and st: "\<And>p bs m m'. st p bs (Some m) = Some m' \<Longrightarrow> m' x \<noteq> m x \<Longrightarrow> A" "\<And>p bs. st p bs None = None"
  shows "\<exists>m. mo = Some m \<and> (m' x \<noteq> m x \<longrightarrow> A)"
proof -
  let ?P = "\<lambda>st' f b c n mo r. st' = st \<longrightarrow> (\<forall>m'. r = Inr (Some m') \<longrightarrow> (\<exists>m. mo = Some m \<and> (m' x \<noteq> m x \<longrightarrow> A)))"
  have "?P st f b c n mo r"
  proof (rule read_chain.raw_induct [OF _ assms(1), of ?P], goal_cases)
    case (1 g st' f b c n mo r)
    show ?case
    proof (intro impI allI)
      fix m' assume st': "st' = st" and r: "r = Inr (Some m')"
      show "\<exists>m. mo = Some m \<and> (m' x \<noteq> m x \<longrightarrow> A)"
      proof (cases "c = FAT32_FAT_END_OF_FILE")
        case True
        then show ?thesis using 1(2) r by simp
      next
        case False
        then obtain m1 where m1: "st (b + n * 2048) (read_clusters (storage f) c 1) mo = Some m1" "m' x \<noteq> m1 x \<longrightarrow> A"
          using 1 st' r by (force split: if_splits)
        then obtain m where "mo = Some m" using st(2) by (cases mo) auto
        then show ?thesis using m1 st(1) by metis
      qed
    qed
  qed
  then show ?thesis using assms(2) by blast
qed

lemma read_stores:
  assumes "read st f rq (Some m) = Some (Inr (code, Some m'))" "m' x \<noteq> m x"
    and "\<And>p bs m m'. st p bs (Some m) = Some m' \<Longrightarrow> m' x \<noteq> m x \<Longrightarrow> A" "\<And>p bs. st p bs None = None"
  shows A
proof -
  from assms(1,2) obtain c where "read_chain st f (rq_buf rq) c 0 (Some m) = Some (Inr (Some m'))"
    by (fastforce simp: read_def split: if_splits option.splits)
  then have "\<exists>ma. Some m = Some ma \<and> (m' x \<noteq> ma x \<longrightarrow> A)"
    by (rule read_chain_stores [OF _ refl]) (fact assms(3,4))+
  then show ?thesis using assms(2) by blast
qed

lemma read_reached:
  assumes "read (user_store pd) f rq (Some m) = Some (Inr (code, Some m'))" "m' x \<noteq> m x"
  shows "x \<in> reached pd"
  by (rule read_stores [OF assms user_store_reached user_store_None])

interpretation conf: call_effect confined
proof unfold_locales
  fix s s' t p bs rq
  show "confined s s" by (simp add: confined_def)
  show "confined s s' \<Longrightarrow> confined s' t \<Longrightarrow> confined s t" by (auto simp: confined_def) metis
  show "calm s s' \<Longrightarrow> confined s s'" by (auto simp: confined_def calm_def)
  show "stays confined (store_user p bs)"
    by (rule staysI) (auto simp: store_user_def update_Inr confined_def set_phys_def dest: user_store_reached split: option.splits)
  show "stays confined (do_read rq)"
    by (rule staysI, erule do_read_result) (auto simp: confined_def set_phys_def dest: read_reached)
  show "stays confined (do_read_directory rq)"
    by (rule staysI, erule do_read_directory_result)
      (auto simp: read_directory_def confined_def set_phys_def Let_def dest: user_store_reached split: option.splits if_splits)
qed

text \<open>Memory changes only where the directory in use leads, in every interrupt except the creation of a process.\<close>

lemma destroy_phys: "process_destroy junk p k = Inr (r, k') \<Longrightarrow> phys k' = phys k"
  by (auto simp: process_destroy_def Let_def split: if_splits)

lemma handler_memory:
  assumes h: "main_interrupt_handler env frame s = Some (Inr (r, s'))"
    and n: "\<not> (int_number frame = 0x30 \<and> reg_eax (frame_cpu frame) = 20)"
    and x: "phys (kern s') x \<noteq> phys (kern s) x"
  shows "\<exists>pd. directory_of s = Some pd \<and> x \<in> reached pd"
proof -
  have timer: "phys (kern s') = phys (kern s)" if "timer_irq frame s = Some (Inr (ctx, s'))" for ctx
    using that by (auto simp: timer_irq_def scheduler_save_context_to_current_running_pcb_def scheduler_switch_to_next_process_def
        send_def upd_pcb_def Let_def split: sum.splits option.splits if_splits)
  have sc: "syscall env frame s = Some (Inr ((), s'))" and i: "int_number frame = 0x30"
    using h x timer by (auto simp: main_interrupt_handler_def bindc_Inr return_def modify_def keyboard_irq_def split: if_splits)
  show ?thesis
  proof (cases "reg_eax (frame_cpu frame) \<in> {19, 27}")
    case True
    then have "phys (kern s') = phys (kern s)" using sc
      by (auto simp: syscall_def syscall_system_def sys_terminate_process_def sys_kill_process_def bindc_Inr gets_def update_Inr Let_def
          destroy_phys)
    then show ?thesis using x by simp
  next
    case False
    then have "confined s s'" using n i staysD [OF conf.syscall_stays sc] by simp
    then show ?thesis using x by (simp add: confined_def)
  qed
qed

text \<open>No directory leads to a frame that another one names.\<close>

lemma not_reached:
  assumes inv: "paging_inv pg" and d: "pd_valid d" "pd_valid d'" "d \<noteq> d'"
    and f: "frame_at pg d' (page_index va) \<noteq> 0" "page_index x = frame_at pg d' (page_index va)"
  shows "translate (get_pd pg d) va' \<noteq> Some x"
proof
  assume "translate (get_pd pg d) va' = Some x"
  then have "frame_at pg d' (page_index va) = frame_at pg d (page_index va')"
    using translate_frame(1) f(2) by (simp add: frame_at_def)
  then show False
    using ownedD(3) [OF paging_invD(4) [OF inv] d(2) page_index_less f(1) d(1), of "page_index va'"] d(3) page_index_less by blast
qed

text \<open>
  The creation of a process, whether it succeeds or not, stores only into its new directory's frames,
  and leaves the directory in use and the frames of the others in place.
\<close>

lemma create_memory:
  assumes inv: "kernel_inv k" and c: "process_create_user_process rq k = Some (Inr (c, k'))"
    and cur: "pd_deref (paging_state k) (cr3 (paging_state k) + KERNEL_VIRTUAL_ADDRESS_BASE) = Some d"
    and other: "pd_valid d'" "\<And>i. d' = UserPD i \<Longrightarrow> page_directory_used (paging_state k) ! i"
      "frame_at (paging_state k) d' (page_index va) \<noteq> 0" "page_index x = frame_at (paging_state k) d' (page_index va)"
  shows "phys k' x = phys k x \<and> frame_at (paging_state k') d' (page_index va) = frame_at (paging_state k) d' (page_index va) \<and>
    pd_deref (paging_state k') (cr3 (paging_state k') + KERNEL_VIRTUAL_ADDRESS_BASE) = Some d"
proof (cases rule: create_cases [OF c])
  case 1
  then show ?thesis using cur by simp
next
  case 2
  obtain n where n: "proc_inv (with_count n k)" "admits rq (with_count n k)"
    "process_create_user_process rq (with_count n k) = Some (Inr (c, with_count (n + 1) k'))"
    by (rule create_corrected [OF inv c 2])
  obtain p i code m where i: "i < 32" "\<not> page_directory_used (paging_state (with_count n k)) ! i"
    and "p < 16" "\<not> process_list_used (with_count n k) ! p" "process_list_get_inactive_index (with_count n k) = Some p"
    and r: "read (paged_store (get_pd (claimed_pg rq i (paging_state (with_count n k))) (UserPD i))) (filesystem (with_count n k)) rq
        (Some (phys (with_count n k))) = Some (Inr (code, Some m))"
    and e: "(c, with_count (n + 1) k') = (if code \<noteq> 0 then (4, loaded rq p i m (with_count n k))
      else (0, upd_pcb p (init_pcb rq p) (loaded rq p i m (with_count n k))))"
    by (rule create_result [OF n])
  let ?pg = "paging_state k" and ?new = "claimed_pg rq i (paging_state k)"
  have pinv: "paging_inv ?pg" by (rule kernel_inv_paging [OF inv])
  note pf = claimed_pg_facts [OF pinv i(1), where rq = rq]
  have "with_count (n + 1) k' = loaded rq p i m (with_count n k) \<or>
      with_count (n + 1) k' = upd_pcb p (init_pcb rq p) (loaded rq p i m (with_count n k))"
    using e by (auto split: if_splits)
  moreover have "phys (loaded rq p i m (with_count n k)) = m"
    "phys (upd_pcb p (init_pcb rq p) (loaded rq p i m (with_count n k))) = m"
    "paging_state (loaded rq p i m (with_count n k)) = paging_use_page_directory (cr3 ?pg + KERNEL_VIRTUAL_ADDRESS_BASE) ?new"
    "paging_state (upd_pcb p (init_pcb rq p) (loaded rq p i m (with_count n k))) =
       paging_use_page_directory (cr3 ?pg + KERNEL_VIRTUAL_ADDRESS_BASE) ?new"
    by (simp_all add: loaded_def upd_pcb_def)
  ultimately have "phys (with_count (n + 1) k') = m"
    "paging_state (with_count (n + 1) k') = paging_use_page_directory (cr3 ?pg + KERNEL_VIRTUAL_ADDRESS_BASE) ?new"
    by metis+
  then have k': "phys k' = m" "paging_state k' = paging_use_page_directory (cr3 ?pg + KERNEL_VIRTUAL_ADDRESS_BASE) ?new" by simp_all
  have ne: "UserPD i \<noteq> d'" using i(2) other(2) by auto
  then have fr: "frame_at ?new d' (page_index va) = frame_at ?pg d' (page_index va)" using pf(2) by simp
  have "m x = phys k x"
  proof (rule ccontr)
    assume x: "m x \<noteq> phys k x"
    have "\<exists>va'. translate (get_pd ?new (UserPD i)) va' = Some x"
      using r x by (elim read_stores) (auto dest: paged_store_mapped)
    then show False
      using not_reached [OF pf(1) _ other(1) ne, of va x] i(1) other(3,4) fr by auto
  qed
  moreover have "frame_at (paging_state k') d' (page_index va) = frame_at ?pg d' (page_index va)"
    using fr by (simp add: k'(2) frame_at_def paging_use_page_directory_def)
  moreover have "pd_deref (paging_state k') (cr3 (paging_state k') + KERNEL_VIRTUAL_ADDRESS_BASE) = Some d"
  proof -
    have a: "cr3 ?pg + KERNEL_VIRTUAL_ADDRESS_BASE = pd_addr ?pg d" "pd_valid d" using pd_deref_valid [OF cur] by auto
    then have "KERNEL_VIRTUAL_ADDRESS_BASE < pd_addr ?pg d"
      using user_pd_addr_high [OF paging_invD(1) [OF pinv]] paging_invD(1) [OF pinv] by (cases d) (auto simp: pd_addr_def layout_ok_def)
    then have "cr3 (paging_state k') + KERNEL_VIRTUAL_ADDRESS_BASE = pd_addr ?pg d"
      unfolding k'(2) a(1) by (simp add: paging_use_page_directory_def)
    moreover have "pd_addr ?new d = pd_addr ?pg d" using pf(5,6) by (simp add: pd_addr_def split: pd_id.split)
    moreover have "pd_deref ?new (pd_addr ?new d) = Some d" by (rule pd_deref_addr [OF paging_invD(1) [OF pf(1)] a(2)])
    ultimately show ?thesis by (simp add: k'(2) paging_use_page_directory_def pd_deref_cr3)
  qed
  ultimately show ?thesis using k'(1) by simp
qed

lemma create_call_memory:
  assumes h: "syscall env frame s = Some (Inr ((), s'))" and n: "reg_eax (frame_cpu frame) = 20" and inv: "kernel_inv (kern s)"
    and cur: "pd_deref (paging_state (kern s)) (cr3 (paging_state (kern s)) + KERNEL_VIRTUAL_ADDRESS_BASE) = Some d"
    and other: "pd_valid d'" "d' \<noteq> d" "\<And>i. d' = UserPD i \<Longrightarrow> page_directory_used (paging_state (kern s)) ! i"
      "frame_at (paging_state (kern s)) d' (page_index va) \<noteq> 0" "page_index x = frame_at (paging_state (kern s)) d' (page_index va)"
  shows "phys (kern s') x = phys (kern s) x"
proof -
  have same: "s1 = s" if "get_request p s = Some (Inr (rq, s1))" for p rq s1
    using that by (auto simp: get_request_def load_user_def bindc_Inr lift_Inr return_def)
  obtain rq code s1 where c: "sys_create_process rq s = Some (Inr (code, s1))"
    and st: "store_user (reg_ecx (frame_cpu frame)) (le32 (word_of_int code)) s1 = Some (Inr ((), s'))"
    using h n by (auto simp: syscall_def syscall_system_def Let_def bindc_Inr dest!: same)
  have k: "process_create_user_process rq (kern s) = Some (Inr (code, kern s1))"
    using c by (auto simp: sys_create_process_def)
  note m = create_memory [OF inv k cur other(1,3-5)]
  have inv1: "paging_inv (paging_state (kern s1))" by (rule kernel_inv_paging [OF create_keeps [OF inv k]])
  have d: "directory_of s1 = Some (get_pd (paging_state (kern s1)) d)" using m by (simp add: current_directory_def del: get_pd.simps)
  have "phys (kern s') x = phys (kern s1) x"
  proof (rule ccontr)
    assume "phys (kern s') x \<noteq> phys (kern s1) x"
    then obtain va' where "translate (get_pd (paging_state (kern s1)) d) va' = Some x"
      using staysD [OF conf.store st] d by (auto simp: confined_def reached_def simp del: get_pd.simps)
    then show False
      using not_reached [OF inv1 _ other(1), of d va x va'] pd_deref_valid [OF cur] other(2,4,5) m by auto
  qed
  then show ?thesis using m by simp
qed

text \<open>
  C12: An interrupt that arrives while one process runs never changes the memory of another.  Whenever a
  timer interrupt, a keyboard interrupt or a system call, with any number and arguments, is handled to its
  end, no physical memory is written that a different page directory in use maps to a frame of its own;
  that includes the creation of a process.  The exception is a call that is given a pointer into the
  kernel's half of the address space: the code follows such a pointer into the kernel's own variables
  without a check, and the model, which has no layout for them, stops there with a fault.
\<close>

theorem other_memory_kept:
  assumes h: "main_interrupt_handler env frame s = Some (Inr (r, s'))"
    and inv: "kernel_inv (kern s)"
    and cur: "pd_deref (paging_state (kern s)) (cr3 (paging_state (kern s)) + KERNEL_VIRTUAL_ADDRESS_BASE) = Some d"
    and other: "pd_valid d'" "d' \<noteq> d" "\<And>i. d' = UserPD i \<Longrightarrow> page_directory_used (paging_state (kern s)) ! i"
      "translate (get_pd (paging_state (kern s)) d') va = Some x" "frame_at (paging_state (kern s)) d' (page_index va) \<noteq> 0"
  shows "phys (kern s') x = phys (kern s) x"
proof (cases "int_number frame = 0x30 \<and> reg_eax (frame_cpu frame) = 20")
  case True
  then have "syscall env frame s = Some (Inr ((), s'))"
    using h by (auto simp: main_interrupt_handler_def bindc_Inr return_def)
  then show ?thesis
    using True translate_frame(1) [OF other(4)] other(5)
    by (intro create_call_memory [OF _ _ inv cur other(1-3), of env frame s' va x]) (simp_all add: frame_at_def)
next
  case False
  show ?thesis
  proof (rule ccontr)
    assume "phys (kern s') x \<noteq> phys (kern s) x"
    then obtain va' where "translate (get_pd (paging_state (kern s)) d) va' = Some x"
      using handler_memory [OF h False] cur by (auto simp: current_directory_def reached_def)
    then show False
      using not_reached [OF kernel_inv_paging [OF inv] _ other(1), of d va x va'] pd_deref_valid [OF cur] other(2,5)
        translate_frame(1) [OF other(4)] by (auto simp: frame_at_def)
  qed
qed

section \<open>The exit stub\<close>

text \<open>
  C24: The stub that runs after \<open>main\<close> of a user program puts 18 into \<open>eax\<close> and the program's result into
  \<open>ebx\<close>.  That is not the number of the call that ends a process but the one that reads a cluster: the
  kernel stores a cluster of the disk over the program's memory at the address \<open>ebx\<close>, 0 for a program
  that returns 0, and returns to the program.
\<close>

theorem exit_stub_reads_cluster:
  assumes "int_number frame = 0x30" and "reg_eax (frame_cpu frame) = 18"
    and "directory_of s = Some pd" and "translate pd (reg_ebx (frame_cpu frame)) = Some a"
    and "unat (reg_ebx (frame_cpu frame)) mod 2 ^ 22 + 2048 \<le> 2 ^ 22" and "unat (reg_ebx (frame_cpu frame)) + 2048 \<le> 0xC0000000"
  shows "main_interrupt_handler env frame s = Some (Inr (None,
    set_phys (store_bytes a (read_clusters (storage (fs_of s)) (reg_ecx (frame_cpu frame)) 1) (phys (kern s))) s))"
proof -
  let ?bs = "read_clusters (storage (fs_of s)) (reg_ecx (frame_cpu frame)) 1"
  have "paged_store pd (reg_ebx (frame_cpu frame)) ?bs (Some (phys (kern s))) = Some (store_bytes a ?bs (phys (kern s)))"
    using assms(5) by (intro paged_store_page [OF assms(4)]) simp
  then have "store_user (reg_ebx (frame_cpu frame)) ?bs s = Some (Inr ((), set_phys (store_bytes a ?bs (phys (kern s))) s))"
    using assms(3,6) by (simp add: store_user_def update_def user_store_def)
  then show ?thesis
    using assms(1,2) by (simp add: main_interrupt_handler_def syscall_def syscall_system_def cmd Let_def)
qed

section \<open>Termination\<close>

lemma release_all_cr3: "cr3 (pool.release_all d ps pg) = cr3 pg"
proof -
  have "cr3 (free_pg j d va pg) = cr3 pg" for j va pg by (simp add: free_pg_def freed_def put_entry_def)
  then show ?thesis unfolding pool.release_all_def by (induction ps arbitrary: pg) auto
qed

lemma release_all_kernel_addr: "kernel_pd_addr (pool.release_all d ps pg) = kernel_pd_addr pg"
  unfolding pool.release_all_def by (induction ps arbitrary: pg) auto

text \<open>
  C23: A process that terminates itself is destroyed, but the kernel returns to it, still recorded as the
  running process, in an address space in which nothing is mapped any more, not even the kernel: its page
  directory was cleared while the processor still uses it.
\<close>

theorem terminated_process_resumed:
  assumes inv: "proc_inv (kern s)" and p: "p < 16" "process_list_used (kern s) ! p" "current_running_pid (kern s) = of_nat p"
    and cr3: "cr3 (paging_state (kern s)) = pcb_dir (kern s) p - KERNEL_VIRTUAL_ADDRESS_BASE"
    and frame: "int_number frame = 0x30" "reg_eax (frame_cpu frame) = 19"
  shows "\<exists>s' pd. main_interrupt_handler env frame s = Some (Inr (None, s')) \<and> \<not> process_list_used (kern s') ! p \<and>
    current_running_pid (kern s') = of_nat p \<and> directory_of s' = Some pd \<and> (\<forall>va. translate pd va = None)"
proof -
  let ?k = "kern s"
  obtain i where i: "i < 32" "pcb_dir ?k p = user_pd_addr (paging_state ?k) i"
    using proc_invD(3) [OF inv] p(1,2) unfolding dirs_ok_def by blast
  let ?pg = "destroyed_pg (junk_flags env) (process_list ?k ! p) i (paging_state ?k)"
  note df = destroyed_pg_facts [OF proc_invD(1) [OF inv] i(1), where junk = "junk_flags env" and b = "process_list ?k ! p"]
  let ?s = "s\<lparr> kern := destroyed (junk_flags env) p i ?k \<rparr>"
  have "sys_terminate_process (junk_flags env) s = Some (Inr ((), ?s))"
    using destroy_eq [OF inv p(1) i] by (simp add: sys_terminate_process_def sys_kill_process_def update_def cmd p(3))
  then have h: "main_interrupt_handler env frame s = Some (Inr (None, ?s))"
    using frame by (simp add: main_interrupt_handler_def syscall_def syscall_system_def cmd Let_def)
  have "cr3 ?pg + KERNEL_VIRTUAL_ADDRESS_BASE = pd_addr ?pg (UserPD i)"
    using cr3 by (simp add: destroyed_pg_def put_directory_def release_all_cr3 i(2) pd_addr_def user_pd_addr_def release_all_static)
  then have "directory_of ?s = Some zero_directory"
    using pd_deref_addr [OF paging_invD(1) [OF df(1)], of "UserPD i"] i(1) df(6)
    by (simp add: current_directory_def destroyed_def del: get_pd.simps)
  moreover have "translate zero_directory va = None" for va
    using page_index_less [of va] by (simp add: translate_def zero_directory_def zero_pde_def zero_flag_def)
  moreover have "length (process_list_used ?k) = 16" using proc_invD(2) [OF inv] by (simp add: table_ok_def)
  ultimately show ?thesis using h p by (intro exI [where x = ?s] exI [where x = zero_directory]) (simp add: destroyed_def)
qed

section \<open>Examples\<close>

text \<open>Two processes; the one with the first page directory runs.\<close>

definition shared_os :: os where
  "shared_os = demo_os\<lparr> kern := initial_kernel (paging_use_page_directory (user_pd_addr two_spaces 0) two_spaces) demo_fs (\<lambda>_. 0) \<rparr>"

lemma shared_facts:
  "paging_inv (paging_state (kern shared_os))"
  "pd_deref (paging_state (kern shared_os)) (cr3 (paging_state (kern shared_os)) + KERNEL_VIRTUAL_ADDRESS_BASE) = Some (UserPD 0)"
  "get_pd (paging_state (kern shared_os)) d = get_pd two_spaces d"
  "phys (kern shared_os) = (\<lambda>_. 0)"
proof -
  have inv: "paging_inv two_spaces" using paging_reachable_inv [OF two_spaces_reachable] by blast
  have pg: "paging_state (kern shared_os) = paging_use_page_directory (user_pd_addr two_spaces 0) two_spaces"
    by (simp add: shared_os_def initial_kernel_def)
  show "paging_inv (paging_state (kern shared_os))" unfolding pg using inv by (simp add: use_keeps)
  have high: "KERNEL_VIRTUAL_ADDRESS_BASE < user_pd_addr two_spaces 0" by (rule user_pd_addr_high [OF paging_invD(1) [OF inv]]) simp
  have "pd_deref two_spaces (user_pd_addr two_spaces 0) = Some (UserPD 0)"
    using pd_deref_addr [OF paging_invD(1) [OF inv], of "UserPD 0"] by (simp add: pd_addr_def)
  then show "pd_deref (paging_state (kern shared_os)) (cr3 (paging_state (kern shared_os)) + KERNEL_VIRTUAL_ADDRESS_BASE) = Some (UserPD 0)"
    unfolding pg paging_use_page_directory_def pd_deref_cr3 using high by simp
  show "get_pd (paging_state (kern shared_os)) d = get_pd two_spaces d" unfolding pg by (simp add: paging_use_page_directory_def)
  show "phys (kern shared_os) = (\<lambda>_. 0)" by (simp add: shared_os_def initial_kernel_def)
qed

lemma shared_directory: "directory_of shared_os = Some (get_pd two_spaces (UserPD 0))"
  using shared_facts(2,3) by (simp add: current_directory_def del: get_pd.simps)

lemma shared_page: "translate (get_pd two_spaces (UserPD 0)) 0 = Some 0x400000" "translate (get_pd two_spaces (UserPD 1)) 0 = Some 0x800000"
  using two_spaces_translate by (auto simp: user_translate_def simp del: get_pd.simps split: if_splits)

theorem exit_stub_reads_cluster_witness:
  "main_interrupt_handler demo_environment (call_frame 18 0 2) shared_os = Some (Inr (None,
     set_phys (store_bytes 0x400000 (read_clusters (storage demo_fs) 2 1) (\<lambda>_. 0)) shared_os))"
proof -
  have f: "fs_of shared_os = demo_fs" by (simp add: shared_os_def initial_kernel_def)
  show ?thesis
    using exit_stub_reads_cluster [of "call_frame 18 0 2" shared_os _ "0x400000" demo_environment] shared_directory shared_page(1) shared_facts(4)
    by (simp add: call_frame_def zero_cpu_def f del: get_pd.simps)
qed

text \<open>A kernel with one process, seen from the kernel's own directory.\<close>

lemma claimed_code_frame:
  assumes inv: "paging_inv pg" and i: "i < 32" and f: "lowest_free pg = Some f"
    and ne: "page_index (rq_buf rq) \<noteq> page_index USER_STACK"
  shows "frame_at (claimed_pg rq i pg) (UserPD i) (page_index (rq_buf rq)) = f"
proof -
  let ?pg1 = "paging_use_page_directory (user_pd_addr pg i) (put_directory i True (zero_directory[0x300 := kernel_pde]) pg)"
  have v: "pd_valid (UserPD i)" using i by simp
  have inv1: "paging_inv ?pg1"
    using put_directory_inv [OF inv i] new_directory_entries(1,2) by (simp add: use_keeps)
  have f1: "lowest_free ?pg1 = Some f" using f by (simp add: lowest_free_def paging_use_page_directory_def put_directory_def)
  have "alloc_pg (UserPD i) (rq_buf rq) ?pg1 = allocated f (UserPD i) (rq_buf rq) ?pg1"
    using f1 count_positive [OF paging_invD(3) [OF inv1] f1] by (simp add: alloc_pg_def)
  moreover have "frame_at (claimed_pg rq i pg) (UserPD i) (page_index (rq_buf rq)) =
      frame_at (alloc_pg (UserPD i) (rq_buf rq) ?pg1) (UserPD i) (page_index (rq_buf rq))"
    unfolding claimed_pg_def using ne by (intro pool.allocate_other [OF pool.allocate_inv [OF inv1 v] v]) simp
  moreover have "0 < f" "f < 32" "\<not> page_frame_map ?pg1 ! f" using f1 unfolding lowest_free_Some by auto
  ultimately show ?thesis using allocated_inv(2) [OF inv1 v, of f "rq_buf rq" "UserPD i" "page_index (rq_buf rq)"] by simp
qed

lemma demo_process:
  obtains k' i a where "process_create_user_process exec_note demo_kernel = Some (Inr (0, k'))" "kernel_inv k'" "i < 32"
    "page_directory_used (paging_state k') ! i" "frame_at (paging_state k') (UserPD i) (page_index 0) \<noteq> 0"
    "pd_deref (paging_state k') (cr3 (paging_state k') + KERNEL_VIRTUAL_ADDRESS_BASE) = Some KernelPD"
    "translate (get_pd (paging_state k') (UserPD i)) 0 = Some a"
proof -
  have inv: "kernel_inv demo_kernel"
    using initial_kernel_inv [OF boot_layout [unfolded boot_paging_def]] by (simp add: demo_kernel_def boot_paging_def)
  have pg: "paging_state demo_kernel = boot_paging" by (simp add: demo_kernel_def initial_kernel_def)
  obtain p i a m where c: "process_create_user_process exec_note demo_kernel =
      Some (Inr (0, upd_pcb p (init_pcb exec_note p) (loaded exec_note p i m demo_kernel)))" and i: "i < 32"
    and a: "user_translate (get_pd (claimed_pg exec_note i (paging_state demo_kernel)) (UserPD i)) (rq_buf exec_note) = Some a"
    by (rule create_loads_state [OF demo_inv demo_admits demo_file(1-3) _ _ demo_file(5) _ demo_page]) (use demo_file(4) in auto)
  let ?k = "upd_pcb p (init_pcb exec_note p) (loaded exec_note p i m demo_kernel)"
  have k: "paging_state ?k = paging_use_page_directory (cr3 boot_paging + KERNEL_VIRTUAL_ADDRESS_BASE) (claimed_pg exec_note i boot_paging)"
    by (simp add: upd_pcb_def loaded_def pg)
  note pf = claimed_pg_facts [OF boot_inv i, where rq = exec_note]
  have "page_directory_used (paging_state ?k) ! i"
    using pf(4) i by (simp add: k paging_use_page_directory_def boot_paging_def initial_paging_def)
  moreover have "frame_at (paging_state ?k) (UserPD i) (page_index 0) = 1"
  proof -
    have "rq_buf exec_note = 0" by (simp add: exec_note_def)
    then have "frame_at (claimed_pg exec_note i boot_paging) (UserPD i) (page_index 0) = 1"
      using claimed_code_frame [OF boot_inv i boot_lowest demo_page(2)] by simp
    then show ?thesis by (simp add: k frame_at_def paging_use_page_directory_def)
  qed
  moreover have "pd_deref (paging_state ?k) (cr3 (paging_state ?k) + KERNEL_VIRTUAL_ADDRESS_BASE) = Some KernelPD"
  proof -
    have "cr3 (paging_state ?k) + KERNEL_VIRTUAL_ADDRESS_BASE = pd_addr (claimed_pg exec_note i boot_paging) KernelPD"
      using pf(6) by (simp add: k paging_use_page_directory_def pd_addr_def boot_paging_def initial_paging_def)
    then show ?thesis
      using pd_deref_addr [OF paging_invD(1) [OF pf(1)], of KernelPD] by (simp add: k paging_use_page_directory_def pd_deref_cr3)
  qed
  moreover have "translate (get_pd (paging_state ?k) (UserPD i)) 0 = Some a"
  proof -
    have "get_pd (paging_state ?k) (UserPD i) = get_pd (claimed_pg exec_note i boot_paging) (UserPD i)"
      by (simp add: k paging_use_page_directory_def)
    then show ?thesis using a
      by (auto simp: pg exec_note_def user_translate_def translate_def simp del: get_pd.simps split: if_splits)
  qed
  ultimately show thesis using that [of ?k i a] c create_keeps [OF inv c] i by simp
qed

theorem other_memory_kept_witness:
  "\<exists>s s' x. main_interrupt_handler demo_environment (call_frame 8 0 0) s = Some (Inr (None, s')) \<and>
     0x400000 \<le> x \<and> phys (kern s') x = phys (kern s) x"
proof -
  obtain k' i x where k: "process_create_user_process exec_note demo_kernel = Some (Inr (0, k'))" "kernel_inv k'" "i < 32"
    "page_directory_used (paging_state k') ! i" "frame_at (paging_state k') (UserPD i) (page_index 0) \<noteq> 0"
    "pd_deref (paging_state k') (cr3 (paging_state k') + KERNEL_VIRTUAL_ADDRESS_BASE) = Some KernelPD"
    and x: "translate (get_pd (paging_state k') (UserPD i)) 0 = Some x" by (rule demo_process)
  let ?s = "demo_os\<lparr> kern := k' \<rparr>"
  have h: "main_interrupt_handler demo_environment (call_frame 8 0 0) ?s =
      Some (Inr (None, ?s\<lparr> display := keyboard_state_activate (display ?s) \<rparr>))" by (rule demo_call)
  have "phys (kern (?s\<lparr> display := keyboard_state_activate (display ?s) \<rparr>)) x = phys (kern ?s) x"
    by (rule other_memory_kept [OF h, of KernelPD "UserPD i" 0]) (use k x in \<open>simp_all del: get_pd.simps\<close>)
  moreover have "page_index x \<noteq> 0" using translate_frame(1) [OF x] k(5) by (simp add: frame_at_def)
  then have "0x400000 \<le> x" by (auto simp: page_index_eq word_le_nat_alt)
  ultimately show ?thesis using h by blast
qed

theorem terminated_process_resumed_witness:
  "\<exists>s s' pd. main_interrupt_handler demo_environment (call_frame 19 0 0) s = Some (Inr (None, s')) \<and> current_running_pid (kern s') = 0 \<and>
     directory_of s' = Some pd \<and> translate pd 0xC0000000 = None"
proof -
  obtain k' where k': "process_create_user_process exec_note demo_kernel = Some (Inr (0, k'))" using demo_create by (elim exE)
  note dc = demo_created [OF k']
  let ?k = "k'\<lparr> current_running_pid := 0, paging_state := paging_use_page_directory (pcb_dir k' 0) (paging_state k') \<rparr>"
  have inv: "proc_inv ?k" by (rule proc_inv_cong [OF dc(1)]) (simp_all add: pcb_dir_def)
  obtain i where i: "i < 32" "pcb_dir k' 0 = user_pd_addr (paging_state k') i"
    using proc_invD(3) [OF dc(1)] dc(2) unfolding dirs_ok_def by (metis zero_less_numeral)
  have "KERNEL_VIRTUAL_ADDRESS_BASE < pcb_dir k' 0" unfolding i(2) by (rule user_pd_addr_high [OF paging_invD(1) [OF proc_invD(1) [OF dc(1)]] i(1)])
  then have "cr3 (paging_state (kern (demo_os\<lparr> kern := ?k \<rparr>))) = pcb_dir (kern (demo_os\<lparr> kern := ?k \<rparr>)) 0 - KERNEL_VIRTUAL_ADDRESS_BASE"
    by (simp add: paging_use_page_directory_def pcb_dir_def)
  from terminated_process_resumed [OF _ _ _ _ this, of "call_frame 19 0 0" demo_environment] inv dc(2) show ?thesis
    by (simp add: call_frame_def zero_cpu_def) blast
qed

end
