(* ===== verification/Dispatch_Refine.thy ===== *)
theory Dispatch_Refine
  imports Dispatch_Props
begin

text \<open>
  The programs' view of a file read, a local buffer that the call fills (\<open>sys_read\<close>), is what the kernel
  does: the handler decodes the request from the registers and user memory, and the bytes of the buffer in
  memory and the return code come out as the local call gives them.
\<close>

section \<open>A buffer in memory and as a list\<close>

lemma of_nat_less_inj: "i < 2 ^ 32 \<Longrightarrow> j < 2 ^ 32 \<Longrightarrow> (of_nat i :: u32) = of_nat j \<longleftrightarrow> i = j"
proof -
  assume "i < 2 ^ 32" "j < 2 ^ 32"
  then have "unat (of_nat i :: u32) = i" "unat (of_nat j :: u32) = j" by (intro unat_of_nat_less; simp)+
  then show "(of_nat i :: u32) = of_nat j \<longleftrightarrow> i = j" by metis
qed

lemma load_store_part:
  assumes "off + length bs \<le> n" "n \<le> 2 ^ 32"
  shows "load_bytes a n (store_bytes (a + of_nat off) bs m) = take off (load_bytes a n m) @ bs @ drop (off + length bs) (load_bytes a n m)"
proof (rule nth_equalityI)
  fix i assume "i < length (load_bytes a n (store_bytes (a + of_nat off) bs m))"
  then have i: "i < n" by simp
  show "load_bytes a n (store_bytes (a + of_nat off) bs m) ! i =
      (take off (load_bytes a n m) @ bs @ drop (off + length bs) (load_bytes a n m)) ! i"
  proof (cases "off \<le> i \<and> i < off + length bs")
    case True
    then have "(of_nat i :: u32) - of_nat off = of_nat (i - off)" by simp
    moreover have "unat (of_nat (i - off) :: u32) = i - off" using i assms(2) by (intro unat_of_nat_less) simp
    moreover have "i - off < length bs" using True by arith
    ultimately show ?thesis using True i assms by (simp add: store_bytes_def nth_append)
  next
    case False
    have "a + of_nat i \<noteq> a + of_nat off + of_nat j" if "j < length bs" for j
    proof -
      have "(of_nat i :: u32) \<noteq> of_nat (off + j)" using False that i assms by (subst of_nat_less_inj) auto
      then show ?thesis by (simp add: add.assoc)
    qed
    then have "store_bytes (a + of_nat off) bs m (a + of_nat i) = m (a + of_nat i)" by (intro store_outside) blast
    then show ?thesis using False i assms by (auto simp: nth_append)
  qed
qed (use assms in simp)

lemma local_store:
  assumes pg: "translate pd p = Some a" "unat p mod 2 ^ 22 + n \<le> 2 ^ 22" "unat p + n \<le> 0xC0000000"
    and l: "store_local off bs (Some (load_bytes a n m)) = Some b'" and ne: "bs \<noteq> []"
  shows "\<exists>m'. user_store pd (p + off) bs (Some m) = Some m' \<and> load_bytes a n m' = b'"
proof -
  let ?o = "unat off"
  have o: "?o + length bs \<le> n" and b': "b' = take ?o (load_bytes a n m) @ bs @ drop (?o + length bs) (load_bytes a n m)"
    using l by (auto split: if_splits)
  have lt: "unat p mod 2 ^ 22 + ?o < 2 ^ 22" using pg(2) o ne by (cases bs) auto
  have off: "off = of_nat ?o" by simp
  have t: "translate pd (p + off) = Some (a + off)" using translate_add [OF pg(1) lt] by simp
  have u: "unat (p + off) = unat p + ?o" using within_page(1) [OF lt] by simp
  have "unat (p + off) mod 2 ^ 22 = unat p mod 2 ^ 22 + ?o" unfolding u by (rule mod_plus_small [OF lt])
  then have "paged_store pd (p + off) bs (Some m) = Some (store_bytes (a + off) bs m)"
    using pg(2) o by (intro paged_store_page [OF t]) simp
  moreover have "load_bytes a n (store_bytes (a + off) bs m) = b'"
    using load_store_part [OF o, of a m] pg(2) unfolding b' by simp
  ultimately show ?thesis using u pg(3) o by (simp add: user_store_def)
qed

section \<open>Reading\<close>

text \<open>A buffer that was left stays left.\<close>

lemma read_chain_local:
  assumes "read_chain st f b c k mo = Some r" "st = store_local" "b = 0" "r = Inr (Some b')" "mo = Some (load_bytes a n m)"
    and pg: "translate pd p = Some a" "unat p mod 2 ^ 22 + n \<le> 2 ^ 22" "unat p + n \<le> 0xC0000000"
  shows "\<exists>m'. read_chain (user_store pd) f p c k (Some m) = Some (Inr (Some m')) \<and> load_bytes a n m' = b'"
proof -
  let ?P = "\<lambda>st f (b :: u32) c k mo r. st = store_local \<longrightarrow> b = 0 \<longrightarrow> (\<forall>b'. r = Inr (Some b') \<longrightarrow> mo \<noteq> None \<and>
    (\<forall>m. mo = Some (load_bytes a n m) \<longrightarrow>
      (\<exists>m'. read_chain (user_store pd) f p c k (Some m) = Some (Inr (Some m')) \<and> load_bytes a n m' = b')))"
  have "?P st f b c k mo r"
  proof (rule read_chain.raw_induct [OF _ assms(1), of ?P], goal_cases)
    case (1 g st f b c k mo r)
    let ?bs = "read_clusters (storage f) c 1" and ?c = "cluster_map f ! unat c"
    show ?case
    proof (intro impI allI, goal_cases)
      case st: (1 b')
      show ?case
      proof (cases "c = FAT32_FAT_END_OF_FILE")
        case True
        then show ?thesis using 1(2) st by (subst read_chain.simps) simp
      next
        case False
        then have c: "unat c < 512" and g: "g st f b ?c (k + 1) (st (b + k * 2048) ?bs mo) = Some r"
          using 1(2) st by (simp_all split: if_splits)
        note ih = 1(1) [OF g, rule_format, OF st(1,2,3)]
        then obtain b1 where b1: "store_local (k * 2048) ?bs mo = Some b1" using st by auto
        moreover have "\<exists>m'. read_chain (user_store pd) f p c k (Some m) = Some (Inr (Some m')) \<and> load_bytes a n m' = b'"
          if mo: "mo = Some (load_bytes a n m)" for m
        proof -
          have "?bs \<noteq> []" by (metis length_read_cluster list.size(3) zero_neq_numeral)
          then obtain m1 where m1: "user_store pd (p + k * 2048) ?bs (Some m) = Some m1" "load_bytes a n m1 = b1"
            using local_store [OF pg b1 [unfolded mo]] by blast
          then have "st (b + k * 2048) ?bs mo = Some (load_bytes a n m1)" using b1 st by simp
          then obtain m' where "read_chain (user_store pd) f p ?c (k + 1) (Some m1) = Some (Inr (Some m'))" "load_bytes a n m' = b'"
            using ih by blast
          then show ?thesis using False c m1(1) by (subst read_chain.simps) simp
        qed
        ultimately show ?thesis by (cases mo) auto
      qed
    qed
  qed
  then show ?thesis using assms(2-5) by blast
qed

lemma read_local:
  assumes r: "read store_local f (rq\<lparr> rq_buf := 0 \<rparr>) (Some (load_bytes a n m)) = Some (Inr (code, Some b'))"
    and pg: "translate pd (rq_buf rq) = Some a" "unat (rq_buf rq) mod 2 ^ 22 + n \<le> 2 ^ 22" "unat (rq_buf rq) + n \<le> 0xC0000000"
  shows "\<exists>m'. read (user_store pd) f rq (Some m) = Some (Inr (code, Some m')) \<and> load_bytes a n m' = b'"
proof -
  have e: "entry_matches (rq\<lparr> rq_buf := 0 \<rparr>) = entry_matches rq" by (simp add: fun_eq_iff entry_matches_def)
  show ?thesis
  proof (cases "code = 0")
    case True
    then obtain de where de: "unat (parent_cluster_number rq) < 512" "cluster_map f ! unat (parent_cluster_number rq) = FAT32_FAT_END_OF_FILE"
        "find (entry_matches rq) (table_at f (parent_cluster_number rq)) = Some de" "attribute de \<noteq> 0x10"
        "\<not> buffer_size rq div 2048 < ucast (clusters_needed (filesize de))"
      and c: "read_chain store_local f 0 (entry_cluster de) 0 (Some (load_bytes a n m)) = Some (Inr (Some b'))"
      using r by (auto simp: read_def e split: if_splits option.splits)
    obtain m' where "read_chain (user_store pd) f (rq_buf rq) (entry_cluster de) 0 (Some m) = Some (Inr (Some m'))" "load_bytes a n m' = b'"
      using read_chain_local [OF c refl refl refl refl pg] by blast
    then show ?thesis using de by (simp add: read_def True)
  next
    case False
    then show ?thesis using r by (auto simp: read_def e split: if_splits option.splits)
  qed
qed

section \<open>Writing\<close>

text \<open>Reads of a page of the running process.\<close>

lemma load_from_page:
  assumes "directory_of s = Some pd" "translate pd p = Some a" "unat p mod 2 ^ 22 + n \<le> 2 ^ 22" "unat p + n \<le> 0xC0000000"
  shows "load_from s p n = Inr (load_bytes a n (phys (kern s)))"
  using assms(2-4)
proof (induction n arbitrary: p a)
  case (Suc n)
  have "\<not> 0xC0000000 \<le> p" using Suc.prems(3) by (simp add: word_le_nat_alt)
  then have b: "user_byte s p = Inr (phys (kern s) a)" using assms(1) Suc.prems(1) by (simp add: user_byte_def)
  have c: "load_bytes a (Suc n) m = m a # load_bytes (a + 1) n m" for m
    by (rule nth_equalityI) (auto simp: nth_Cons algebra_simps split: nat.split)
  have "load_from s (p + 1) n = Inr (load_bytes (a + 1) n (phys (kern s)))"
  proof (cases n)
    case (Suc n')
    then have off: "unat p mod 2 ^ 22 + 1 < 2 ^ 22" using Suc.prems(2) by simp
    have "unat (p + 1) mod 2 ^ 22 = unat p mod 2 ^ 22 + 1" "unat (p + 1) = unat p + 1"
      using within_page(1) [OF off] off by (simp_all add: mod_Suc)
    then show ?thesis using translate_add [OF Suc.prems(1) off] Suc.prems(2,3) by (intro Suc.IH) simp_all
  qed (simp add: load_bytes_def)
  then show ?case by (simp add: b c)
qed (simp add: load_bytes_def)

lemma load_from_bytes: "load_from s p n = Inr bs \<Longrightarrow> user_load s p n () = bs"
proof (induction n arbitrary: p bs)
  case (Suc n)
  obtain b bs' where b: "user_byte s p = Inr b" "load_from s (p + 1) n = Inr bs'" "bs = b # bs'" using Suc.prems by auto
  have "user_load s p (Suc n) () = (case user_byte s p of Inr b \<Rightarrow> b | Inl _ \<Rightarrow> 0) # user_load s (p + 1) n ()"
    unfolding user_load_def upt_conv_Cons [OF zero_less_Suc] map_Suc_upt [symmetric]
    by (simp add: algebra_simps del: upt_Suc)
  then show ?case using Suc.IH [OF b(2)] b by simp
qed (simp add: user_load_def)

lemma load_local_part: "unat off + k \<le> n \<Longrightarrow> n \<le> 2 ^ 32 \<Longrightarrow> load_local off k (load_bytes a n m) = load_bytes (a + off) k m"
  by (rule nth_equalityI) (simp_all add: load_local_def add.assoc)

lemma user_load_part:
  assumes "directory_of s = Some pd" and pg: "translate pd p = Some a" "unat p mod 2 ^ 22 + n \<le> 2 ^ 22" "unat p + n \<le> 0xC0000000"
    and off: "unat off + k \<le> n" "0 < k"
  shows "user_load s (p + off) k () = load_bytes (a + off) k (phys (kern s))"
proof (rule load_from_bytes, rule load_from_page [OF assms(1)])
  have lt: "unat p mod 2 ^ 22 + unat off < 2 ^ 22" using pg(2) off by simp
  have o: "off = of_nat (unat off)" by simp
  show "translate pd (p + off) = Some (a + off)" using translate_add [OF pg(1) lt] by simp
  have u: "unat (p + off) = unat p + unat off" using within_page(1) [OF lt] by simp
  show "unat (p + off) mod 2 ^ 22 + k \<le> 2 ^ 22" unfolding u mod_plus_small [OF lt] using pg(2) off by simp
  show "unat (p + off) + k \<le> 0xC0000000" unfolding u using pg(3) off by simp
qed

lemma write_chain_cong:
  "\<forall>k < length cs. ld (b + of_nat k * 2048) 2048 m = ld' (b' + of_nat k * 2048) 2048 m' \<Longrightarrow>
   write_chain ld m cs b f = write_chain ld' m' cs b' f"
proof (induction cs arbitrary: b b' f)
  case (Cons c cs)
  have "ld b 2048 m = ld' b' 2048 m'" using Cons.prems by (metis add_0_right length_greater_0_conv list.discI mult_zero_left of_nat_0)
  moreover have "\<forall>k < length cs. ld (b + 2048 + of_nat k * 2048) 2048 m = ld' (b' + 2048 + of_nat k * 2048) 2048 m'"
    using Cons.prems by (auto simp: algebra_simps dest: spec [where x = "Suc k" for k])
  ultimately show ?case using Cons.IH by (simp add: write_cluster_step_def)
qed simp

lemma write_local:
  assumes pd: "directory_of s = Some pd" and par: "unat (parent_cluster_number rq) < 512"
    and pg: "translate pd (rq_buf rq) = Some a" "unat (rq_buf rq) mod 2 ^ 22 + n \<le> 2 ^ 22" "unat (rq_buf rq) + n \<le> 0xC0000000"
    and sz: "2048 * unat (clusters_needed (buffer_size rq)) \<le> n"
  shows "write_fat32 (user_load s) () rq f = write_fat32 load_local (load_bytes a n (phys (kern s))) (rq\<lparr> rq_buf := 0 \<rparr>) f"
proof -
  let ?rq = "rq\<lparr> rq_buf := 0 \<rparr>" and ?b = "load_bytes a n (phys (kern s))"
  have e: "entry_matches ?rq = entry_matches rq" by (simp add: fun_eq_iff entry_matches_def)
  have scan: "write_scan ?rq i t slot = write_scan rq i t slot" for i t slot
    by (induction t arbitrary: i slot) (simp_all add: e Let_def)
  have same: "required_clusters ?rq = required_clusters rq" "free_slots ?rq f = free_slots rq f"
    "new_entry ?rq d c = new_entry rq d c" "write_folder ?rq c f = write_folder rq c f" for d c
    by (simp_all add: required_clusters_def free_slots_def new_entry_def write_folder_def)
  have "after_data (user_load s) () rq f = after_data load_local ?b ?rq f"
    if len: "length (free_slots rq f) = unat (required_clusters rq)"
  proof (cases "buffer_size rq = 0")
    case False
    then have l: "2048 * length (free_slots rq f) \<le> n" using len sz by (simp add: required_clusters_def)
    have "user_load s (rq_buf rq + of_nat k * 2048) 2048 () = load_local (0 + of_nat k * 2048) 2048 ?b"
      if "k < length (free_slots rq f)" for k
    proof -
      have "2048 * k < 2 ^ LENGTH(32)" using that l pg(2) by simp
      then have "unat (of_nat (2048 * k) :: u32) = 2048 * k" by (rule unat_of_nat_less)
      then have "unat (of_nat k * 2048 :: u32) + 2048 \<le> n" using that l by (simp add: mult.commute)
      then show ?thesis using user_load_part [OF pd pg] load_local_part pg(2) by simp
    qed
    then show ?thesis using False by (simp add: after_data_def same write_chain_cong)
  qed (simp add: after_data_def same)
  then show ?thesis using par by (auto simp: write_fat32_eq scan same split: option.splits)
qed

section \<open>The call\<close>

definition encode_request :: "FAT32DriverRequest \<Rightarrow> u8 list" where
  "encode_request rq = le32 (rq_buf rq) @ rq_name rq @ rq_ext rq @ le32 (parent_cluster_number rq) @ le32 (buffer_size rq)"

lemma get_request_encoded:
  assumes "load_from s p 23 = Inr (encode_request rq)" "length (rq_name rq) = 8" "length (rq_ext rq) = 3"
  shows "get_request p s = Some (Inr (rq, s))"
proof -
  have l: "length (le32 w) = 4" for w by (simp add: le32_def)
  have w: "field_at (xs @ le32 v @ ys) (length xs) = v" for xs v ys
    using from_le32_le32 [of v "[]"] by (simp add: field_at_def l)
  have w0: "field_at (le32 v @ ys) 0 = v" for v ys using w [of "[]"] by simp
  have "field_at (encode_request rq) 15 = parent_cluster_number rq"
    using w [of "le32 (rq_buf rq) @ rq_name rq @ rq_ext rq" "parent_cluster_number rq" "le32 (buffer_size rq)"] assms(2,3)
    by (simp add: encode_request_def l)
  moreover have "field_at (encode_request rq) 19 = buffer_size rq"
    using w [of "le32 (rq_buf rq) @ rq_name rq @ rq_ext rq @ le32 (parent_cluster_number rq)" "buffer_size rq" "[]"] assms(2,3)
    by (simp add: encode_request_def l)
  moreover have "field_at (encode_request rq) 0 = rq_buf rq" by (simp add: encode_request_def w0)
  moreover have "take 8 (drop 4 (encode_request rq)) = rq_name rq" "take 3 (drop 12 (encode_request rq)) = rq_ext rq"
    using assms(2,3) by (simp_all add: encode_request_def l)
  ultimately show ?thesis
    using assms(1) by (simp add: get_request_def load_user_def cmd)
qed

lemma set_fs_memory [simp]: "phys (kern (set_fs f s)) = phys (kern s)" "directory_of (set_fs f s) = directory_of s"
  by (simp_all add: set_fs_def)

lemma set_phys_simps [simp]: "phys (kern (set_phys m s)) = m" "directory_of (set_phys m s) = directory_of s" "set_phys m (set_phys m' s) = set_phys m s"
  by (simp_all add: set_phys_def)

text \<open>
  C13: Reading a file through the system call, with the request in user memory, does to the buffer in
  memory what the programs' model of the call (\<open>sys_read\<close>, on a local buffer of the same bytes) does to
  its buffer, and leaves the same return code, as a signed byte, where \<open>ecx\<close> points; nothing else of the
  kernel's state changes.
\<close>

theorem read_call_refines:
  assumes frame: "int_number frame = 0x30" "reg_eax (frame_cpu frame) = 0"
    and pd: "directory_of s = Some pd"
    and rq: "load_from s (reg_ebx (frame_cpu frame)) 23 = Inr (encode_request rq)" "length (rq_name rq) = 8" "length (rq_ext rq) = 3"
    and pg: "translate pd (rq_buf rq) = Some a" "unat (rq_buf rq) mod 2 ^ 22 + n \<le> 2 ^ 22" "unat (rq_buf rq) + n \<le> 0xC0000000"
    and code: "translate pd (reg_ecx (frame_cpu frame)) = Some c" "reg_ecx (frame_cpu frame) < 0xC0000000" "\<forall>i < n. c \<noteq> a + of_nat i"
    and prog: "sys_read (rq\<lparr> rq_buf := 0 \<rparr>) (load_bytes a n (phys (kern s))) s = Some (Inr ((retcode, b'), s'))"
  shows "\<exists>m. main_interrupt_handler env frame s = Some (Inr (None, set_phys m s)) \<and> s' = s \<and>
    load_bytes a n m = b' \<and> m c = word_of_int retcode"
proof -
  have r: "read store_local (fs_of s) (rq\<lparr> rq_buf := 0 \<rparr>) (Some (load_bytes a n (phys (kern s)))) = Some (Inr (retcode, Some b'))"
    and s': "s' = s" using prog by (auto simp: sys_read_def split: option.splits)
  obtain m' where m': "read (user_store pd) (fs_of s) rq (Some (phys (kern s))) = Some (Inr (retcode, Some m'))" "load_bytes a n m' = b'"
    using read_local [OF r pg] by blast
  let ?m = "m'(c := word_of_int retcode)"
  have "unat (reg_ecx (frame_cpu frame)) < 0xC0000000" using code(2) by (simp add: word_less_nat_alt)
  then have "put_code (reg_ecx (frame_cpu frame)) retcode (set_phys m' s) = Some (Inr ((), set_phys ?m s))"
    using code(1) pd by (simp add: put_code_def store_user_def update_def user_store_def)
  moreover have "do_read rq s = Some (Inr (retcode, set_phys m' s))" using m'(1) pd by (simp add: do_read_def)
  ultimately have "syscall env frame s = Some (Inr ((), set_phys ?m s))"
    using frame get_request_encoded [OF rq] by (simp add: syscall_def syscall_files_def cmd Let_def)
  then have "main_interrupt_handler env frame s = Some (Inr (None, set_phys ?m s))"
    using frame by (simp add: main_interrupt_handler_def cmd)
  moreover have "load_bytes a n ?m = b'" using code(3) unfolding m'(2) [symmetric] by (intro nth_equalityI) auto
  ultimately show ?thesis using s' by auto
qed

text \<open>
  C14: Writing a file through the system call, with the request and the bytes in user memory, does to the
  filesystem what the programs' model of the call (\<open>sys_write\<close>, from a local buffer of the same bytes)
  does, and leaves the same return code where \<open>ecx\<close> points; the rest of memory and of the kernel's state
  is as the model of the call leaves it.
\<close>

theorem write_call_refines:
  assumes frame: "int_number frame = 0x30" "reg_eax (frame_cpu frame) = 2"
    and pd: "directory_of s = Some pd"
    and rq: "load_from s (reg_ebx (frame_cpu frame)) 23 = Inr (encode_request rq)" "length (rq_name rq) = 8" "length (rq_ext rq) = 3"
    and pg: "translate pd (rq_buf rq) = Some a" "unat (rq_buf rq) mod 2 ^ 22 + n \<le> 2 ^ 22" "unat (rq_buf rq) + n \<le> 0xC0000000"
    and sz: "2048 * unat (clusters_needed (buffer_size rq)) \<le> n"
    and code: "translate pd (reg_ecx (frame_cpu frame)) = Some c" "reg_ecx (frame_cpu frame) < 0xC0000000"
    and prog: "sys_write (rq\<lparr> rq_buf := 0 \<rparr>) (load_bytes a n (phys (kern s))) s = Some (Inr (retcode, s'))"
  shows "main_interrupt_handler env frame s =
    Some (Inr (None, set_phys ((phys (kern s))(c := word_of_int retcode)) s'))"
proof -
  obtain f where f: "write_fat32 load_local (load_bytes a n (phys (kern s))) (rq\<lparr> rq_buf := 0 \<rparr>) (fs_of s) = Inr (retcode, f)"
    and s': "s' = set_fs f s" using prog by (auto simp: sys_write_def)
  have "unat (parent_cluster_number rq) < 512" using f by (auto simp: write_fat32_def split: if_splits)
  then have "write_fat32 (user_load s) () rq (fs_of s) = Inr (retcode, f)" using write_local [OF pd _ pg sz] f by simp
  moreover have "load_from s (rq_buf rq) (2048 * unat (clusters_needed (buffer_size rq))) =
      Inr (load_bytes a (2048 * unat (clusters_needed (buffer_size rq))) (phys (kern s)))"
    using pg sz by (intro load_from_page [OF pd pg(1)]) simp_all
  ultimately have "do_write rq s = Some (Inr (retcode, s'))" by (simp add: do_write_def s')
  moreover have "unat (reg_ecx (frame_cpu frame)) < 0xC0000000" using code(2) by (simp add: word_less_nat_alt)
  then have "put_code (reg_ecx (frame_cpu frame)) retcode s' = Some (Inr ((), set_phys ((phys (kern s))(c := word_of_int retcode)) s'))"
    using code(1) pd by (simp add: s' put_code_def store_user_def update_def user_store_def)
  ultimately have "syscall env frame s = Some (Inr ((), set_phys ((phys (kern s))(c := word_of_int retcode)) s'))"
    using frame get_request_encoded [OF rq] by (simp add: syscall_def syscall_files_def cmd Let_def)
  then show ?thesis using frame by (simp add: main_interrupt_handler_def cmd)
qed

section \<open>Example\<close>

lemma local_chain_fits:
  "2048 * (k + length cs) \<le> length b \<Longrightarrow> length b \<le> 2 ^ 31 \<Longrightarrow> \<exists>b'. store_chain store_local d 0 cs (of_nat k) (Some b) = Some b'"
proof (induction cs arbitrary: k b)
  case (Cons c cs)
  have "2048 * k < 2 ^ LENGTH(32)" using Cons.prems by simp
  then have "unat (of_nat (2048 * k) :: u32) = 2048 * k" by (rule unat_of_nat_less)
  then have u: "unat (0 + of_nat k * 2048 :: u32) = 2048 * k" by (simp add: mult.commute)
  then obtain b1 where b1: "store_local (0 + of_nat k * 2048) (read_clusters d c 1) (Some b) = Some b1" "length b1 = length b"
    using Cons.prems(1) by simp
  have "of_nat k + 1 = (of_nat (Suc k) :: u32)" by simp
  then show ?case using b1 Cons.IH [of "Suc k" b1] Cons.prems by (simp only: store_chain.simps) simp
qed simp

lemma first_page: "n < 2 ^ 22 \<Longrightarrow> translate (get_pd two_spaces (UserPD 0)) (0 + of_nat n) = Some (0x400000 + of_nat n)"
  by (rule translate_add [OF shared_page(1)]) simp

lemma request_at_2000:
  assumes "directory_of s = Some (get_pd two_spaces (UserPD 0))" and "phys (kern s) = store_bytes 0x402000 (encode_request rq) m"
    and "length (rq_name rq) = 8" "length (rq_ext rq) = 3"
  shows "load_from s 0x2000 23 = Inr (encode_request rq)"
proof -
  have "length (encode_request rq) = 23" using assms(3,4) by (simp add: encode_request_def le32_def)
  then show ?thesis
    using load_from_page [OF assms(1), of "0x2000" "0x402000" 23] first_page [of "0x2000"]
      load_store_same [of "encode_request rq" "0x402000" m] by (simp add: assms(2) del: get_pd.simps)
qed

text \<open>The running process has a request for its file at 0x2000 and its buffer at 0.\<close>

definition reading_os :: os where
  "reading_os = set_phys (store_bytes 0x402000 (encode_request exec_note) (\<lambda>_. 0)) shared_os"

lemma local_read_exec_note:
  assumes "length b = 8000"
  shows "\<exists>b'. sys_read exec_note b reading_os = Some (Inr ((0, b'), reading_os))"
proof -
  let ?cs = "free_slots (note_txt 5000) fresh_fs"
  have f: "filesystem demo_kernel = demo_fs" "fs_of reading_os = demo_fs"
    by (simp_all add: demo_kernel_def initial_kernel_def reading_os_def set_phys_def shared_os_def)
  note df = demo_file [unfolded f]
  have cs: "?cs = hd ?cs # tl ?cs" using df(6) by (cases ?cs) auto
  obtain b' where b': "store_chain store_local (storage demo_fs) 0 ?cs (of_nat 0) (Some b) = Some b'"
    using local_chain_fits [of 0 ?cs b] df(6) assms by auto
  have "entry_cluster (new_entry (note_txt 5000) False (hd ?cs)) = hd ?cs" by simp
  moreover have "read_chain store_local demo_fs 0 (hd ?cs) 0 (Some b) = Some (Inr (Some b'))"
    using read_chain_ends [where s = demo_fs and c = "hd ?cs" and cs = "tl ?cs" and st = store_local and buf = 0 and k = 0 and m = "Some b"] df(5) cs b' by simp
  ultimately have "read store_local demo_fs exec_note (Some b) = Some (Inr (0, Some b'))"
    using df(1-4) by (simp add: read_def not_le exec_note_def)
  then show ?thesis by (simp add: sys_read_def f)
qed

theorem read_call_refines_witness:
  "\<exists>m b'. main_interrupt_handler demo_environment (call_frame 0 0x2000 0x3000) reading_os = Some (Inr (None, set_phys m reading_os)) \<and>
     sys_read exec_note (load_bytes 0x400000 8000 (phys (kern reading_os))) reading_os = Some (Inr ((0, b'), reading_os)) \<and>
     load_bytes 0x400000 8000 m = b' \<and> m 0x403000 = 0"
proof -
  have pd: "directory_of reading_os = Some (get_pd two_spaces (UserPD 0))" by (simp add: reading_os_def shared_directory del: get_pd.simps)
  have n: "length (rq_name exec_note) = 8" "length (rq_ext exec_note) = 3" by (simp_all add: exec_note_def note_txt_def)
  have rq: "load_from reading_os (reg_ebx (frame_cpu (call_frame 0 0x2000 0x3000))) 23 = Inr (encode_request exec_note)"
    using request_at_2000 [OF pd _ n] by (simp add: call_frame_def reading_os_def)
  have c: "translate (get_pd two_spaces (UserPD 0)) (reg_ecx (frame_cpu (call_frame 0 0x2000 0x3000))) = Some 0x403000"
    using first_page [of "0x3000"] by (simp add: call_frame_def del: get_pd.simps)
  have z: "rq_buf exec_note = 0" "exec_note\<lparr> rq_buf := 0 \<rparr> = exec_note" by (simp_all add: exec_note_def)
  have ap: "\<forall>i < 8000. (0x403000 :: u32) \<noteq> 0x400000 + of_nat i"
  proof (intro allI impI)
    fix i :: nat assume "i < 8000"
    then have "(of_nat 12288 :: u32) \<noteq> of_nat i" by (subst of_nat_less_inj) simp_all
    moreover have "(0x403000 :: u32) = 0x400000 + of_nat 12288" by simp
    ultimately show "(0x403000 :: u32) \<noteq> 0x400000 + of_nat i" by (metis add_left_cancel)
  qed
  obtain b' where b': "sys_read exec_note (load_bytes 0x400000 8000 (phys (kern reading_os))) reading_os = Some (Inr ((0, b'), reading_os))"
    using local_read_exec_note [of "load_bytes 0x400000 8000 (phys (kern reading_os))"] by auto
  have a: "translate (get_pd two_spaces (UserPD 0)) (rq_buf exec_note) = Some 0x400000" using shared_page(1) by (simp add: z)
  obtain m where "main_interrupt_handler demo_environment (call_frame 0 0x2000 0x3000) reading_os = Some (Inr (None, set_phys m reading_os))"
      "load_bytes 0x400000 8000 m = b'" "m 0x403000 = word_of_int 0"
    using read_call_refines [OF _ _ pd rq n a _ _ c _ ap, where b' = b' and retcode = 0] b'
    by (auto simp: z call_frame_def zero_cpu_def)
  then show ?thesis using b' by auto
qed

text \<open>The same request as one to write, on a disk without files.\<close>

definition note_request :: FAT32DriverRequest where
  "note_request = (note_txt 5000)\<lparr> rq_buf := 0 \<rparr>"

definition writing_os :: os where
  "writing_os = set_fs fresh_fs (set_phys (store_bytes 0x402000 (encode_request note_request) (\<lambda>_. 0)) shared_os)"

theorem write_call_refines_witness:
  "\<exists>s'. main_interrupt_handler demo_environment (call_frame 2 0x2000 0x3000) writing_os =
       Some (Inr (None, set_phys ((phys (kern writing_os))(0x403000 := 0)) s')) \<and>
     sys_write note_request (load_bytes 0x400000 8192 (phys (kern writing_os))) writing_os = Some (Inr (0, s'))"
proof -
  have pd: "directory_of writing_os = Some (get_pd two_spaces (UserPD 0))" by (simp add: writing_os_def shared_directory del: get_pd.simps)
  have n: "length (rq_name note_request) = 8" "length (rq_ext note_request) = 3" by (simp_all add: note_request_def note_txt_def)
  have rq: "load_from writing_os (reg_ebx (frame_cpu (call_frame 2 0x2000 0x3000))) 23 = Inr (encode_request note_request)"
    using request_at_2000 [OF pd _ n] by (simp add: call_frame_def writing_os_def)
  have c: "translate (get_pd two_spaces (UserPD 0)) (reg_ecx (frame_cpu (call_frame 2 0x2000 0x3000))) = Some 0x403000"
    using first_page [of "0x3000"] by (simp add: call_frame_def del: get_pd.simps)
  have z: "rq_buf note_request = 0" "note_request\<lparr> rq_buf := 0 \<rparr> = note_request" by (simp_all add: note_request_def)
  have sz: "clusters_needed (buffer_size note_request) = 3"
    using ceil_exact [of 5000 11 2048] by (simp add: note_request_def note_txt_def clusters_needed_def)
  have "required_clusters note_request \<noteq> 0" using note_txt_required by (simp add: note_request_def required_clusters_def)
  then obtain f where "write_fat32 load_local (load_bytes 0x400000 8192 (phys (kern writing_os))) note_request fresh_fs = Inr (0, f)"
    using fresh_accepts [of note_request] n unfolding fresh_fs_def by (force simp: note_request_def note_txt_def numeral_3_eq_3)
  then have w: "sys_write note_request (load_bytes 0x400000 8192 (phys (kern writing_os))) writing_os = Some (Inr (0, set_fs f writing_os))"
    by (simp add: sys_write_def writing_os_def)
  have w': "sys_write (note_request\<lparr> rq_buf := 0 \<rparr>) (load_bytes 0x400000 8192 (phys (kern writing_os))) writing_os =
      Some (Inr (0, set_fs f writing_os))" unfolding z(2) by (rule w)
  have a: "translate (get_pd two_spaces (UserPD 0)) (rq_buf note_request) = Some 0x400000" using shared_page(1) by (simp add: z)
  have "main_interrupt_handler demo_environment (call_frame 2 0x2000 0x3000) writing_os =
      Some (Inr (None, set_phys ((phys (kern writing_os))(0x403000 := word_of_int 0)) (set_fs f writing_os)))"
    using write_call_refines [OF _ _ pd rq n a _ _ _ c _ w'] by (simp add: z sz call_frame_def zero_cpu_def)
  then show ?thesis using w by auto
qed

end
