(* ===== verification/Search.thy ===== *)
theory Search
  imports Fat32_Delete Ustring Command
begin

text \<open>
  The search through the directory tree in \<open>src/src/interrupt.c\<close> (\<open>find_start\<close>, \<open>find\<close> and the two helpers
  they use), which no system call reaches.  A \<open>char\<close> array is the list of its bytes, and a pointer to a
  single \<open>char\<close> a list of one byte; the state of the commands is the caller's buffer \<open>request.buf\<close>.
\<close>

section \<open>Definitions\<close>

text \<open>The first loop copies \<open>dest\<close> onto itself.\<close>

definition memadd :: "u8 list \<Rightarrow> u8 list \<Rightarrow> u32 \<Rightarrow> nat \<Rightarrow> fault + u8 list" where
  "memadd dest src size1 size2 =
     (if length dest < unat size1 + size2 \<or> length src < size2 then Inl OutOfBounds
      else Inr (take (unat size1) dest @ take size2 src @ drop (unat size1 + size2) dest))"

definition append_to_buffer :: "u8 list \<Rightarrow> u8 list \<Rightarrow> fault + u8 list" where
  "append_to_buffer buffer str =
     and_then (strlen buffer) (\<lambda>n. and_then (strlen str) (\<lambda>k.
       if length buffer < unat n + unat k + 1 then Inl OutOfBounds
       else Inr (take (unat n) buffer @ take (unat k) str @ 0 # drop (unat n + unat k + 1) buffer)))"

text \<open>\<open>memadd\<close> at the end of the string that \<open>path\<close> holds.\<close>

definition path_add :: "u8 list \<Rightarrow> nat \<Rightarrow> u8 list \<Rightarrow> fault + u8 list" where
  "path_add src n path = and_then (strlen path) (\<lambda>k. memadd path src k n)"

text \<open>A fresh \<open>TempPath\<close> with a copy of the string.\<close>

definition temp_path :: "u8 list \<Rightarrow> fault + u8 list" where
  "temp_path path = and_then (strlen path) (\<lambda>k.
     if 512 < unat k then Inl OutOfBounds else Inr (take (unat k) path @ replicate (512 - unat k) 0))"

abbreviation (input) slash :: "u8 list" where "slash \<equiv> [0x2F]"
abbreviation (input) newline :: "u8 list" where "newline \<equiv> [0x0A]"

text \<open>The assignment \<open>path[strlen(path)] = 0\<close> changes nothing.\<close>

definition end_path :: "u8 list \<Rightarrow> fault + u8 list" where
  "end_path path = and_then (strlen path) (\<lambda>_. Inr path)"

definition full_path :: "FAT32DirectoryEntry \<Rightarrow> u8 list \<Rightarrow> fault + u8 list" where
  "full_path e path = and_then (path_add slash 1 path) (\<lambda>p. and_then (path_add (de_name e) 8 p) end_path)"

definition file_path :: "FAT32DirectoryEntry \<Rightarrow> u8 list \<Rightarrow> fault + u8 list" where
  "file_path e path =
     and_then (temp_path path) (\<lambda>p. and_then (full_path e p) (\<lambda>p1.
       if de_ext e ! 0 \<noteq> 0 then and_then (path_add [0x2E] 1 p1) (path_add (de_ext e) 3) else Inr p1))"

definition report :: "u8 list \<Rightarrow> (u8 list, unit) cmd" where
  "report path = seqc [update (\<lambda>b. append_to_buffer b path), update (\<lambda>b. append_to_buffer b newline)]"

text \<open>The copy of the buffer onto itself after a recursive call.\<close>

definition recopy :: "u32 \<Rightarrow> (u8 list, unit) cmd" where
  "recopy n = update (\<lambda>b. if length b < unat n then Inl OutOfBounds else Inr b)"

definition enter_path :: "dir_table \<Rightarrow> u8 list \<Rightarrow> fault + u8 list" where
  "enter_path t path = and_then (path_add slash 1 path) (path_add (de_name (t ! 0)) 8)"

definition sub_request :: "FAT32DriverRequest \<Rightarrow> FAT32DirectoryEntry \<Rightarrow> FAT32DriverRequest" where
  "sub_request rq e = rq\<lparr> parent_cluster_number := ucast (cluster_low e) \<rparr>"

text \<open>The loop of \<open>find\<close> over the entries from number 2 on; the recursive call starts it in the child.\<close>

partial_function (option) search_from ::
  "fat32 \<Rightarrow> FAT32DriverRequest \<Rightarrow> u8 list \<Rightarrow> u8 \<Rightarrow> dir_table \<Rightarrow> u8 list \<Rightarrow> (fault + u8 \<times> u8 list) option" where
  "search_from f rq path path_length es b =
     (case es of [] \<Rightarrow> return path_length b
      | e # es' \<Rightarrow>
          if memcmp_bytes (de_name e) (rq_name rq) = 0 then
            if attribute e = ATTR_SUBDIRECTORY
            then bindc (lift (full_path e path)) (\<lambda>p. bindc (report p) (\<lambda>_. return (path_length + 1))) b
            else bindc (lift (file_path e path)) (\<lambda>p. bindc (report p) (\<lambda>_ b1.
                   search_from f rq path (path_length + 1) es' b1)) b
          else if attribute e = ATTR_SUBDIRECTORY \<and> de_name e ! 0 \<noteq> 0 then
            bindc (lift (temp_path path)) (\<lambda>p.
            bindc (lift (enter_path (table_at f (ucast (cluster_low e))) p)) (\<lambda>p1.
            bindc (\<lambda>b1. search_from f (sub_request rq e) p1 0 (drop 2 (table_at f (ucast (cluster_low e)))) b1) (\<lambda>code.
            bindc (recopy (buffer_size rq)) (\<lambda>_ b2. search_from f rq path (path_length + code) es' b2)))) b
          else search_from f rq path path_length es' b)"

definition find_below :: "fat32 \<Rightarrow> FAT32DriverRequest \<Rightarrow> u8 list \<Rightarrow> (u8 list, u8) cmd" where
  "find_below f rq path =
     bindc (lift (enter_path (table_at f (parent_cluster_number rq)) path)) (\<lambda>p.
       search_from f rq p 0 (drop 2 (table_at f (parent_cluster_number rq))))"

definition find_start :: "fat32 \<Rightarrow> FAT32DriverRequest \<Rightarrow> (u8 list, int) cmd" where
  "find_start f rq =
     bindc (find_below f rq (0x2E # replicate 511 0)) (\<lambda>path_length. return (if path_length = 0 then 1 else 0))"

section \<open>What a search returns\<close>

text \<open>Every fault of the string helpers is an access outside an array.\<close>

lemma strlen_fault: "strlen bs = Inl x \<Longrightarrow> x = OutOfBounds"
proof -
  have "strlen_from n cs = Inl x \<Longrightarrow> x = OutOfBounds" for n cs
    by (induction n cs rule: strlen_from.induct) (auto split: if_splits)
  then show "strlen bs = Inl x \<Longrightarrow> x = OutOfBounds" by (simp add: strlen_def)
qed

named_theorems search_faults

lemma and_then_fault:
  "and_then r f = Inl x \<longleftrightarrow> r = Inl x \<or> (\<exists>y. r = Inr y \<and> f y = Inl x)"
  by (cases r) auto

lemma memadd_fault [search_faults]: "memadd d s n k = Inl x \<Longrightarrow> x = OutOfBounds"
  by (auto simp: memadd_def split: if_splits)

lemma append_fault [search_faults]: "append_to_buffer b s = Inl x \<Longrightarrow> x = OutOfBounds"
  unfolding append_to_buffer_def
  by (auto simp: and_then_fault split: if_splits dest: strlen_fault search_faults)

lemma path_add_fault [search_faults]: "path_add s n p = Inl x \<Longrightarrow> x = OutOfBounds"
  unfolding path_add_def by (auto simp: and_then_fault split: if_splits dest: strlen_fault search_faults)

lemma temp_path_fault [search_faults]: "temp_path p = Inl x \<Longrightarrow> x = OutOfBounds"
  unfolding temp_path_def by (auto simp: and_then_fault split: if_splits dest: strlen_fault search_faults)

lemma end_path_fault [search_faults]: "end_path p = Inl x \<Longrightarrow> x = OutOfBounds"
  unfolding end_path_def by (auto simp: and_then_fault split: if_splits dest: strlen_fault search_faults)

lemma full_path_fault [search_faults]: "full_path e p = Inl x \<Longrightarrow> x = OutOfBounds"
  unfolding full_path_def by (auto simp: and_then_fault split: if_splits dest: strlen_fault search_faults)

lemma file_path_fault [search_faults]: "file_path e p = Inl x \<Longrightarrow> x = OutOfBounds"
  unfolding file_path_def by (auto simp: and_then_fault split: if_splits dest: strlen_fault search_faults)

text \<open>A lone character has no terminator, so appending the newline reads past it.\<close>

lemma append_newline: "append_to_buffer b newline = Inl OutOfBounds"
proof (cases "strlen b")
  case (Inl x)
  then show ?thesis by (auto simp: append_to_buffer_def dest: strlen_fault)
next
  case (Inr n)
  then show ?thesis by (simp add: append_to_buffer_def strlen_def)
qed

lemma report_faults: "report p b = Some (Inl OutOfBounds)"
  unfolding report_def
  by (cases "append_to_buffer b p")
     (auto simp: seqc_simps bindc_def update_def append_newline dest: append_fault)

lemma lift_report_faults:
  assumes "\<And>x. r = Inl x \<Longrightarrow> x = OutOfBounds"
  shows "bindc (lift r) (\<lambda>p. bindc (report p) (g p)) b = Some (Inl OutOfBounds)"
  using assms by (cases r) (auto simp: cmd bindc_fault report_faults)

text \<open>In a directory without directories the search faults when some entry has the name, and
  otherwise finds nothing.\<close>

lemma search_from_leaf:
  assumes "\<forall>e \<in> set es. attribute e = ATTR_SUBDIRECTORY \<longrightarrow> memcmp_bytes (de_name e) (rq_name rq) = 0 \<or> de_name e ! 0 = 0"
  shows "search_from f rq p n es b =
     Some (if \<exists>e \<in> set es. memcmp_bytes (de_name e) (rq_name rq) = 0 then Inl OutOfBounds else Inr (n, b))"
  using assms
proof (induction es)
  case Nil
  then show ?case by (simp add: search_from.simps return_def)
next
  case (Cons e es)
  show ?case
  proof (cases "memcmp_bytes (de_name e) (rq_name rq) = 0")
    case True
    then show ?thesis
      by (subst search_from.simps) (simp add: lift_report_faults full_path_fault file_path_fault)
  next
    case False
    then show ?thesis
      using Cons by (subst search_from.simps) auto
  qed
qed

text \<open>Whatever the tree, a search that returns has found nothing and has left the buffer alone.\<close>

lemma search_from_finds_nothing:
  assumes "search_from f rq p n es b = Some r"
  shows "\<forall>m b'. r = Inr (m, b') \<longrightarrow> m = n \<and> b' = b"
proof (rule search_from.raw_induct [OF _ assms, of "\<lambda>f rq p n es b r. \<forall>m b'. r = Inr (m, b') \<longrightarrow> m = n \<and> b' = b"], goal_cases)
  case (1 search f rq p n es b r)
  note IH = 1(1) [THEN spec, THEN spec, THEN mp, OF _ refl]
  show ?case
  proof (cases es)
    case Nil
    then show ?thesis using 1(2) by (auto simp: return_def)
  next
    case (Cons e es')
    show ?thesis
    proof (cases "memcmp_bytes (de_name e) (rq_name rq) = 0")
      case True
      then show ?thesis
        using 1(2) Cons by (auto simp: bindc_Inr report_faults split: if_splits)
    next
      case False
      then show ?thesis
        using 1(2) Cons
        by (auto simp: bindc_Inr lift_Inr recopy_def update_Inr split: if_splits dest!: IH)
    qed
  qed
qed

lemma find_start_finds_nothing:
  assumes "find_start f rq b = Some (Inr (code, b'))"
  shows "code = 1 \<and> b' = b"
proof -
  obtain m where "find_below f rq (0x2E # replicate 511 0) b = Some (Inr (m, b'))"
    and "code = (if m = 0 then 1 else 0)"
    using assms by (auto simp: find_start_def bindc_Inr return_def)
  then show ?thesis
    by (auto simp: find_below_def bindc_Inr lift_Inr dest!: search_from_finds_nothing)
qed

end
