(* ===== verification/Spec2Isabelle.thy ===== *)
theory Spec2Isabelle
  imports Shell_Props Fat32_Limits Inserter_Props Clock_Props Ata Kernel_Props Dispatch_Refine Search
begin

text \<open>
  A verification of the teaching operating system in \<open>src/src/\<close>: a 32-bit kernel with a FAT32
  filesystem, paging, processes with a round-robin scheduler, a text terminal and keyboard, system
  calls, and a command shell that runs as its first process.

  \<^bold>\<open>How the parts interact.\<close>  The shell (\<open>user-program/shell/user-shell.c\<close>) reaches everything through
  system calls (\<open>syscall\<close> in \<open>interrupt.c\<close>): files through the FAT32 driver (\<open>fat32.c\<close>), the screen and
  the keyboard through \<open>puts\<close> and the keyboard driver (\<open>keyboard.c\<close>, \<open>framebuffer.c\<close>), processes through
  \<open>process.c\<close>.  Creating a process claims a page directory and frames (\<open>paging.c\<close>) and loads the
  executable with the driver's \<open>read\<close> into the new address space.  The timer interrupt saves the
  context of the running process and switches to the next one (\<open>scheduler.c\<close>).

  \<^bold>\<open>Theories.\<close>
  \<^item> \<open>Prelude\<close>: the widths of the machine integers, the faults (accesses outside an object, uses of an
    uninitialised value), sequencing of fallible steps, and lemmas on lists and words shared below.
  \<^item> \<open>Cstring\<close> (\<open>string.c\<close>), \<open>Cmath\<close> (\<open>math.c\<close>, \<open>ceil\<close> and \<open>floor\<close> of \<open>fat32.c\<close>, over IEEE single
    precision), \<open>Disk\<close> (\<open>read_blocks\<close> and \<open>write_blocks\<close> of \<open>user-program/external-inserter.c\<close>, with
    the block-device interface as a locale).
  \<^item> \<open>Fat32_Layout\<close> (the structures of \<open>fat32.h\<close> and their bytes), \<open>Fat32\<close> (every operation of
    \<open>fat32.c\<close>), \<open>Fat32_Chain\<close> and \<open>Fat32_Props\<close> (cluster chains, formatting and mounting), \<open>Fat32_Write\<close>,
    \<open>Fat32_Files\<close>, \<open>Fat32_Delete\<close> (what each request does on each of its branches, round trips),
    \<open>Fat32_Tree\<close> (the invariant of the whole directory tree: chains end, are disjoint and accounted for;
    every sequence of requests keeps it), \<open>Fat32_Limits\<close> (large files, the root's own entry).
  \<^item> \<open>Inserter\<close>, \<open>Inserter_Props\<close> (\<open>main\<close> of \<open>user-program/external-inserter.c\<close>): the host program that puts
    a file into a disk image with the same driver, and what a kernel finds on the image afterwards.
  \<^item> \<open>Paging\<close> (\<open>paging.c\<close>) and \<open>Paging_Props\<close>: each frame has at most one owner; address spaces are
    separate but for released pages, whose entries keep whatever flags the release happened to store;
    outcomes and round trips of allocation.
  \<^item> \<open>Process\<close> (\<open>process.c\<close>), \<open>Process_Props\<close>, \<open>Process_Load\<close>: the process table with its claims on
    page directories and frames, creation on every branch, destruction, and the loading of the file's
    bytes into the new address space.
  \<^item> \<open>Scheduler\<close> (\<open>scheduler.c\<close> and the timer branch of \<open>main_interrupt_handler\<close>): termination of the
    search, one running process, fairness through the locale \<open>round_robin\<close>, preservation of contexts.
    \<open>Process_Runs\<close>: the invariant of the process table without its counter, kept by every operation.
  \<^item> \<open>Terminal\<close>, \<open>Terminal_Props\<close> (\<open>framebuffer.c\<close>; \<open>puts\<close> and \<open>puts_at\<close> of \<open>interrupt.c\<close>) and
    \<open>Keyboard\<close> (\<open>keyboard.c\<close>): what is printed where, scrolling, the cursor, decoding of scancodes.
  \<^item> \<open>Command\<close>: commands on a state that may fault or not return.  \<open>Syscall\<close>: one command per case of
    \<open>syscall\<close>, its pointer arguments as objects.  \<open>Ustring\<close> (\<open>user-program/utils.h\<close>): the strings of the
    user programs.
  \<^item> \<open>Interrupt\<close> (the interrupt controllers in \<open>interrupt.c\<close>, the interval timer in \<open>scheduler.c\<close>): the
    bytes sent to their ports, and the two device interrupts.
  \<^item> \<open>Ata\<close> (\<open>disk.c\<close>): the block transfers over an arbitrary device behind the ports, and their refinement
    of the block device of \<open>Disk\<close> for drives that keep the documented protocol (\<open>ata_drive\<close>) and request
    data soon enough (\<open>prompt_drive\<close>); a drive that does not, on which every read is garbage.  \<open>Rtc\<close> (\<open>cmos.c\<close>): the reading
    of the clock chip, for any chip that answers as a function of the number of accesses made.
  \<^item> \<open>Gdt\<close> and \<open>Idt\<close> (\<open>gdt.c\<close>, \<open>idt.c\<close>): segment descriptors, gates and the task state segment with their
    bytes; which segment each selector names, which gates user code may call and on which stack the
    kernel runs.
  \<^item> \<open>Kernel\<close> (\<open>kernel.c\<close>) and \<open>Kernel_Props\<close>: \<open>kernel_setup\<close> composed of the parts above; the kernel's
    start ends in the shell when the disk has one, and what happens when it has none.
  \<^item> \<open>Dispatch\<close> (\<open>syscall\<close> and \<open>main_interrupt_handler\<close> of \<open>interrupt.c\<close>): the case by register \<open>eax\<close>, its
    arguments read from and written to the paged memory of the running process.  \<open>Dispatch_Effects\<close>:
    commands related to their effect (locales \<open>effect\<close> and \<open>call_effect\<close>), and the invariant of processes
    and pages over every sequence of interrupts.  \<open>Dispatch_Props\<close>: memory outside the running process is
    kept, and what termination leaves behind.  \<open>Dispatch_Refine\<close>: the calls \<open>read\<close> and \<open>write\<close> refine
    their commands in \<open>Syscall\<close>.  \<open>Search\<close> (\<open>find_start\<close> and \<open>find\<close>): the search through the tree, which no call
    reaches; a search that returns has found nothing, because every hit reads past a lone character.
  \<^item> \<open>Shell\<close>, \<open>Shell_Commands\<close>, \<open>Shell_Main\<close>: the shell's commands, the parsing of a line, and a turn
    of its key loop; \<open>Shell_Props\<close>: paths, arguments, \<open>mkdir\<close> against the driver, \<open>kill\<close>, and inputs
    that leave a buffer.  \<open>Clock\<close>, \<open>Clock_Props\<close> (\<open>user-program/clock/clock.c\<close>): the face, and a turn of the
    clock's loop.

  \<^bold>\<open>Correspondence.\<close>  A structure of the C code is a record of the same name (field names get a prefix
  where they would clash), an operation a definition of the same name; a loop body or a branch that
  has a name of its own here names its function in a comment.  Integers keep their width.  An index
  outside an array, or the use of an uninitialised variable, is the fault \<open>OutOfBounds\<close> or
  \<open>Uninitialised\<close>; where the indeterminate value only flows into data it is an argument named \<open>junk\<close>.
  A pointer to bytes is the list of bytes from there to the end of its object.  The driver's transfer
  to and from the caller's buffer is an argument (\<open>load\<close>, \<open>store\<close>) of \<open>read\<close>, \<open>write\<close> and
  \<open>read_directory\<close>, instantiated with a flat memory, a paged address space or a local buffer.

  \<^bold>\<open>Loops.\<close>  Loops with a bound are folds or structural recursion.  Loops that may not end (following a
  cluster chain, the search for a process, the path of a directory, the search through the tree, the
  deletion of characters, padding, the waits for the disk and the clock chip) are partial functions with
  result \<open>None\<close> for no return; no fuel is used.  Termination is proved for the chains of a well-formed
  tree, for the search whenever some process exists, for the path of a directory that leads to the root,
  and for the waits on a device that becomes ready.

  \<^bold>\<open>Devices.\<close>  The disk, the clock chip, the keyboard's scancode and the picture drawn at the start are
  arguments of the definitions that use them.  Output to ports is a list of port and byte.

  \<^bold>\<open>Not modelled.\<close>  The assembly files and the instructions \<open>in\<close>, \<open>out\<close>, \<open>invlpg\<close>, \<open>lidt\<close>, \<open>sti\<close> beyond their effect on the
  state above (the translation buffer is taken to agree with the directory in use); the picture data.
  A pointer
  of a system call into the kernel's half of the address space, which the code follows without a check,
  is the fault \<open>BadPointer\<close> on reading and \<open>PageFault\<close> on writing: the model stops there, since the layout
  of the kernel's own memory is not modelled.  Interrupts are
  handled one after the other; a keyboard interrupt during the kernel's start is not modelled.
\<close>

end
